(* ===== verification/Prelude.thy ===== *)
theory Prelude
  imports Main "HOL-Library.Word" "HOL-Library.Signed_Division"
begin

text \<open>
  Shared material of the development: names for the fixed-width integers of the C code,
  the C division that truncates towards zero, reads of a byte buffer that may fault, and the
  fact collections the component theories fill.
\<close>

unbundle bit_operations_syntax

section \<open>Fact collections\<close>

named_theorems cword_simps \<open>values of C integer expressions\<close>
named_theorems obs_defs \<open>the operations of the Tilt observer\<close>
named_theorems app_defs \<open>the operations of the application task\<close>

section \<open>Fixed-width integers\<close>

text \<open>An \<open>iN\<close> is an N-bit pattern that the code reads with \<open>sint\<close>, a \<open>uN\<close> one it reads
  with \<open>uint\<close>.\<close>

type_synonym u8 = "8 word"
type_synonym u16 = "16 word"
type_synonym i16 = "16 word"
type_synonym i32 = "32 word"
type_synonym i64 = "64 word"

definition i32_div :: "i32 \<Rightarrow> i32 \<Rightarrow> i32" where
  "i32_div a b = word_of_int (sint a sdiv sint b)"

text \<open>Where an exact result fits the width, the word operation computes it.\<close>

lemma sint_of_int_fits16:
  "- 32768 \<le> k \<Longrightarrow> k \<le> 32767 \<Longrightarrow> sint (word_of_int k :: 16 word) = k"
  by (simp add: sint_sbintrunc' signed_take_bit_int_eq_self)

lemma sint_of_int_fits32:
  "- 2147483648 \<le> k \<Longrightarrow> k \<le> 2147483647 \<Longrightarrow> sint (word_of_int k :: 32 word) = k"
  by (simp add: sint_sbintrunc' signed_take_bit_int_eq_self)

lemma sint_of_int_fits64:
  "- (2 ^ 63) \<le> k \<Longrightarrow> k < 2 ^ 63 \<Longrightarrow> sint (word_of_int k :: 64 word) = k"
  by (simp add: sint_sbintrunc' signed_take_bit_int_eq_self)

lemma sint16_bounds: "- 32768 \<le> sint (w :: 16 word) \<and> sint w \<le> 32767"
  using sint_range_size [of w] by (simp add: word_size)

lemma sint32_bounds: "- 2147483648 \<le> sint (w :: 32 word) \<and> sint w \<le> 2147483647"
  using sint_range_size [of w] by (simp add: word_size)

lemma sint64_bounds: "- (2 ^ 63) \<le> sint (w :: 64 word) \<and> sint w < 2 ^ 63"
  using sint_range_size [of w] by (simp add: word_size)

lemma sint32_sub:
  fixes a b :: i32
  assumes "- 2147483648 \<le> sint a - sint b" "sint a - sint b \<le> 2147483647"
  shows "sint (a - b) = sint a - sint b"
proof -
  have "a - b = word_of_int (sint a - sint b)" by simp
  then show ?thesis using assms by (metis sint_of_int_fits32)
qed

lemma sint32_add:
  fixes a b :: i32
  assumes "- 2147483648 \<le> sint a + sint b" "sint a + sint b \<le> 2147483647"
  shows "sint (a + b) = sint a + sint b"
proof -
  have "a + b = word_of_int (sint a + sint b)" by simp
  then show ?thesis using assms by (metis sint_of_int_fits32)
qed

lemma sint32_mult:
  fixes a b :: i32
  assumes "- 2147483648 \<le> sint a * sint b" "sint a * sint b \<le> 2147483647"
  shows "sint (a * b) = sint a * sint b"
proof -
  have "a * b = word_of_int (sint a * sint b)" by simp
  then show ?thesis using assms by (metis sint_of_int_fits32)
qed

lemma sint64_sub:
  fixes a b :: i64
  assumes "- (2 ^ 63) \<le> sint a - sint b" "sint a - sint b < 2 ^ 63"
  shows "sint (a - b) = sint a - sint b"
proof -
  have "a - b = word_of_int (sint a - sint b)" by simp
  then show ?thesis using assms by (metis sint_of_int_fits64)
qed

lemma word_eq_iff_sint: "v = w \<longleftrightarrow> sint v = sint w"
  by (auto intro: signed_word_eqI)

text \<open>The conversion \<open>(int16_t)x\<close> of a 32-bit value drops the upper bits.\<close>

lemma sint_ucast32_16:
  fixes x :: i32
  assumes "- 32768 \<le> sint x" "sint x \<le> 32767"
  shows "sint (ucast x :: i16) = sint x"
proof -
  have "(ucast x :: i16) = word_of_int (sint x)"
    by transfer (simp add: take_bit_signed_take_bit)
  then show ?thesis using assms by (simp only: sint_of_int_fits16)
qed

text \<open>Division by a positive number: the result always fits, and it is the exact quotient up to
  less than one.\<close>

lemma sdiv_pos:
  fixes k n :: int
  assumes "0 < n"
  shows "k sdiv n = (if 0 \<le> k then k div n else - ((- k) div n))"
  using assms by (auto simp: signed_divide_int_def sgn_if)

lemma sint_i32_div:
  assumes "0 < sint b"
  shows "sint (i32_div a b) = sint a sdiv sint b"
proof -
  have up: "k div sint b \<le> k \<and> 0 \<le> k div sint b" if "0 \<le> k" for k
    using that assms zdiv_mono2 [of k 1 "sint b"] by (simp add: pos_imp_zdiv_nonneg_iff)
  have "- 2147483648 \<le> sint a sdiv sint b \<and> sint a sdiv sint b \<le> 2147483647"
    using sint32_bounds [of a] up [of "sint a"] up [of "- sint a"] by (auto simp: sdiv_pos assms)
  then show ?thesis by (simp add: i32_div_def sint_of_int_fits32)
qed

lemma sdiv_error:
  fixes k n :: int
  assumes "0 < n"
  shows "\<bar>n * (k sdiv n) - k\<bar> < n"
proof -
  have "k smod n \<in> {- \<bar>n\<bar> + 1..\<bar>n\<bar> - 1}" using assms by (intro smod_int_range) simp
  moreover have "k - n * (k sdiv n) = k smod n" by (rule minus_mult_sdiv_eq_smod)
  ultimately show ?thesis using assms by auto
qed

section \<open>Memory reads that may fault\<close>

text \<open>
  A pointer is \<open>None\<close> (NULL) or the list of the bytes that can be read behind it. A read
  past the end of that list is undefined behaviour in C; here it is the fault
  \<open>Out_of_bounds i\<close>, and an expression that faults has no value.
\<close>

datatype c_fault = Out_of_bounds nat

definition bind_fault :: "'e + 'a \<Rightarrow> ('a \<Rightarrow> 'e + 'b) \<Rightarrow> 'e + 'b" where
  "bind_fault x f = (case x of Inl e \<Rightarrow> Inl e | Inr a \<Rightarrow> f a)"

lemma bind_fault_simps [simp]:
  "bind_fault (Inl e) f = Inl e"
  "bind_fault (Inr a) f = f a"
  by (simp_all add: bind_fault_def)

lemma bind_fault_Inr_iff:
  "bind_fault x f = Inr b \<longleftrightarrow> (\<exists>a. x = Inr a \<and> f a = Inr b)"
  by (cases x) auto

definition read_byte :: "u8 list \<Rightarrow> nat \<Rightarrow> c_fault + u8" where
  "read_byte mem i = (if i < length mem then Inr (mem ! i) else Inl (Out_of_bounds i))"

lemma read_byte_ok [simp]: "i < length mem \<Longrightarrow> read_byte mem i = Inr (mem ! i)"
  by (simp add: read_byte_def)

fun memcmp_bytes :: "u8 list \<Rightarrow> u8 list \<Rightarrow> int" where
  "memcmp_bytes (x # xs) (y # ys) =
     (if x = y then memcmp_bytes xs ys else uint x - uint y)"
| "memcmp_bytes _ _ = 0"

text \<open>\<open>memcmp\<close> may read all \<open>n\<close> bytes of both objects, wherever they differ.\<close>

definition c_memcmp :: "u8 list \<Rightarrow> u8 list \<Rightarrow> nat \<Rightarrow> c_fault + int" where
  "c_memcmp p q n =
     (if length p < n then Inl (Out_of_bounds (length p))
      else if length q < n then Inl (Out_of_bounds (length q))
      else Inr (memcmp_bytes (take n p) (take n q)))"

lemma memcmp_bytes_zero_iff:
  "length xs = length ys \<Longrightarrow> memcmp_bytes xs ys = 0 \<longleftrightarrow> xs = ys"
  by (induction xs ys rule: memcmp_bytes.induct) (auto simp: word_uint_eq_iff)

lemma c_memcmp_ok:
  "n \<le> length p \<Longrightarrow> n \<le> length q \<Longrightarrow>
   c_memcmp p q n = Inr (memcmp_bytes (take n p) (take n q))"
  by (simp add: c_memcmp_def)

section \<open>Invariants of step relations\<close>

text \<open>The interface between a step relation and a predicate its steps keep: what holds now holds
  after any number of steps.\<close>

locale step_invariant =
  fixes step :: "'s \<Rightarrow> 's \<Rightarrow> bool"
    and I :: "'s \<Rightarrow> bool"
  assumes step_keeps: "step s t \<Longrightarrow> I s \<Longrightarrow> I t"
begin

lemma steps_keep: "step\<^sup>*\<^sup>* s t \<Longrightarrow> I s \<Longrightarrow> I t"
  by (induction rule: rtranclp_induct) (auto intro: step_keeps)

end

end
