(* ===== verification/Tilt.thy ===== *)
theory Tilt
  imports Prelude
begin

text \<open>
  The decoder of a Black Tilt iBeacon advert (\<^verbatim>\<open>ble_observer/tilt.h\<close>): the 20-byte prefix,
  the big-endian temperature (degrees Fahrenheit) and gravity (SG x1000), and the conversion to
  centi-degrees Celsius in 32-bit arithmetic with a clamp to 16 bits. The lemmas say when an
  advert is accepted, that the buffer is never read out of bounds, and that the stored value is
  the truncated quotient over the integers: no 32-bit operation wraps, and only the upper clamp
  is ever taken.
\<close>

section \<open>The code\<close>

definition TILT_BLACK_PREFIX_LEN :: nat where
  "TILT_BLACK_PREFIX_LEN = 20"

definition TILT_IBEACON_MIN_LEN :: int where
  "TILT_IBEACON_MIN_LEN = 25"

definition TILT_BLACK_PREFIX :: "u8 list" where
  "TILT_BLACK_PREFIX =
    [0x4C, 0x00, 0x02, 0x15,
     0xA4, 0x95, 0xBB, 0x30, 0xC5, 0xB1, 0x4B, 0x44,
     0xB5, 0x12, 0x13, 0x70, 0xF0, 0x2D, 0x74, 0xDE]"

text \<open>\<open>((uint16_t)hi << 8) | lo\<close>: both operands are promoted to 32-bit int, the result is
  stored in a \<open>uint16_t\<close>.\<close>

definition be16 :: "u8 \<Rightarrow> u8 \<Rightarrow> u16" where
  "be16 hi lo = ucast (push_bit 8 (ucast hi :: i32) OR (ucast lo :: i32))"

definition tilt_centi :: "u16 \<Rightarrow> i32" where
  "tilt_centi temp_f = i32_div ((ucast temp_f - 32) * 500) 9"

definition tilt_clamp :: "i32 \<Rightarrow> i32" where
  "tilt_clamp centi =
     (let centi1 = (if sint centi > 32767 then 32767 else centi)
      in if sint centi1 < - 32768 then - 32768 else centi1)"

definition tilt_black_decode :: "u8 list option \<Rightarrow> u8 \<Rightarrow> c_fault + (i16 \<times> u16) option" where
  "tilt_black_decode mfg len =
     (case mfg of
        None \<Rightarrow> Inr None
      | Some mem \<Rightarrow>
          if uint len < TILT_IBEACON_MIN_LEN then Inr None
          else bind_fault (c_memcmp mem TILT_BLACK_PREFIX TILT_BLACK_PREFIX_LEN) (\<lambda>c.
            if c \<noteq> 0 then Inr None
            else
              bind_fault (read_byte mem 20) (\<lambda>b20.
              bind_fault (read_byte mem 21) (\<lambda>b21.
              bind_fault (read_byte mem 22) (\<lambda>b22.
              bind_fault (read_byte mem 23) (\<lambda>b23.
                (let temp_f = be16 b20 b21;
                     gravity_x1k = be16 b22 b23;
                     centi = tilt_clamp (tilt_centi temp_f)
                 in Inr (Some (ucast centi, gravity_x1k)))))))))"

section \<open>Arithmetic of the conversion\<close>

lemma uint_be16 [cword_simps]: "uint (be16 hi lo) = 256 * uint hi + uint lo"
proof -
  have d: "push_bit 8 (ucast hi :: i32) AND (ucast lo :: i32) = 0"
    by (rule bit_word_eqI) (auto simp: bit_simps dest: bit_imp_le_length)
  have b: "0 \<le> uint hi" "uint hi \<le> 255" "0 \<le> uint lo" "uint lo \<le> 255"
    using uint_range_size [of hi] uint_range_size [of lo] by (simp_all add: word_size)
  have "push_bit 8 (ucast hi :: i32) OR (ucast lo :: i32) = push_bit 8 (ucast hi) + ucast lo"
    using d by (simp add: disjunctive_add_eq_or)
  also have "\<dots> = word_of_int (uint hi) * 2 ^ 8 + word_of_int (uint lo)"
    by (simp only: push_bit_eq_mult ucast_eq)
  also have "\<dots> = word_of_int (256 * uint hi + uint lo)"
    by (simp add: mult.commute)
  finally have "uint (push_bit 8 (ucast hi :: i32) OR (ucast lo :: i32)) = 256 * uint hi + uint lo"
    using b by (simp only: uint_word_of_int) simp
  then show ?thesis
    using b by (simp only: be16_def unsigned_ucast_eq) (simp add: take_bit_int_eq_self)
qed

text \<open>The value over the integers that the 32-bit expression computes.\<close>

definition centi_of_f :: "int \<Rightarrow> int" where
  "centi_of_f f = (f - 32) * 500 sdiv 9"

lemma u16_bounds: "0 \<le> uint (w :: u16) \<and> uint w \<le> 65535"
  using uint_range_size [of w] by (simp add: word_size)

lemma sdiv9: "(k::int) sdiv 9 = (if 0 \<le> k then k div 9 else - ((- k) div 9))"
  by (auto simp: signed_divide_int_def sgn_if)

lemma sdiv9_nonneg: "0 \<le> (k::int) \<Longrightarrow> 9 * (k sdiv 9) \<le> k \<and> k \<le> 9 * (k sdiv 9) + 8"
  unfolding sdiv9 by simp linarith

lemma sdiv9_nonpos: "(k::int) \<le> 0 \<Longrightarrow> 9 * (k sdiv 9) - 8 \<le> k \<and> k \<le> 9 * (k sdiv 9)"
  unfolding sdiv9 by (cases "k = 0") (simp, simp, linarith)

lemma sdiv9_rem: "\<bar>9 * ((k::int) sdiv 9) - k\<bar> \<le> 8"
  using sdiv9_nonneg [of k] sdiv9_nonpos [of k] by (cases "0 \<le> k") auto

lemma sdiv9_mono: "(j::int) \<le> k \<Longrightarrow> j sdiv 9 \<le> k sdiv 9"
proof (cases "0 \<le> j")
  case True
  assume "j \<le> k"
  with True show ?thesis using sdiv9_nonneg [of j] sdiv9_nonneg [of k] by simp
next
  case False
  assume le: "j \<le> k"
  show ?thesis
  proof (cases "0 \<le> k")
    case True
    have "j sdiv 9 \<le> 0" using False sdiv9_nonpos [of j] by linarith
    moreover have "0 \<le> k sdiv 9" using True sdiv9_nonneg [of k] by linarith
    ultimately show ?thesis by linarith
  next
    case False
    with le show ?thesis using sdiv9_nonpos [of j] sdiv9_nonpos [of k] by simp
  qed
qed

lemma sint_i32_div9: "sint (i32_div a 9) = sint a sdiv 9"
proof -
  have "- 2147483648 \<le> sint a sdiv 9 \<and> sint a sdiv 9 \<le> 2147483647"
    using sint32_bounds [of a] sdiv9_rem [of "sint a"] by arith
  then show ?thesis by (simp add: i32_div_def sint_of_int_fits32)
qed

text \<open>Every step of the expression has its value over the integers: no 32-bit operation wraps.\<close>

lemma tilt_centi_steps:
  "sint (ucast w :: i32) = uint w" "sint (ucast w - 32 :: i32) = uint w - 32"
  "sint ((ucast w - 32) * 500 :: i32) = (uint w - 32) * 500" for w :: u16
proof -
  have r: "0 \<le> uint w" "uint w \<le> 65535" using u16_bounds by auto
  show c: "sint (ucast w :: i32) = uint w"
    using r by (simp only: ucast_eq sint_of_int_fits32)
  show s: "sint (ucast w - 32 :: i32) = uint w - 32"
    using r by (subst sint32_sub) (simp_all add: c)
  show "sint ((ucast w - 32) * 500 :: i32) = (uint w - 32) * 500"
    using r by (subst sint32_mult) (simp_all add: s)
qed

lemma sint_tilt_centi [cword_simps]: "sint (tilt_centi w) = centi_of_f (uint w)"
  by (simp only: tilt_centi_def centi_of_f_def sint_i32_div9 tilt_centi_steps)

lemma centi_of_f_mono: "f \<le> g \<Longrightarrow> centi_of_f f \<le> centi_of_f g"
  unfolding centi_of_f_def by (intro sdiv9_mono) simp

lemma centi_of_f_lower: "0 \<le> f \<Longrightarrow> - 1777 \<le> centi_of_f f"
  using centi_of_f_mono [of 0 f] by (simp add: centi_of_f_def)

lemma centi_of_f_upper: "f \<le> 621 \<Longrightarrow> centi_of_f f \<le> 32767"
  using centi_of_f_mono [of f 621] by (simp add: centi_of_f_def)

lemma centi_of_f_error: "\<bar>9 * centi_of_f f - 500 * (f - 32)\<bar> \<le> 8"
  unfolding centi_of_f_def using sdiv9_rem [of "(f - 32) * 500"] by (simp add: mult.commute)

lemma sint_tilt_stored [cword_simps]:
  "sint (ucast (tilt_clamp (tilt_centi w)) :: i16) = min 32767 (centi_of_f (uint w))"
proof -
  have lo: "- 1777 \<le> centi_of_f (uint w)" by (rule centi_of_f_lower) simp
  then show ?thesis
   by (auto simp: tilt_clamp_def Let_def sint_tilt_centi sint_ucast32_16)
qed

section \<open>What the decoder accepts and returns\<close>

definition tilt_temp :: "u8 list \<Rightarrow> i16" where
  "tilt_temp mem = ucast (tilt_clamp (tilt_centi (be16 (mem ! 20) (mem ! 21))))"

definition tilt_gravity :: "u8 list \<Rightarrow> u16" where
  "tilt_gravity mem = be16 (mem ! 22) (mem ! 23)"

text \<open>The advert is in bounds when the pointer really has the \<open>len\<close> bytes the caller says.\<close>

definition in_bounds :: "u8 list \<Rightarrow> u8 \<Rightarrow> bool" where
  "in_bounds mem len \<longleftrightarrow> uint len \<le> int (length mem)"

lemma length_TILT_BLACK_PREFIX [simp]: "length TILT_BLACK_PREFIX = 20"
  by (simp add: TILT_BLACK_PREFIX_def)

lemma tilt_black_decode_NULL [simp]: "tilt_black_decode None len = Inr None"
  by (simp add: tilt_black_decode_def)

lemma tilt_black_decode_short:
  "uint len < 25 \<Longrightarrow> tilt_black_decode mfg len = Inr None"
  by (simp add: tilt_black_decode_def TILT_IBEACON_MIN_LEN_def split: option.split)

lemma tilt_black_decode_eq:
  assumes "in_bounds mem len"
  shows "tilt_black_decode (Some mem) len =
    (if 25 \<le> uint len \<and> take 20 mem = TILT_BLACK_PREFIX
     then Inr (Some (tilt_temp mem, tilt_gravity mem)) else Inr None)"
proof (cases "25 \<le> uint len")
  case True
  with assms have l: "25 \<le> length mem" by (simp add: in_bounds_def)
  have c: "c_memcmp mem TILT_BLACK_PREFIX 20 = Inr (memcmp_bytes (take 20 mem) TILT_BLACK_PREFIX)"
    using l by (simp add: c_memcmp_ok)
  have z: "memcmp_bytes (take 20 mem) TILT_BLACK_PREFIX = 0 \<longleftrightarrow> take 20 mem = TILT_BLACK_PREFIX"
    using l by (intro memcmp_bytes_zero_iff) simp
  show ?thesis
    using True l
    by (simp add: tilt_black_decode_def TILT_IBEACON_MIN_LEN_def TILT_BLACK_PREFIX_LEN_def
        c z tilt_temp_def tilt_gravity_def Let_def)
next
  case False
  then show ?thesis by (simp add: tilt_black_decode_short)
qed

lemma tilt_black_decode_Some_len:
  "tilt_black_decode mfg len = Inr (Some r) \<Longrightarrow> 25 \<le> uint len \<and> mfg \<noteq> None"
  using tilt_black_decode_short [of len mfg] by (cases "uint len < 25"; cases mfg) auto

lemma sint_tilt_temp [cword_simps]:
  "sint (tilt_temp mem) = min 32767 (centi_of_f (256 * uint (mem ! 20) + uint (mem ! 21)))"
  by (simp add: tilt_temp_def sint_tilt_stored uint_be16)

lemma uint_tilt_gravity [cword_simps]:
  "uint (tilt_gravity mem) = 256 * uint (mem ! 22) + uint (mem ! 23)"
  by (simp add: tilt_gravity_def uint_be16)

text \<open>The advert of a Black Tilt that measures \<open>f\<close> degrees Fahrenheit and gravity \<open>g\<close>;
  \<open>tail\<close> is the transmission power byte and what follows it.\<close>

definition tilt_advert :: "u16 \<Rightarrow> u16 \<Rightarrow> u8 list \<Rightarrow> u8 list" where
  "tilt_advert f g tail =
     TILT_BLACK_PREFIX @
     [word_of_int (uint f div 256), word_of_int (uint f mod 256),
      word_of_int (uint g div 256), word_of_int (uint g mod 256)] @ tail"

lemma be16_bytes [simp]:
  "be16 (word_of_int (uint w div 256)) (word_of_int (uint w mod 256)) = w"
proof -
  have hi: "uint w div 256 mod 256 = uint w div 256"
    using u16_bounds [of w] by (intro mod_pos_pos_trivial) linarith+
  have "uint (be16 (word_of_int (uint w div 256)) (word_of_int (uint w mod 256))) = uint w"
    using hi by (simp add: uint_be16 uint_word_of_int)
  then show ?thesis by (simp add: word_uint_eq_iff)
qed

lemma tilt_advert_bytes:
  "take 20 (tilt_advert f g tail) = TILT_BLACK_PREFIX"
  "tilt_advert f g tail ! 20 = word_of_int (uint f div 256)"
  "tilt_advert f g tail ! 21 = word_of_int (uint f mod 256)"
  "tilt_advert f g tail ! 22 = word_of_int (uint g div 256)"
  "tilt_advert f g tail ! 23 = word_of_int (uint g mod 256)"
  "length (tilt_advert f g tail) = 24 + length tail"
  by (simp_all add: tilt_advert_def nth_append)

lemma tilt_advert_values:
  "tilt_gravity (tilt_advert f g tail) = g"
  "tilt_temp (tilt_advert f g tail) = ucast (tilt_clamp (tilt_centi f))"
  by (simp_all add: tilt_gravity_def tilt_temp_def tilt_advert_bytes)

section \<open>Properties\<close>

text \<open>C9. The decoder accepts an advert exactly when the length is at least 25 and the first
  twenty bytes are the Black Tilt prefix. It then returns the truncated centi-degree value of
  the big-endian Fahrenheit word, clamped at 32767, and the big-endian gravity word; the 32-bit
  arithmetic agrees with the arithmetic over the integers.\<close>

theorem tilt_decode_correct:
  assumes "in_bounds mem len"
  shows "tilt_black_decode (Some mem) len = Inr (Some (t, g)) \<longleftrightarrow>
    25 \<le> uint len \<and> take 20 mem = TILT_BLACK_PREFIX \<and>
    sint t = min 32767 (((256 * uint (mem ! 20) + uint (mem ! 21)) - 32) * 500 sdiv 9) \<and>
    uint g = 256 * uint (mem ! 22) + uint (mem ! 23)"
proof -
  have "t = tilt_temp mem \<longleftrightarrow>
      sint t = min 32767 (((256 * uint (mem ! 20) + uint (mem ! 21)) - 32) * 500 sdiv 9)"
    by (simp only: word_eq_iff_sint [of t] sint_tilt_temp centi_of_f_def)
  moreover have "g = tilt_gravity mem \<longleftrightarrow> uint g = 256 * uint (mem ! 22) + uint (mem ! 23)"
    by (simp only: word_uint_eq_iff uint_tilt_gravity)
  ultimately show ?thesis
    using assms by (auto simp: tilt_black_decode_eq)
qed

theorem tilt_decode_correct_witness:
  "tilt_black_decode (Some (TILT_BLACK_PREFIX @ [0, 68, 3, 244, 0])) 25
     = Inr (Some (2000, 1012))"
proof -
  have b: "in_bounds (TILT_BLACK_PREFIX @ [0, 68, 3, 244, 0]) 25"
    by (simp add: in_bounds_def)
  show ?thesis
    by (simp add: tilt_decode_correct [OF b] nth_append signed_divide_int_def)
qed

text \<open>C30. Exact memory footprint: the decoder reads nothing when the stated length is below 25,
  needs 20 readable bytes for the prefix comparison, and 24 when the prefix matches; in every
  other case it faults. A buffer with the stated number of bytes is therefore never overrun.\<close>

theorem tilt_decode_memory_safe:
  "(\<exists>r. tilt_black_decode (Some mem) len = Inr r) \<longleftrightarrow>
     (if uint len < 25 then True
      else if take 20 mem = TILT_BLACK_PREFIX then 24 \<le> length mem else 20 \<le> length mem)"
proof (cases "uint len < 25 \<or> length mem < 20")
  case True
  moreover have "take 20 mem \<noteq> TILT_BLACK_PREFIX" if "length mem < 20"
    using that by (auto dest: arg_cong [where f = length])
  ultimately show ?thesis
    by (auto simp: tilt_black_decode_short tilt_black_decode_def c_memcmp_def
        TILT_IBEACON_MIN_LEN_def TILT_BLACK_PREFIX_LEN_def)
next
  case False
  then have z: "memcmp_bytes (take 20 mem) TILT_BLACK_PREFIX = 0 \<longleftrightarrow>
      take 20 mem = TILT_BLACK_PREFIX"
    by (intro memcmp_bytes_zero_iff) simp
  from False show ?thesis
    by (auto simp: tilt_black_decode_def c_memcmp_ok z TILT_IBEACON_MIN_LEN_def
        TILT_BLACK_PREFIX_LEN_def read_byte_def Let_def bind_fault_def)
qed

text \<open>Round trip: an advert that carries the Fahrenheit word \<open>f\<close>, the gravity word \<open>g\<close> and at
  least one further byte decodes to exactly \<open>g\<close> and to the converted \<open>f\<close>, whatever follows.\<close>

theorem tilt_advert_roundtrip:
  assumes "tail \<noteq> []" "25 \<le> uint len" "in_bounds (tilt_advert f g tail) len"
  shows "\<exists>t. tilt_black_decode (Some (tilt_advert f g tail)) len = Inr (Some (t, g)) \<and>
    sint t = min 32767 ((uint f - 32) * 500 sdiv 9)"
  using assms
  by (simp add: tilt_black_decode_eq tilt_advert_bytes tilt_advert_values sint_tilt_stored
      centi_of_f_def)

theorem tilt_advert_roundtrip_witness:
  "\<exists>t. tilt_black_decode (Some (tilt_advert 68 1012 [0xC5])) 25 = Inr (Some (t, 1012)) \<and>
     sint t = 2000"
proof -
  have b: "in_bounds (tilt_advert 68 1012 [0xC5]) 25"
    by (simp add: in_bounds_def tilt_advert_bytes)
  show ?thesis
    using tilt_advert_roundtrip [OF _ _ b] by (simp add: signed_divide_int_def)
qed

text \<open>C31. Accuracy of an accepted temperature \<open>F\<close>: no operation of the conversion overflows (the
  difference, the product, the quotient and the narrowed result all have their values over the
  integers), up to 621 degrees Fahrenheit the stored value is within 8/9 of a centi-degree of the exact
  conversion, above it is 32767, and it is never below -1777, so the lower clamp is never taken.\<close>

theorem tilt_temp_accuracy:
  assumes "in_bounds mem len" "tilt_black_decode (Some mem) len = Inr (Some (t, g))"
    and "w = be16 (mem ! 20) (mem ! 21)" "F = 256 * uint (mem ! 20) + uint (mem ! 21)"
  shows "sint (ucast w :: i32) = F \<and> sint (ucast w - 32 :: i32) = F - 32 \<and>
    sint ((ucast w - 32) * 500 :: i32) = (F - 32) * 500 \<and>
    sint (tilt_centi w) = (F - 32) * 500 sdiv 9 \<and> sint t = sint (tilt_clamp (tilt_centi w)) \<and>
    - 1777 \<le> sint t \<and>
    (if F \<le> 621 then \<bar>9 * sint t - 500 * (F - 32)\<bar> \<le> 8 else sint t = 32767)"
proof -
  have w: "uint w = F" using assms(3,4) by (simp add: uint_be16)
  have t: "t = ucast (tilt_clamp (tilt_centi w))"
    using assms(1-3) by (auto simp: tilt_black_decode_eq tilt_temp_def split: if_splits)
  have v: "sint t = min 32767 (centi_of_f F)" by (simp add: t sint_tilt_stored w)
  have F: "0 \<le> F" using assms(4) by simp
  have lo: "- 1777 \<le> centi_of_f F" by (rule centi_of_f_lower [OF F])
  have n: "sint t = sint (tilt_clamp (tilt_centi w))"
    using lo by (auto simp: v tilt_clamp_def Let_def sint_tilt_centi w)
  have "if F \<le> 621 then \<bar>9 * sint t - 500 * (F - 32)\<bar> \<le> 8 else sint t = 32767"
  proof (cases "F \<le> 621")
    case True
    then show ?thesis using v centi_of_f_upper [of F] centi_of_f_error [of F] by simp
  next
    case False
    then have "centi_of_f 622 \<le> centi_of_f F" by (intro centi_of_f_mono) simp
    then have "32767 \<le> centi_of_f F" by (simp add: centi_of_f_def signed_divide_int_def)
    with False v show ?thesis by simp
  qed
  moreover have "sint (tilt_centi w) = (F - 32) * 500 sdiv 9"
    by (simp only: sint_tilt_centi w centi_of_f_def)
  moreover have "- 1777 \<le> sint t" using v lo by simp
  ultimately show ?thesis using n tilt_centi_steps [of w] unfolding w by blast
qed

theorem tilt_temp_accuracy_witness:
  "\<exists>t. tilt_black_decode (Some (TILT_BLACK_PREFIX @ [0, 68, 3, 244, 0])) 25 = Inr (Some (t, 1012)) \<and>
     - 1777 \<le> sint t \<and> \<bar>9 * sint t - 500 * (68 - 32)\<bar> \<le> 8"
proof -
  let ?m = "TILT_BLACK_PREFIX @ [0, 68, 3, 244, 0]"
  have b: "in_bounds ?m 25" by (simp add: in_bounds_def)
  have d: "tilt_black_decode (Some ?m) 25 = Inr (Some (2000, 1012))"
    by (simp add: tilt_black_decode_eq [OF b] tilt_temp_def tilt_gravity_def nth_append
        be16_def tilt_centi_def tilt_clamp_def i32_div_def signed_divide_int_def)
  show ?thesis
    using tilt_temp_accuracy [OF b d refl, of 68] d
    by (intro exI [of _ "2000 :: i16"]) (simp add: nth_append)
qed

end
