(* ===== verification/Observer.thy ===== *)
theory Observer
  imports Tilt
begin

text \<open>
  The Tilt BLE observer (\<^verbatim>\<open>ble_observer/observer.c\<close>, \<^verbatim>\<open>observer.h\<close>), one definition per C
  function. The static variables are the record \<open>observer\<close>. A function takes the results of the
  kernel and Bluetooth calls it makes (return codes, the uptime) as arguments, and returns the new
  state with the list of the calls it made, in order: Zephyr itself is not modelled. This theory
  treats each function as running alone; their interleaving is the theory
  \<open>Observer_Concurrency\<close>. Debug log lines are compiled out at the module's log level and are
  left out; the others are calls like the rest.
\<close>

section \<open>State and calls\<close>

record tilt_sample =
  temp_centi_c :: i16
  gravity_x1000 :: u16
  timestamp_ms :: i64
  valid :: bool

record 'cb observer =
  s_tilt :: tilt_sample
  s_enabled :: int
  s_sample_cb :: "'cb option"
  s_scan_active :: bool
  s_burst_start_ms :: i64

text \<open>Static storage starts zeroed; \<open>s_enabled\<close> is \<open>ATOMIC_INIT(0)\<close>.\<close>

definition observer_boot :: "'cb observer" where
  "observer_boot =
     \<lparr>s_tilt = \<lparr>temp_centi_c = 0, gravity_x1000 = 0, timestamp_ms = 0, valid = False\<rparr>,
      s_enabled = 0, s_sample_cb = None, s_scan_active = False, s_burst_start_ms = 0\<rparr>"

text \<open>A Bluetooth call returns 0, \<open>-EALREADY\<close> or another error code.\<close>

datatype bt_err = E_OK | E_ALREADY | E_OTHER int

datatype work = StartWork | StopWork | TimeoutWork

datatype scan_type = ScanPassive | ScanActive

record scan_param =
  scan_type :: scan_type
  scan_options :: nat
  scan_interval :: nat
  scan_window :: nat

datatype 'cb api_call =
    Work_submit work
  | Work_schedule work int
  | Work_cancel work
  | Scan_start scan_param
  | Scan_stop
  | Bt_enable
  | Sample_cb 'cb
  | Log_inf string
  | Log_wrn string "bt_err option"
  | Log_err string bt_err

text \<open>\<open>BT_GAP_SCAN_FAST_INTERVAL\<close>, in units of 0.625 ms; timeouts and ages in ms.\<close>

definition BURST_INTERVAL :: nat where
  "BURST_INTERVAL = 0x60"

definition BURST_TIMEOUT :: int where
  "BURST_TIMEOUT = 5 * 1000"

definition SAMPLE_MAX_AGE_MS :: int where
  "SAMPLE_MAX_AGE_MS = 10 * 60 * 1000"

section \<open>Work handlers\<close>

text \<open>The test under \<open>s_lock\<close> in \<open>burst_stop\<close>.\<close>

definition burst_captured :: "'cb observer \<Rightarrow> bool" where
  "burst_captured s \<longleftrightarrow>
     valid (s_tilt s) \<and> sint (s_burst_start_ms s) \<le> sint (timestamp_ms (s_tilt s))"

definition stop_warning :: "bt_err \<Rightarrow> 'cb api_call list" where
  "stop_warning err =
     (if err \<noteq> E_OK \<and> err \<noteq> E_ALREADY then [Log_wrn ''bt_le_scan_stop failed'' (Some err)] else [])"

definition burst_stop :: "bt_err \<Rightarrow> 'cb observer \<Rightarrow> 'cb observer \<times> 'cb api_call list" where
  "burst_stop err s =
     (if \<not> s_scan_active s then (s, [])
      else
        let s1 = s\<lparr>s_scan_active := False\<rparr>;
            captured = burst_captured s1;
            notify = (case s_sample_cb s1 of
                        Some cb \<Rightarrow> if captured then [Sample_cb cb] else []
                      | None \<Rightarrow> [])
        in (s1, [Work_cancel TimeoutWork, Scan_stop] @ stop_warning err @ notify))"

definition burst_scan_param :: scan_param where
  "burst_scan_param =
     \<lparr>scan_type = ScanPassive, scan_options = 0,
      scan_interval = BURST_INTERVAL, scan_window = BURST_INTERVAL\<rparr>"

definition start_work_handler ::
  "bt_err \<Rightarrow> i64 \<Rightarrow> 'cb observer \<Rightarrow> 'cb observer \<times> 'cb api_call list" where
  "start_work_handler err now s =
     (if s_enabled s = 0 then (s, [])
      else if s_scan_active s then (s, [])
      else if err \<noteq> E_OK
      then (s, [Scan_start burst_scan_param, Log_wrn ''burst start failed'' (Some err)])
      else (s\<lparr>s_scan_active := True, s_burst_start_ms := now\<rparr>,
            [Scan_start burst_scan_param, Work_schedule TimeoutWork BURST_TIMEOUT]))"

definition stop_work_handler ::
  "bt_err \<Rightarrow> 'cb observer \<Rightarrow> 'cb observer \<times> 'cb api_call list" where
  "stop_work_handler err s = burst_stop err s"

definition timeout_work_handler ::
  "bt_err \<Rightarrow> 'cb observer \<Rightarrow> 'cb observer \<times> 'cb api_call list" where
  "timeout_work_handler err s = burst_stop err s"

section \<open>Advertisement callback\<close>

text \<open>One advertising data element: \<open>struct bt_data\<close>. \<open>bd_data\<close> holds the bytes readable
  behind the \<open>data\<close> pointer.\<close>

record bt_data =
  bd_type :: u8
  bd_data_len :: u8
  bd_data :: "u8 list option"

definition BT_DATA_MANUFACTURER_DATA :: u8 where
  "BT_DATA_MANUFACTURER_DATA = 0xFF"

definition store_sample :: "i64 \<Rightarrow> i16 \<times> u16 \<Rightarrow> 'cb observer \<Rightarrow> 'cb observer" where
  "store_sample now r s =
     s\<lparr>s_tilt := \<lparr>temp_centi_c = fst r, gravity_x1000 = snd r, timestamp_ms = now,
                  valid = True\<rparr>\<rparr>"

type_synonym 'cb rx = "'cb observer \<times> 'cb api_call list"

text \<open>The boolean is the callback's return value: whether \<open>bt_data_parse\<close> goes on.\<close>

definition ad_parse_cb :: "i64 \<Rightarrow> bt_data \<Rightarrow> 'cb rx \<Rightarrow> c_fault + ('cb rx \<times> bool)" where
  "ad_parse_cb now d rx =
     (if bd_type d = BT_DATA_MANUFACTURER_DATA
      then bind_fault (tilt_black_decode (bd_data d) (bd_data_len d)) (\<lambda>res.
             case res of
               Some r \<Rightarrow> Inr ((store_sample now r (fst rx), snd rx @ [Work_submit StopWork]), False)
             | None \<Rightarrow> Inr (rx, True))
      else Inr (rx, True))"

text \<open>\<open>bt_data_parse\<close> is Zephyr's: the parameter \<open>parse\<close>. \<open>visit_elems\<close> states its documented
  behaviour on the elements \<open>elems ad\<close> it finds in the buffer.\<close>

definition scan_cb ::
  "('ad \<Rightarrow> (bt_data \<Rightarrow> 'cb rx \<Rightarrow> c_fault + ('cb rx \<times> bool)) \<Rightarrow> 'cb rx \<Rightarrow> c_fault + 'cb rx) \<Rightarrow>
   i64 \<Rightarrow> 'ad \<Rightarrow> 'cb observer \<Rightarrow> c_fault + 'cb rx" where
  "scan_cb parse now ad s = parse ad (ad_parse_cb now) (s, [])"

fun visit_elems ::
  "(bt_data \<Rightarrow> 'st \<Rightarrow> c_fault + ('st \<times> bool)) \<Rightarrow> bt_data list \<Rightarrow> 'st \<Rightarrow> c_fault + 'st" where
  "visit_elems f [] st = Inr st"
| "visit_elems f (d # ds) st =
     bind_fault (f d st) (\<lambda>(st', go_on). if go_on then visit_elems f ds st' else Inr st')"

definition bt_data_parse_contract ::
  "('ad \<Rightarrow> (bt_data \<Rightarrow> 'st \<Rightarrow> c_fault + ('st \<times> bool)) \<Rightarrow> 'st \<Rightarrow> c_fault + 'st) \<Rightarrow>
   ('ad \<Rightarrow> bt_data list) \<Rightarrow> bool" where
  "bt_data_parse_contract parse elems \<longleftrightarrow>
     (\<forall>ad f st. parse ad f st = visit_elems f (elems ad) st) \<and>
     (\<forall>ad. \<forall>d \<in> set (elems ad). \<exists>mem. bd_data d = Some mem \<and> in_bounds mem (bd_data_len d))"

section \<open>Public interface\<close>

definition observer_init ::
  "bt_err \<Rightarrow> 'cb option \<Rightarrow> 'cb observer \<Rightarrow> 'cb observer \<times> 'cb api_call list" where
  "observer_init err cb s =
     (s\<lparr>s_sample_cb := cb\<rparr>,
      [Bt_enable] @
      (if err \<noteq> E_OK \<and> err \<noteq> E_ALREADY then [Log_err ''bt_enable failed'' err]
       else if err = E_OK then [Log_wrn ''observer enabled BT before the Matter stack did'' None]
       else []))"

definition observer_enable :: "bool \<Rightarrow> 'cb observer \<Rightarrow> 'cb observer \<times> 'cb api_call list" where
  "observer_enable enable s =
     (s\<lparr>s_enabled := (if enable then 1 else 0)\<rparr>,
      (if \<not> enable then [Work_submit StopWork] else []) @
      [Log_inf (if enable then ''Tilt observer enabled'' else ''Tilt observer disabled'')])"

definition observer_trigger :: "'cb observer \<Rightarrow> 'cb observer \<times> 'cb api_call list" where
  "observer_trigger s = (if s_enabled s = 0 then (s, []) else (s, [Work_submit StartWork]))"

text \<open>The two out-parameters are \<open>None\<close> for NULL, else the value the pointee has before and
  after the call.\<close>

definition observer_get_tilt ::
  "i64 \<Rightarrow> i16 option \<Rightarrow> u16 option \<Rightarrow> 'cb observer \<Rightarrow> bool \<times> i16 option \<times> u16 option" where
  "observer_get_tilt now t g s =
     (let fresh = valid (s_tilt s) \<and>
                  sint (now - timestamp_ms (s_tilt s)) \<le> SAMPLE_MAX_AGE_MS
      in if fresh
         then (True, map_option (\<lambda>_. temp_centi_c (s_tilt s)) t,
                     map_option (\<lambda>_. gravity_x1000 (s_tilt s)) g)
         else (False, t, g))"

lemmas observer_op_defs [obs_defs] =
  burst_stop_def start_work_handler_def stop_work_handler_def timeout_work_handler_def
  observer_init_def observer_enable_def observer_trigger_def store_sample_def stop_warning_def

section \<open>The sample cache\<close>

text \<open>The interface the reporting code relies on: a timestamped sample is put, and a read gives
  the latest one while it is not older than \<open>max_age\<close>.\<close>

locale sample_cache =
  fixes put :: "i64 \<Rightarrow> 'v \<Rightarrow> 's \<Rightarrow> 's"
    and get :: "i64 \<Rightarrow> 's \<Rightarrow> 'v option"
    and max_age :: int
  assumes get_put:
    "0 \<le> sint t \<Longrightarrow> sint t \<le> sint now \<Longrightarrow>
     get now (put t v s) = (if sint now - sint t \<le> max_age then Some v else None)"
begin

lemma get_history:
  assumes "xs \<noteq> []" "0 \<le> sint (fst (last xs))" "sint (fst (last xs)) \<le> sint now"
  shows "get now (fold (\<lambda>(t, v). put t v) xs s) =
    (if sint now - sint (fst (last xs)) \<le> max_age then Some (snd (last xs)) else None)"
  using assms by (cases xs rule: rev_cases) (auto simp: get_put split: prod.splits)

lemma get_stays_expired:
  assumes "0 \<le> sint t" "sint t \<le> sint now" "sint now \<le> sint later"
    and "get now (put t v s) = None"
  shows "get later (put t v s) = None"
  using assms by (auto simp: get_put split: if_splits)

end

text \<open>What a caller that passes two non-NULL pointers sees.\<close>

definition tilt_reading :: "i64 \<Rightarrow> 'cb observer \<Rightarrow> (i16 \<times> u16) option" where
  "tilt_reading now s =
     (case observer_get_tilt now (Some 0) (Some 0) s of
        (True, Some t, Some g) \<Rightarrow> Some (t, g)
      | _ \<Rightarrow> None)"

lemma age_no_wrap:
  assumes "0 \<le> sint (t :: i64)" "sint t \<le> sint now"
  shows "sint (now - t) = sint now - sint t"
  using assms sint64_bounds [of now] sint64_bounds [of t] by (intro sint64_sub) linarith+

lemma tilt_reading_eq:
  "tilt_reading now s =
     (if valid (s_tilt s) \<and> sint (now - timestamp_ms (s_tilt s)) \<le> SAMPLE_MAX_AGE_MS
      then Some (temp_centi_c (s_tilt s), gravity_x1000 (s_tilt s)) else None)"
  by (simp add: tilt_reading_def observer_get_tilt_def Let_def)

interpretation obs_cache: sample_cache store_sample tilt_reading SAMPLE_MAX_AGE_MS
  by unfold_locales (simp add: tilt_reading_eq store_sample_def age_no_wrap)

section \<open>The enable gate\<close>

text \<open>The interface of the gate: its last setting is what holds.\<close>

locale burst_gate =
  fixes set_gate :: "bool \<Rightarrow> 's \<Rightarrow> 's"
    and gate_open :: "'s \<Rightarrow> bool"
  assumes gate_set: "gate_open (set_gate b s) = b"
begin

lemma gate_fold:
  "gate_open (fold set_gate bs s) = (if bs = [] then gate_open s else last bs)"
  by (cases bs rule: rev_cases) (simp_all add: gate_set)

end

definition gate_enabled :: "'cb observer \<Rightarrow> bool" where
  "gate_enabled s \<longleftrightarrow> s_enabled s \<noteq> 0"

interpretation obs_gate: burst_gate "\<lambda>b s. fst (observer_enable b s)" gate_enabled
  by unfold_locales (simp add: gate_enabled_def observer_enable_def)

section \<open>Lemmas\<close>

text \<open>The first element of an advert that decodes.\<close>

fun first_tilt :: "bt_data list \<Rightarrow> (i16 \<times> u16) option" where
  "first_tilt [] = None"
| "first_tilt (d # ds) =
     (case bd_data d of
        Some mem \<Rightarrow>
          if bd_type d = 0xFF \<and> 25 \<le> uint (bd_data_len d) \<and> take 20 mem = TILT_BLACK_PREFIX
          then Some (tilt_temp mem, tilt_gravity mem) else first_tilt ds
      | None \<Rightarrow> first_tilt ds)"

lemma visit_ad_parse:
  assumes "\<forall>d \<in> set ds. \<exists>mem. bd_data d = Some mem \<and> in_bounds mem (bd_data_len d)"
  shows "visit_elems (ad_parse_cb now) ds (s, cs) =
    Inr (case first_tilt ds of
           None \<Rightarrow> (s, cs)
         | Some r \<Rightarrow> (store_sample now r s, cs @ [Work_submit StopWork]))"
  using assms
proof (induction ds)
  case Nil
  then show ?case by simp
next
  case (Cons d ds)
  then obtain mem where m: "bd_data d = Some mem" "in_bounds mem (bd_data_len d)" by auto
  from Cons m show ?case
    by (auto simp: ad_parse_cb_def BT_DATA_MANUFACTURER_DATA_def tilt_black_decode_eq)
qed

lemma observer_frames:
  "s_tilt (fst (start_work_handler err now s)) = s_tilt s"
  "s_tilt (fst (burst_stop err s)) = s_tilt s"
  "s_enabled (fst (start_work_handler err now s)) = s_enabled s"
  "s_enabled (fst (burst_stop err s)) = s_enabled s"
  "s_scan_active (store_sample now r s) = s_scan_active s"
  "s_burst_start_ms (store_sample now r s) = s_burst_start_ms s"
  "s_enabled (store_sample now r s) = s_enabled s"
  "s_scan_active (fst (observer_enable b s)) = s_scan_active s"
  "s_burst_start_ms (fst (observer_enable b s)) = s_burst_start_ms s"
  "s_tilt (fst (observer_enable b s)) = s_tilt s"
  "fst (observer_trigger s) = s"
  by (auto simp: obs_defs Let_def)

lemma burst_stop_inactive: "\<not> s_scan_active (fst (burst_stop err s))"
  by (simp add: burst_stop_def Let_def)

lemma burst_stop_idem: "burst_stop e2 (fst (burst_stop e1 s)) = (fst (burst_stop e1 s), [])"
  by (simp add: burst_stop_def Let_def)

section \<open>Properties\<close>

text \<open>C26. Under the documented contract of \<open>bt_data_parse\<close>, the scan callback never faults; it
  stores the first element that is a Black Tilt manufacturer record and submits exactly one stop,
  and leaves state and queue alone when no element decodes.\<close>

theorem scan_cb_correct:
  assumes "bt_data_parse_contract parse elems"
  shows "scan_cb parse now ad s =
    Inr (case first_tilt (elems ad) of
           None \<Rightarrow> (s, [])
         | Some r \<Rightarrow> (store_sample now r s, [Work_submit StopWork]))"
  using assms
  by (auto simp: scan_cb_def bt_data_parse_contract_def visit_ad_parse split: option.split)

definition demo_elems :: "u8 list \<Rightarrow> bt_data list" where
  "demo_elems bs =
     (if 25 \<le> length bs
      then [\<lparr>bd_type = 0x09, bd_data_len = 2, bd_data = Some bs\<rparr>,
            \<lparr>bd_type = 0xFF, bd_data_len = 25, bd_data = Some bs\<rparr>] else [])"

theorem scan_cb_correct_witness:
  "scan_cb (\<lambda>bs f st. visit_elems f (demo_elems bs) st) 7 (tilt_advert 68 1012 [0xC5])
     (observer_boot :: unit observer)
   = Inr (store_sample 7 (2000, 1012) observer_boot, [Work_submit StopWork])"
proof -
  have c: "bt_data_parse_contract (\<lambda>bs f (st :: unit rx). visit_elems f (demo_elems bs) st) demo_elems"
    by (auto simp: bt_data_parse_contract_def demo_elems_def in_bounds_def)
  have t: "ucast (tilt_clamp (tilt_centi 68)) = (2000 :: i16)"
    by (simp add: tilt_centi_def tilt_clamp_def i32_div_def signed_divide_int_def)
  show ?thesis
    unfolding scan_cb_correct [OF c]
    by (simp add: demo_elems_def tilt_advert_bytes tilt_advert_values t)
qed

text \<open>Freshness: whatever samples were stored, a read at uptime \<open>now\<close> gives the last one if it
  is at most ten minutes old and nothing otherwise; the 64-bit age never wraps. At boot there is
  nothing to read.\<close>

theorem sample_freshness:
  fixes s :: "'cb observer"
  assumes "xs \<noteq> []" "0 \<le> sint (fst (last xs))" "sint (fst (last xs)) \<le> sint now"
  shows "tilt_reading now (fold (\<lambda>(t, v). store_sample t v) xs s) =
      (if sint now - sint (fst (last xs)) \<le> 600000 then Some (snd (last xs)) else None) \<and>
    tilt_reading now (observer_boot :: 'cb observer) = None"
proof -
  have "tilt_reading now (observer_boot :: 'cb observer) = None"
    by (simp add: tilt_reading_eq observer_boot_def)
  then show ?thesis
    using obs_cache.get_history [OF assms, of s] by (simp add: SAMPLE_MAX_AGE_MS_def)
qed

theorem sample_freshness_witness:
  "tilt_reading 700000 (fold (\<lambda>(t, v). store_sample t v)
      [(5, (2000, 1050)), (100000, (1990, 1048))] (observer_boot :: unit observer))
   = Some (1990, 1048)"
  by (subst sample_freshness [THEN conjunct1]) simp_all

text \<open>The out-parameters of \<open>observer_get_tilt\<close>: a stale or missing sample leaves both pointees
  unchanged and returns false; a fresh one is written through exactly the non-NULL pointers.\<close>

lemma get_tilt_outputs:
  "observer_get_tilt now t g s =
     (case tilt_reading now s of
        None \<Rightarrow> (False, t, g)
      | Some (tv, gv) \<Rightarrow> (True, map_option (\<lambda>_. tv) t, map_option (\<lambda>_. gv) g))"
  by (simp add: tilt_reading_eq observer_get_tilt_def Let_def)

text \<open>State ownership: the scan state is written by the work handlers only, the sample by the
  advertisement callback only, the gate by \<open>observer_enable\<close> only, and the trigger writes nothing.\<close>

theorem state_ownership:
  "s_tilt (fst (start_work_handler err now s)) = s_tilt s \<and>
   s_tilt (fst (stop_work_handler err s)) = s_tilt s \<and>
   s_tilt (fst (timeout_work_handler err s)) = s_tilt s \<and>
   s_enabled (fst (start_work_handler err now s)) = s_enabled s \<and>
   s_enabled (fst (stop_work_handler err s)) = s_enabled s \<and>
   s_enabled (fst (timeout_work_handler err s)) = s_enabled s \<and>
   (s_scan_active (store_sample now r s), s_burst_start_ms (store_sample now r s),
    s_enabled (store_sample now r s)) = (s_scan_active s, s_burst_start_ms s, s_enabled s) \<and>
   (s_scan_active (fst (observer_enable b s)), s_burst_start_ms (fst (observer_enable b s)),
    s_tilt (fst (observer_enable b s))) = (s_scan_active s, s_burst_start_ms s, s_tilt s) \<and>
   fst (observer_trigger s) = s"
  by (simp add: observer_frames stop_work_handler_def timeout_work_handler_def)

text \<open>One burst, handlers run one after the other: from an enabled, idle observer with a
  registered callback, a start at \<open>t0\<close>, an advert at a later \<open>t1\<close> and the stop it submitted end
  the scan, cancel the timeout and call the callback exactly once; a timeout or a second stop after
  it does nothing. If instead the timeout ends the burst and the last sample is older than the
  burst, the callback is not called.\<close>

lemma burst_cycle:
  assumes "gate_enabled s" "\<not> s_scan_active s" "s_sample_cb s = Some cb" "sint t0 \<le> sint t1"
  shows "let s1 = fst (start_work_handler E_OK t0 s);
             stopped = stop_work_handler err (store_sample t1 r s1)
         in snd (start_work_handler E_OK t0 s)
              = [Scan_start burst_scan_param, Work_schedule TimeoutWork 5000] \<and>
            \<not> s_scan_active (fst stopped) \<and>
            snd stopped = [Work_cancel TimeoutWork, Scan_stop] @ stop_warning err @ [Sample_cb cb] \<and>
            snd (timeout_work_handler err2 (fst stopped)) = [] \<and>
            snd (stop_work_handler err2 (fst stopped)) = [] \<and>
            (sint (timestamp_ms (s_tilt s)) < sint t0 \<longrightarrow>
               snd (timeout_work_handler err s1)
                 = [Work_cancel TimeoutWork, Scan_stop] @ stop_warning err)"
  using assms
  by (auto simp: start_work_handler_def stop_work_handler_def timeout_work_handler_def
      burst_stop_def burst_captured_def store_sample_def gate_enabled_def BURST_TIMEOUT_def Let_def)

end
