(* ===== verification/Observer_Concurrency.thy ===== *)
theory Observer_Concurrency
  imports Observer
begin

text \<open>
  The observer's three threads interleaved: the Zephyr system workqueue (the start, stop and
  timeout handlers), the Bluetooth receive thread (the advertisement callback) and the Matter
  thread (\<open>observer_enable\<close>, \<open>observer_trigger\<close>). Each rule of \<open>obs_step\<close> is one action that
  touches shared state or calls the kernel; between two of them any thread may run. The handlers of
  \<open>Observer\<close> are runs of these actions without interruption (\<open>start_handler_run\<close>,
  \<open>stop_handler_run\<close>, \<open>matter_calls_run\<close>).

  Zephyr and the Bluetooth host are not modelled. The parameter \<open>pick\<close> says which submitted work
  item the workqueue may run next, \<open>bt_start\<close> which codes \<open>bt_le_scan_start\<close> may return; the other
  results are arbitrary. The fields \<open>queue\<close>, \<open>timer\<close>, \<open>hw_scan\<close>, \<open>stop_failed\<close>, \<open>calls\<close> and
  \<open>adverts\<close> are history: what was submitted and not yet begun, the deadline asked for and not yet
  expired or cancelled, whether the last successful start of the scanner was followed by a stop that
  succeeded, whether a stop ever failed, the calls made, and the advertising elements whose decoded
  sample was stored with the uptime of the store, both latest first.
\<close>

section \<open>State\<close>

datatype wq_pc = WIdle | WStarting | WCommit | WStopping | WCheck | WNotify
datatype rx_pc = RIdle | RSubmit
datatype mt_pc = MIdle | MDisable | MTrigger

record 'cb sys =
  obs :: "'cb observer"
  wq :: wq_pc
  rx :: rx_pc
  mt :: mt_pc
  queue :: "work list"
  timer :: "int option"
  clock :: int
  hw_scan :: bool
  stop_failed :: bool
  calls :: "'cb api_call list"
  adverts :: "(int \<times> u8 list option \<times> u8) list"

definition uptime :: "'cb sys \<Rightarrow> i64" where
  "uptime s = word_of_int (clock s)"

text \<open>Submitting an item that is already pending changes nothing; scheduling one that is pending or
  already scheduled changes nothing.\<close>

definition note_submit :: "work \<Rightarrow> work list \<Rightarrow> work list" where
  "note_submit w q = (if w \<in> set q then q else q @ [w])"

definition note_schedule :: "int \<Rightarrow> work list \<Rightarrow> int option \<Rightarrow> int option" where
  "note_schedule d q t = (if t \<noteq> None then t else if TimeoutWork \<in> set q then None else Some d)"

definition is_error :: "bt_err \<Rightarrow> bool" where
  "is_error err \<longleftrightarrow> err \<noteq> E_OK \<and> err \<noteq> E_ALREADY"

lemma set_note_submit [simp]: "set (note_submit w q) = insert w (set q)"
  by (auto simp: note_submit_def)

lemma distinct_note_submit [simp]: "distinct q \<Longrightarrow> distinct (note_submit w q)"
  by (simp add: note_submit_def)

section \<open>Steps\<close>

inductive obs_step ::
  "(work list \<Rightarrow> work \<Rightarrow> bool) \<Rightarrow> (bool \<Rightarrow> bt_err \<Rightarrow> bool) \<Rightarrow> 'cb sys \<Rightarrow> 'cb sys \<Rightarrow> bool"
  for pick bt_start where
  tick: "clock s \<le> c \<Longrightarrow> c < 2 ^ 63 \<Longrightarrow> obs_step pick bt_start s (s\<lparr>clock := c\<rparr>)"
| timer_expiry: "timer s = Some d \<Longrightarrow> d \<le> clock s \<Longrightarrow>
    obs_step pick bt_start s
      (s\<lparr>timer := None, queue := note_submit TimeoutWork (queue s)\<rparr>)"
| start_skip: "wq s = WIdle \<Longrightarrow> pick (queue s) StartWork \<Longrightarrow>
    s_enabled (obs s) = 0 \<or> s_scan_active (obs s) \<Longrightarrow>
    obs_step pick bt_start s (s\<lparr>queue := removeAll StartWork (queue s)\<rparr>)"
| start_go: "wq s = WIdle \<Longrightarrow> pick (queue s) StartWork \<Longrightarrow>
    s_enabled (obs s) \<noteq> 0 \<Longrightarrow> \<not> s_scan_active (obs s) \<Longrightarrow>
    obs_step pick bt_start s
      (s\<lparr>queue := removeAll StartWork (queue s), wq := WStarting\<rparr>)"
| start_fails: "wq s = WStarting \<Longrightarrow> bt_start (hw_scan s) err \<Longrightarrow> err \<noteq> E_OK \<Longrightarrow>
    obs_step pick bt_start s
      (s\<lparr>wq := WIdle,
         calls := [Log_wrn ''burst start failed'' (Some err), Scan_start burst_scan_param] @ calls s\<rparr>)"
| start_succeeds: "wq s = WStarting \<Longrightarrow> bt_start (hw_scan s) E_OK \<Longrightarrow>
    obs_step pick bt_start s
      (s\<lparr>wq := WCommit, hw_scan := True, calls := Scan_start burst_scan_param # calls s\<rparr>)"
| start_commit: "wq s = WCommit \<Longrightarrow>
    obs_step pick bt_start s
      (s\<lparr>wq := WIdle,
         obs := (obs s)\<lparr>s_scan_active := True, s_burst_start_ms := uptime s\<rparr>,
         timer := note_schedule (clock s + BURST_TIMEOUT) (queue s) (timer s),
         calls := Work_schedule TimeoutWork BURST_TIMEOUT # calls s\<rparr>)"
| stop_skip: "wq s = WIdle \<Longrightarrow> w = StopWork \<or> w = TimeoutWork \<Longrightarrow> pick (queue s) w \<Longrightarrow>
    \<not> s_scan_active (obs s) \<Longrightarrow>
    obs_step pick bt_start s (s\<lparr>queue := removeAll w (queue s)\<rparr>)"
| stop_go: "wq s = WIdle \<Longrightarrow> w = StopWork \<or> w = TimeoutWork \<Longrightarrow> pick (queue s) w \<Longrightarrow>
    s_scan_active (obs s) \<Longrightarrow>
    obs_step pick bt_start s
      (s\<lparr>queue := removeAll TimeoutWork (removeAll w (queue s)), timer := None, wq := WStopping,
         obs := (obs s)\<lparr>s_scan_active := False\<rparr>,
         calls := Work_cancel TimeoutWork # calls s\<rparr>)"
| stop_done: "wq s = WStopping \<Longrightarrow>
    obs_step pick bt_start s
      (s\<lparr>wq := WCheck, hw_scan := (hw_scan s \<and> is_error err),
         stop_failed := (stop_failed s \<or> is_error err),
         calls := stop_warning err @ [Scan_stop] @ calls s\<rparr>)"
| stop_check: "wq s = WCheck \<Longrightarrow>
    obs_step pick bt_start s
      (s\<lparr>wq := (if burst_captured (obs s) \<and> s_sample_cb (obs s) \<noteq> None
                then WNotify else WIdle)\<rparr>)"
| stop_notify: "wq s = WNotify \<Longrightarrow> s_sample_cb (obs s) = Some cb \<Longrightarrow>
    obs_step pick bt_start s (s\<lparr>wq := WIdle, calls := Sample_cb cb # calls s\<rparr>)"
| rx_store: "rx s = RIdle \<Longrightarrow> tilt_black_decode mfg len = Inr (Some r) \<Longrightarrow>
    obs_step pick bt_start s
      (s\<lparr>rx := RSubmit, obs := store_sample (uptime s) r (obs s),
         adverts := (clock s, mfg, len) # adverts s\<rparr>)"
| rx_submit: "rx s = RSubmit \<Longrightarrow>
    obs_step pick bt_start s
      (s\<lparr>rx := RIdle, queue := note_submit StopWork (queue s),
         calls := Work_submit StopWork # calls s\<rparr>)"
| mt_enable: "mt s = MIdle \<Longrightarrow>
    obs_step pick bt_start s
      (s\<lparr>obs := fst (observer_enable b (obs s)), mt := (if b then MIdle else MDisable),
         calls := (if b then [Log_inf ''Tilt observer enabled''] else []) @ calls s\<rparr>)"
| mt_disable: "mt s = MDisable \<Longrightarrow>
    obs_step pick bt_start s
      (s\<lparr>mt := MIdle, queue := note_submit StopWork (queue s),
         calls := [Log_inf ''Tilt observer disabled'', Work_submit StopWork] @ calls s\<rparr>)"
| mt_trigger: "mt s = MIdle \<Longrightarrow>
    obs_step pick bt_start s (s\<lparr>mt := (if s_enabled (obs s) = 0 then MIdle else MTrigger)\<rparr>)"
| mt_trigger_submit: "mt s = MTrigger \<Longrightarrow>
    obs_step pick bt_start s
      (s\<lparr>mt := MIdle, queue := note_submit StartWork (queue s),
         calls := Work_submit StartWork # calls s\<rparr>)"

inductive_cases obs_stepE: "obs_step pick bt_start s t"

text \<open>The start: \<open>observer_init\<close> has registered the callback, nothing is pending.\<close>

definition sys_init :: "'cb option \<Rightarrow> 'cb sys" where
  "sys_init cb =
     \<lparr>obs = fst (observer_init E_ALREADY cb observer_boot), wq = WIdle, rx = RIdle, mt = MIdle,
      queue = [], timer = None, clock = 0, hw_scan = False, stop_failed = False, calls = [], adverts = []\<rparr>"

inductive obs_reach ::
  "(work list \<Rightarrow> work \<Rightarrow> bool) \<Rightarrow> (bool \<Rightarrow> bt_err \<Rightarrow> bool) \<Rightarrow> 'cb option \<Rightarrow> 'cb sys \<Rightarrow> bool"
  for pick bt_start cb where
  reach_init: "obs_reach pick bt_start cb (sys_init cb)"
| reach_step: "obs_reach pick bt_start cb s \<Longrightarrow> obs_step pick bt_start s t \<Longrightarrow>
    obs_reach pick bt_start cb t"

section \<open>Invariants\<close>

definition inv_active :: "'cb sys \<Rightarrow> bool" where
  "inv_active s \<longleftrightarrow> (s_scan_active (obs s) \<longrightarrow> wq s = WIdle)"

definition inv_hw :: "'cb sys \<Rightarrow> bool" where
  "inv_hw s \<longleftrightarrow>
     (s_scan_active (obs s) \<or> wq s = WCommit \<or> wq s = WStopping \<longrightarrow> hw_scan s) \<and>
     (hw_scan s \<and> \<not> stop_failed s \<longrightarrow>
        s_scan_active (obs s) \<or> wq s = WCommit \<or> wq s = WStopping)"

definition inv_timer :: "'cb sys \<Rightarrow> bool" where
  "inv_timer s \<longleftrightarrow>
     (s_scan_active (obs s) \<longleftrightarrow> timer s \<noteq> None \<or> TimeoutWork \<in> set (queue s))"

definition inv_clock :: "'cb sys \<Rightarrow> bool" where
  "inv_clock s \<longleftrightarrow>
     0 \<le> clock s \<and> clock s < 2 ^ 63 \<and>
     0 \<le> sint (s_burst_start_ms (obs s)) \<and> sint (s_burst_start_ms (obs s)) \<le> clock s \<and>
     0 \<le> sint (timestamp_ms (s_tilt (obs s))) \<and> sint (timestamp_ms (s_tilt (obs s))) \<le> clock s \<and>
     (\<forall>d. timer s = Some d \<longrightarrow> d = sint (s_burst_start_ms (obs s)) + BURST_TIMEOUT)"

definition inv_gate :: "'cb sys \<Rightarrow> bool" where
  "inv_gate s \<longleftrightarrow>
     (s_enabled (obs s) = 0 \<and> (s_scan_active (obs s) \<or> wq s = WStarting \<or> wq s = WCommit) \<longrightarrow>
        StopWork \<in> set (queue s) \<or> mt s = MDisable)"

definition inv_sample :: "'cb sys \<Rightarrow> bool" where
  "inv_sample s \<longleftrightarrow>
     (valid (s_tilt (obs s)) \<longrightarrow>
        (\<exists>mfg len. (sint (timestamp_ms (s_tilt (obs s))), mfg, len) \<in> set (adverts s) \<and>
           tilt_black_decode mfg len =
             Inr (Some (temp_centi_c (s_tilt (obs s)), gravity_x1000 (s_tilt (obs s)))))) \<and>
     (wq s = WNotify \<longrightarrow> burst_captured (obs s) \<and> s_sample_cb (obs s) \<noteq> None)"

lemmas inv_defs = inv_active_def inv_hw_def inv_timer_def inv_clock_def inv_gate_def inv_sample_def

lemma step_inv_active: "obs_step pick bt_start s t \<Longrightarrow> inv_active s \<Longrightarrow> inv_active t"
  by (erule obs_step.cases) (auto simp: inv_active_def observer_frames)

lemma step_inv_hw:
  "obs_step pick bt_start s t \<Longrightarrow> inv_active s \<Longrightarrow> inv_hw s \<Longrightarrow> inv_hw t"
  by (erule obs_step.cases) (auto simp: inv_hw_def inv_active_def observer_frames)

lemma step_inv_timer:
  "obs_step pick bt_start s t \<Longrightarrow> inv_active s \<Longrightarrow> inv_timer s \<Longrightarrow> inv_timer t"
  by (erule obs_step.cases)
    (auto simp: inv_timer_def inv_active_def observer_frames note_schedule_def)

lemma step_inv_gate:
  "obs_step pick bt_start s t \<Longrightarrow> inv_active s \<Longrightarrow> inv_gate s \<Longrightarrow> inv_gate t"
  by (erule obs_step.cases)
    (auto simp: inv_gate_def inv_active_def observer_frames observer_enable_def)

lemma sint_uptime: "0 \<le> clock s \<Longrightarrow> clock s < 2 ^ 63 \<Longrightarrow> sint (uptime s) = clock s"
  by (simp add: uptime_def sint_of_int_fits64)

lemma step_inv_clock:
  "obs_step pick bt_start s t \<Longrightarrow> inv_active s \<Longrightarrow> inv_timer s \<Longrightarrow> inv_clock s \<Longrightarrow> inv_clock t"
  by (erule obs_step.cases)
    (auto simp: inv_clock_def observer_frames sint_uptime note_schedule_def store_sample_def
      observer_enable_def inv_timer_def inv_active_def split: if_splits)

lemma step_inv_sample:
  "obs_step pick bt_start s t \<Longrightarrow> inv_clock s \<Longrightarrow> inv_sample s \<Longrightarrow> inv_sample t"
  by (erule obs_step.cases)
    (auto simp: inv_sample_def observer_frames burst_captured_def inv_clock_def
      observer_enable_def store_sample_def sint_uptime)

definition obs_inv :: "'cb sys \<Rightarrow> bool" where
  "obs_inv s \<longleftrightarrow>
     inv_active s \<and> inv_hw s \<and> inv_timer s \<and> inv_clock s \<and> inv_gate s \<and> inv_sample s"

interpretation obs_inv: step_invariant "obs_step pick bt_start" obs_inv
  by unfold_locales
    (auto simp: obs_inv_def intro: step_inv_active step_inv_hw step_inv_timer step_inv_clock
      step_inv_gate step_inv_sample)

lemma obs_inv_init: "obs_inv (sys_init cb)"
  by (simp add: obs_inv_def inv_defs sys_init_def observer_init_def observer_boot_def)

lemma obs_reach_iff_steps:
  "obs_reach pick bt_start cb s \<longleftrightarrow> (obs_step pick bt_start)\<^sup>*\<^sup>* (sys_init cb) s"
proof
  assume "obs_reach pick bt_start cb s"
  then show "(obs_step pick bt_start)\<^sup>*\<^sup>* (sys_init cb) s"
    by (induction rule: obs_reach.induct) auto
next
  assume "(obs_step pick bt_start)\<^sup>*\<^sup>* (sys_init cb) s"
  then show "obs_reach pick bt_start cb s"
    by (induction rule: rtranclp_induct) (auto intro: reach_init reach_step)
qed

lemma reach_obs_inv: "obs_reach pick bt_start cb s \<Longrightarrow> obs_inv s"
  by (rule obs_inv.steps_keep [OF _ obs_inv_init]) (simp add: obs_reach_iff_steps)

lemmas reach_invs = reach_obs_inv [unfolded obs_inv_def]

section \<open>Executable steps\<close>

text \<open>The same steps as a function of the action taken, to run concrete schedules.\<close>

datatype action =
    A_tick int | A_expiry | A_run work | A_scan_start bt_err | A_commit | A_scan_stop bt_err
  | A_check | A_notify | A_store "u8 list option" u8 | A_rx_submit
  | A_enable bool | A_disable | A_trigger | A_trigger_submit

definition run_handler :: "work \<Rightarrow> 'cb sys \<Rightarrow> 'cb sys" where
  "run_handler w s =
     (let q = removeAll w (queue s) in
      if w = StartWork
      then (if s_enabled (obs s) = 0 \<or> s_scan_active (obs s) then s\<lparr>queue := q\<rparr>
            else s\<lparr>queue := q, wq := WStarting\<rparr>)
      else (if \<not> s_scan_active (obs s) then s\<lparr>queue := q\<rparr>
            else s\<lparr>queue := removeAll TimeoutWork q, timer := None, wq := WStopping,
                   obs := (obs s)\<lparr>s_scan_active := False\<rparr>,
                   calls := Work_cancel TimeoutWork # calls s\<rparr>))"

definition commit_start :: "'cb sys \<Rightarrow> 'cb sys" where
  "commit_start s =
     s\<lparr>wq := WIdle, obs := (obs s)\<lparr>s_scan_active := True, s_burst_start_ms := uptime s\<rparr>,
       timer := note_schedule (clock s + BURST_TIMEOUT) (queue s) (timer s),
       calls := Work_schedule TimeoutWork BURST_TIMEOUT # calls s\<rparr>"

definition submit_from :: "work \<Rightarrow> 'cb sys \<Rightarrow> 'cb sys" where
  "submit_from w s = s\<lparr>queue := note_submit w (queue s), calls := Work_submit w # calls s\<rparr>"

definition guarded :: "bool \<Rightarrow> 'a \<Rightarrow> 'a option" where
  "guarded b x = (if b then Some x else None)"

lemma guarded_Some [simp]: "guarded b x = Some y \<longleftrightarrow> b \<and> x = y"
  by (simp add: guarded_def)

lemma guarded_True [simp]: "guarded True x = Some x"
  by (simp add: guarded_def)

fun exec_action ::
  "(work list \<Rightarrow> work \<Rightarrow> bool) \<Rightarrow> (bool \<Rightarrow> bt_err \<Rightarrow> bool) \<Rightarrow> action \<Rightarrow> 'cb sys \<Rightarrow> 'cb sys option"
where
  "exec_action pick bts (A_tick c) s = guarded (clock s \<le> c \<and> c < 2 ^ 63) (s\<lparr>clock := c\<rparr>)"
| "exec_action pick bts A_expiry s =
     (case timer s of
        None \<Rightarrow> None
      | Some d \<Rightarrow> guarded (d \<le> clock s)
          (s\<lparr>timer := None, queue := note_submit TimeoutWork (queue s)\<rparr>))"
| "exec_action pick bts (A_run w) s =
     guarded (wq s = WIdle \<and> pick (queue s) w) (run_handler w s)"
| "exec_action pick bts (A_scan_start err) s =
     guarded (wq s = WStarting \<and> bts (hw_scan s) err)
       (if err = E_OK
        then s\<lparr>wq := WCommit, hw_scan := True, calls := Scan_start burst_scan_param # calls s\<rparr>
        else s\<lparr>wq := WIdle,
               calls := [Log_wrn ''burst start failed'' (Some err),
                         Scan_start burst_scan_param] @ calls s\<rparr>)"
| "exec_action pick bts A_commit s = guarded (wq s = WCommit) (commit_start s)"
| "exec_action pick bts (A_scan_stop err) s =
     guarded (wq s = WStopping)
       (s\<lparr>wq := WCheck, hw_scan := (hw_scan s \<and> is_error err),
          stop_failed := (stop_failed s \<or> is_error err),
          calls := stop_warning err @ [Scan_stop] @ calls s\<rparr>)"
| "exec_action pick bts A_check s =
     guarded (wq s = WCheck)
       (s\<lparr>wq := (if burst_captured (obs s) \<and> s_sample_cb (obs s) \<noteq> None
                 then WNotify else WIdle)\<rparr>)"
| "exec_action pick bts A_notify s =
     (case s_sample_cb (obs s) of
        None \<Rightarrow> None
      | Some cb \<Rightarrow> guarded (wq s = WNotify) (s\<lparr>wq := WIdle, calls := Sample_cb cb # calls s\<rparr>))"
| "exec_action pick bts (A_store mfg len) s =
     (case tilt_black_decode mfg len of
        Inr (Some r) \<Rightarrow>
          guarded (rx s = RIdle)
            (s\<lparr>rx := RSubmit, obs := store_sample (uptime s) r (obs s),
               adverts := (clock s, mfg, len) # adverts s\<rparr>)
      | _ \<Rightarrow> None)"
| "exec_action pick bts A_rx_submit s =
     guarded (rx s = RSubmit) (submit_from StopWork (s\<lparr>rx := RIdle\<rparr>))"
| "exec_action pick bts (A_enable b) s =
     guarded (mt s = MIdle)
       (s\<lparr>obs := fst (observer_enable b (obs s)), mt := (if b then MIdle else MDisable),
          calls := (if b then [Log_inf ''Tilt observer enabled''] else []) @ calls s\<rparr>)"
| "exec_action pick bts A_disable s =
     guarded (mt s = MDisable)
       (s\<lparr>mt := MIdle, queue := note_submit StopWork (queue s),
          calls := [Log_inf ''Tilt observer disabled'', Work_submit StopWork] @ calls s\<rparr>)"
| "exec_action pick bts A_trigger s =
     guarded (mt s = MIdle) (s\<lparr>mt := (if s_enabled (obs s) = 0 then MIdle else MTrigger)\<rparr>)"
| "exec_action pick bts A_trigger_submit s =
     guarded (mt s = MTrigger) (submit_from StartWork (s\<lparr>mt := MIdle\<rparr>))"

fun exec_actions ::
  "(work list \<Rightarrow> work \<Rightarrow> bool) \<Rightarrow> (bool \<Rightarrow> bt_err \<Rightarrow> bool) \<Rightarrow> action list \<Rightarrow> 'cb sys \<Rightarrow> 'cb sys option"
where
  "exec_actions pick bts [] s = Some s"
| "exec_actions pick bts (a # as) s =
     (case exec_action pick bts a s of None \<Rightarrow> None | Some t \<Rightarrow> exec_actions pick bts as t)"

lemma run_handler_sound:
  assumes "wq s = WIdle" "pick (queue s) w"
  shows "obs_step pick bts s (run_handler w s)"
proof (cases w)
  case StartWork
  with assms show ?thesis
    by (auto simp: run_handler_def Let_def intro: obs_step.start_skip obs_step.start_go)
next
  case StopWork
  with assms show ?thesis
    by (auto simp: run_handler_def Let_def intro: obs_step.stop_skip obs_step.stop_go)
next
  case TimeoutWork
  with assms show ?thesis
    using obs_step.stop_go [of s TimeoutWork pick bts]
    by (auto simp: run_handler_def Let_def intro: obs_step.stop_skip)
qed

lemma exec_action_sound:
  assumes "exec_action pick bts a s = Some t"
  shows "obs_step pick bts s t"
proof (cases a)
  case (A_tick c)
  with assms show ?thesis using obs_step.tick [of s c pick bts]
    by simp
next
  case A_expiry
  with assms show ?thesis using obs_step.timer_expiry [of s _ pick bts]
    by (auto split: option.splits)
next
  case (A_run w)
  with assms show ?thesis using run_handler_sound [of s pick w bts]
    by simp
next
  case (A_scan_start err)
  with assms show ?thesis using obs_step.start_fails [of s bts err pick] obs_step.start_succeeds [of s bts pick]
    by (auto split: if_splits)
next
  case A_commit
  with assms show ?thesis using obs_step.start_commit [of s pick bts]
    by (simp add: commit_start_def)
next
  case (A_scan_stop err)
  with assms show ?thesis using obs_step.stop_done [of s pick bts err]
    by auto
next
  case A_check
  with assms show ?thesis using obs_step.stop_check [of s pick bts]
    by (auto simp del: if_split)
next
  case A_notify
  with assms show ?thesis using obs_step.stop_notify [of s _ pick bts]
    by (auto split: option.splits)
next
  case (A_store mfg len)
  with assms show ?thesis using obs_step.rx_store [of s mfg len _ pick bts]
    by (auto split: option.splits sum.splits)
next
  case A_rx_submit
  with assms show ?thesis using obs_step.rx_submit [of s pick bts]
    by (simp add: submit_from_def)
next
  case (A_enable b)
  with assms show ?thesis using obs_step.mt_enable [of s pick bts b]
    by (simp del: if_split)
next
  case A_disable
  with assms show ?thesis using obs_step.mt_disable [of s pick bts]
    by (simp add: submit_from_def)
next
  case A_trigger
  with assms show ?thesis using obs_step.mt_trigger [of s pick bts]
    by (simp del: if_split)
next
  case A_trigger_submit
  with assms show ?thesis using obs_step.mt_trigger_submit [of s pick bts]
    by (simp add: submit_from_def)
qed

lemma obs_step_exec: "obs_step pick bts s t \<Longrightarrow> \<exists>a. exec_action pick bts a s = Some t"
proof (induction rule: obs_step.cases)
  case (tick s c)
  then show ?case by (intro exI [of _ "A_tick c"]) simp
next
  case (timer_expiry s d)
  then show ?case by (intro exI [of _ A_expiry]) simp
next
  case (start_skip s)
  then show ?case by (intro exI [of _ "A_run StartWork"]) (auto simp: run_handler_def)
next
  case (start_go s)
  then show ?case by (intro exI [of _ "A_run StartWork"]) (simp add: run_handler_def)
next
  case (start_fails s err)
  then show ?case by (intro exI [of _ "A_scan_start err"]) simp
next
  case (start_succeeds s)
  then show ?case by (intro exI [of _ "A_scan_start E_OK"]) simp
next
  case (start_commit s)
  then show ?case by (intro exI [of _ A_commit]) (simp add: commit_start_def)
next
  case (stop_skip s w)
  then show ?case by (intro exI [of _ "A_run w"]) (auto simp: run_handler_def)
next
  case (stop_go s w)
  then show ?case by (intro exI [of _ "A_run w"]) (auto simp: run_handler_def)
next
  case (stop_done s err)
  then show ?case by (intro exI [of _ "A_scan_stop err"]) simp
next
  case (stop_check s)
  then show ?case by (intro exI [of _ A_check]) simp
next
  case (stop_notify s cb)
  then show ?case by (intro exI [of _ A_notify]) simp
next
  case (rx_store s mfg len r)
  then show ?case by (intro exI [of _ "A_store mfg len"]) simp
next
  case (rx_submit s)
  then show ?case by (intro exI [of _ A_rx_submit]) (simp add: submit_from_def)
next
  case (mt_enable s b)
  then show ?case by (intro exI [of _ "A_enable b"]) simp
next
  case (mt_disable s)
  then show ?case by (intro exI [of _ A_disable]) (simp add: submit_from_def)
next
  case (mt_trigger s)
  then show ?case by (intro exI [of _ A_trigger]) simp
next
  case (mt_trigger_submit s)
  then show ?case by (intro exI [of _ A_trigger_submit]) (simp add: submit_from_def)
qed

lemma exec_actions_reach:
  "exec_actions pick bts as s = Some t \<Longrightarrow> obs_reach pick bts cb s \<Longrightarrow> obs_reach pick bts cb t"
proof (induction as arbitrary: s)
  case Nil
  then show ?case by simp
next
  case (Cons a as)
  then obtain u where "exec_action pick bts a s = Some u" "exec_actions pick bts as u = Some t"
    by (auto split: option.splits)
  with Cons show ?case by (blast intro: reach_step exec_action_sound)
qed

text \<open>Two concrete environments: a first-in first-out workqueue, and a Bluetooth host that refuses
  to start a scan while one is running and otherwise may return any code.\<close>

fun fifo :: "work list \<Rightarrow> work \<Rightarrow> bool" where
  "fifo [] w = False"
| "fifo (v # q) w = (v = w)"

definition bt_host :: "bool \<Rightarrow> bt_err \<Rightarrow> bool" where
  "bt_host scanning err \<longleftrightarrow> (scanning \<longrightarrow> err = E_ALREADY)"

section \<open>Draining the workqueue\<close>

text \<open>The actions of the workqueue thread, and a measure each of them decreases: no handler submits
  work, so without new submissions the thread runs dry.\<close>

fun wq_action :: "action \<Rightarrow> bool" where
  "wq_action (A_run w) = True"
| "wq_action (A_scan_start err) = True"
| "wq_action A_commit = True"
| "wq_action (A_scan_stop err) = True"
| "wq_action A_check = True"
| "wq_action A_notify = True"
| "wq_action _ = False"

fun pc_weight :: "wq_pc \<Rightarrow> nat" where
  "pc_weight WIdle = 0"
| "pc_weight WStarting = 2"
| "pc_weight WCommit = 1"
| "pc_weight WStopping = 3"
| "pc_weight WCheck = 2"
| "pc_weight WNotify = 1"

definition wq_measure :: "'cb sys \<Rightarrow> nat" where
  "wq_measure s = 4 * length (queue s) + pc_weight (wq s)"

definition pick_contract :: "(work list \<Rightarrow> work \<Rightarrow> bool) \<Rightarrow> bool" where
  "pick_contract pick \<longleftrightarrow>
     (\<forall>q w. pick q w \<longrightarrow> w \<in> set q) \<and> (\<forall>q. q \<noteq> [] \<longrightarrow> (\<exists>w. pick q w))"

lemma wq_action_measure:
  assumes "pick_contract pick" "wq_action a" "exec_action pick bts a s = Some t"
  shows "wq_measure t < wq_measure s"
proof (cases a)
  case (A_run w)
  with assms have "w \<in> set (queue s)" by (auto simp: pick_contract_def)
  then have l: "length (removeAll w (queue s)) < length (queue s)"
    by (rule length_removeAll_less)
  then have "length (removeAll TimeoutWork (removeAll w (queue s))) < length (queue s)"
    by (meson le_less_trans length_removeAll_less_eq)
  with l A_run assms show ?thesis
    by (auto simp: wq_measure_def run_handler_def Let_def)
qed (use assms in \<open>auto simp: wq_measure_def commit_start_def split: option.splits\<close>)

lemma wq_action_keeps:
  "wq_action a \<Longrightarrow> exec_action pick bts a s = Some t \<Longrightarrow>
   mt t = mt s \<and> rx t = rx s \<and> s_enabled (obs t) = s_enabled (obs s)"
  by (cases a) (auto simp: run_handler_def Let_def commit_start_def split: option.splits)

lemma wq_actions_keep:
  "list_all wq_action as \<Longrightarrow> exec_actions pick bts as s = Some t \<Longrightarrow>
   mt t = mt s \<and> s_enabled (obs t) = s_enabled (obs s)"
proof (induction as arbitrary: s)
  case (Cons a as)
  then obtain u where u: "exec_action pick bts a s = Some u" "exec_actions pick bts as u = Some t"
    by (auto split: option.splits)
  with Cons.IH [of u] Cons.prems wq_action_keeps [OF _ u(1)] show ?case by simp
qed simp

lemma wq_progress:
  assumes "pick_contract pick" "\<forall>b. \<exists>err. bts b err" "obs_inv s" "wq s \<noteq> WIdle \<or> queue s \<noteq> []"
  shows "\<exists>a t. wq_action a \<and> exec_action pick bts a s = Some t"
proof (cases "wq s")
  case WIdle
  with assms obtain w where "pick (queue s) w" by (auto simp: pick_contract_def)
  with WIdle show ?thesis by (intro exI [of _ "A_run w"]) simp
next
  case WStarting
  from assms(2) obtain err where "bts (hw_scan s) err" by blast
  with WStarting show ?thesis by (intro exI [of _ "A_scan_start err"]) simp
next
  case WCommit
  then show ?thesis by (intro exI [of _ A_commit]) simp
next
  case WStopping
  then show ?thesis by (intro exI [of _ "A_scan_stop E_OK"]) simp
next
  case WCheck
  then show ?thesis by (intro exI [of _ A_check]) simp
next
  case WNotify
  with assms(3) have "s_sample_cb (obs s) \<noteq> None" by (simp add: obs_inv_def inv_sample_def)
  with WNotify show ?thesis by (intro exI [of _ A_notify]) auto
qed

lemma wq_schedule_bounded:
  assumes "pick_contract pick"
  shows "exec_actions pick bts as s = Some t \<Longrightarrow> list_all wq_action as \<Longrightarrow>
    length as + wq_measure t \<le> wq_measure s"
proof (induction as arbitrary: s)
  case (Cons a as)
  then obtain u where u: "exec_action pick bts a s = Some u" "exec_actions pick bts as u = Some t"
    by (auto split: option.splits)
  with Cons have "length as + wq_measure t \<le> wq_measure u" by simp
  moreover have "wq_measure u < wq_measure s"
    using wq_action_measure [OF assms _ u(1)] Cons.prems by simp
  ultimately show ?case by simp
qed simp

lemma wq_drain:
  assumes "pick_contract pick" "\<forall>b. \<exists>err. bts b err"
  shows "obs_inv s \<Longrightarrow> \<exists>as t. list_all wq_action as \<and> exec_actions pick bts as s = Some t \<and>
    wq t = WIdle \<and> queue t = [] \<and> obs_inv t \<and> mt t = mt s \<and>
    s_enabled (obs t) = s_enabled (obs s)"
proof (induction "wq_measure s" arbitrary: s rule: less_induct)
  case less
  show ?case
  proof (cases "wq s = WIdle \<and> queue s = []")
    case True
    then show ?thesis using less.prems by (intro exI [of _ "[]"] exI [of _ s]) simp
  next
    case False
    then obtain a u where a: "wq_action a" "exec_action pick bts a s = Some u"
      using wq_progress [OF assms less.prems] by blast
    have iu: "obs_inv u" using a less.prems by (auto intro: obs_inv.step_keeps exec_action_sound)
    from less.hyps [OF wq_action_measure [OF assms(1) a] iu]
    obtain as t where "list_all wq_action as" "exec_actions pick bts as u = Some t"
      "wq t = WIdle" "queue t = []" "obs_inv t" "mt t = mt u" "s_enabled (obs t) = s_enabled (obs u)"
      by blast
    with a wq_action_keeps [OF a] show ?thesis
      by (intro exI [of _ "a # as"] exI [of _ t]) simp
  qed
qed

section \<open>Handlers as uninterrupted runs\<close>



lemma enable_run:
  "mt s = MIdle \<Longrightarrow>
   \<exists>as t. exec_actions pick bts as s = Some t \<and> mt t = MIdle \<and>
     obs t = fst (observer_enable b (obs s)) \<and>
     calls t = rev (snd (observer_enable b (obs s))) @ calls s"
  by (intro exI [of _ "if b then [A_enable True] else [A_enable False, A_disable]"])
    (cases b; simp add: observer_enable_def)

lemma trigger_run:
  "mt s = MIdle \<Longrightarrow>
   \<exists>as t. exec_actions pick bts as s = Some t \<and> mt t = MIdle \<and>
     obs t = fst (observer_trigger (obs s)) \<and>
     calls t = rev (snd (observer_trigger (obs s))) @ calls s"
  by (intro exI [of _ "if s_enabled (obs s) = 0 then [A_trigger] else [A_trigger, A_trigger_submit]"])
    (cases "s_enabled (obs s) = 0"; simp add: observer_trigger_def submit_from_def)

section \<open>Demonstration data\<close>

definition demo_advert :: "u8 list" where
  "demo_advert = TILT_BLACK_PREFIX @ [0, 68, 3, 244, 0xC5]"

lemma demo_advert_decodes: "tilt_black_decode (Some demo_advert) 25 = Inr (Some (2000, 1012))"
proof -
  have b: "in_bounds demo_advert 25" by (simp add: in_bounds_def demo_advert_def)
  show ?thesis
    unfolding tilt_black_decode_eq [OF b]
    by (simp add: tilt_temp_def tilt_gravity_def nth_append demo_advert_def
        be16_def tilt_centi_def tilt_clamp_def i32_div_def signed_divide_int_def)
qed

lemmas run_simps = 
  sys_init_def observer_init_def observer_boot_def demo_advert_decodes run_handler_def
  commit_start_def submit_from_def note_submit_def note_schedule_def bt_host_def guarded_def
  observer_enable_def store_sample_def uptime_def is_error_def stop_warning_def burst_captured_def BURST_TIMEOUT_def


section \<open>A stop that fails\<close>

definition count_stops :: "'cb sys \<Rightarrow> nat" where
  "count_stops s = length (filter (\<lambda>c. c = Scan_stop) (calls s))"

text \<open>The bursts that began: each schedules its timeout once.\<close>

definition count_bursts :: "'cb sys \<Rightarrow> nat" where
  "count_bursts s = length (filter (\<lambda>c. c = Work_schedule TimeoutWork BURST_TIMEOUT) (calls s))"

text \<open>The scanner runs, but the observer believes it does not.\<close>

definition scan_lost :: "nat \<Rightarrow> 'cb sys \<Rightarrow> bool" where
  "scan_lost n s \<longleftrightarrow>
     hw_scan s \<and> \<not> s_scan_active (obs s) \<and> wq s \<noteq> WCommit \<and> wq s \<noteq> WStopping \<and>
     count_stops s = n"

text \<open>This lasts until a start succeeds, which is the beginning of a burst.\<close>

lemma scan_lost_step:
  assumes "obs_step pick bts s t" "scan_lost n s"
  shows "scan_lost n t \<or> wq t = WCommit"
  using assms
  by (cases rule: obs_step.cases)
    (auto simp: scan_lost_def count_stops_def observer_frames observer_enable_def stop_warning_def)

definition burst_begun :: "nat \<Rightarrow> 'cb sys \<Rightarrow> bool" where
  "burst_begun m s \<longleftrightarrow> wq s = WCommit \<and> m \<le> count_bursts s \<or> m < count_bursts s"

lemma count_bursts_step:
  "obs_step pick bts s t \<Longrightarrow> count_bursts s \<le> count_bursts t \<and>
   (wq s = WCommit \<longrightarrow> wq t = WCommit \<or> count_bursts s < count_bursts t)"
  by (erule obs_step.cases) (auto simp: count_bursts_def)

definition lost_or_begun :: "nat \<Rightarrow> nat \<Rightarrow> 'cb sys \<Rightarrow> bool" where
  "lost_or_begun n m s \<longleftrightarrow> scan_lost n s \<and> m \<le> count_bursts s \<or> burst_begun m s"

interpretation lost: step_invariant "obs_step pick bts" "lost_or_begun n m"
proof
  fix s t assume st: "obs_step pick bts s t" and i: "lost_or_begun n m s"
  from i scan_lost_step [OF st, of n] count_bursts_step [OF st] show "lost_or_begun n m t"
    unfolding lost_or_begun_def burst_begun_def by (meson le_less_trans le_trans less_le_trans)
qed

text \<open>With the gate closed no start is called at all.\<close>

definition closed_step :: "(work list \<Rightarrow> work \<Rightarrow> bool) \<Rightarrow> (bool \<Rightarrow> bt_err \<Rightarrow> bool) \<Rightarrow> 'cb sys \<Rightarrow> 'cb sys \<Rightarrow> bool" where
  "closed_step pick bts s t \<longleftrightarrow> obs_step pick bts s t \<and> \<not> gate_enabled (obs t)"

definition lost_closed :: "nat \<Rightarrow> 'cb sys \<Rightarrow> bool" where
  "lost_closed n s \<longleftrightarrow> scan_lost n s \<and> wq s \<noteq> WStarting \<and> \<not> gate_enabled (obs s)"

interpretation lost_closed: step_invariant "closed_step pick bts" "lost_closed n"
proof
  fix s t assume "closed_step pick bts s t" "lost_closed n s"
  then have "obs_step pick bts s t" "\<not> gate_enabled (obs t)" "lost_closed n s" by (simp_all add: closed_step_def)
  then show "lost_closed n t"
    by (cases rule: obs_step.cases)
      (auto simp: lost_closed_def scan_lost_def count_stops_def gate_enabled_def observer_frames
        observer_enable_def stop_warning_def)
qed

lemma sample_cb_const:
  "obs_reach pick bts cb s \<Longrightarrow> s_sample_cb (obs s) = cb"
proof (induction rule: obs_reach.induct)
  case reach_init
  then show ?case by (simp add: sys_init_def observer_init_def)
next
  case (reach_step s t)
  from reach_step(2,3) show ?case
    by (cases rule: obs_step.cases) (auto simp: observer_enable_def store_sample_def)
qed

definition quiescent :: "'cb sys \<Rightarrow> bool" where
  "quiescent s \<longleftrightarrow> wq s = WIdle \<and> rx s = RIdle \<and> mt s = MIdle \<and> queue s = []"

lemma exec_from_init:
  "exec_actions pick bts as (sys_init cb) = Some s \<Longrightarrow> obs_reach pick bts cb s"
  by (rule exec_actions_reach [OF _ reach_init])

section \<open>Properties\<close>

text \<open>C7. No overlapping bursts: whatever the interleaving, the workqueue and the Bluetooth host
  do, \<open>bt_le_scan_start\<close> is only ever called while no burst is active and no timeout is armed or
  queued, and while the scanner is off unless an earlier \<open>bt_le_scan_stop\<close> failed.\<close>

theorem no_overlapping_bursts:
  assumes "obs_reach pick bt_start cb s" "wq s = WStarting"
  shows "\<not> s_scan_active (obs s) \<and> timer s = None \<and> TimeoutWork \<notin> set (queue s) \<and>
    (stop_failed s \<or> \<not> hw_scan s)"
  using reach_invs [OF assms(1)] assms(2)
  by (auto simp: inv_active_def inv_timer_def inv_hw_def)

theorem no_overlapping_bursts_witness:
  "\<exists>s. exec_actions fifo bt_host [A_enable True, A_trigger, A_trigger_submit, A_run StartWork]
         (sys_init (Some ())) = Some s \<and> wq s = WStarting \<and> timer s = None \<and> \<not> hw_scan s"
proof -
  obtain s where s: "exec_actions fifo bt_host
      [A_enable True, A_trigger, A_trigger_submit, A_run StartWork] (sys_init (Some ())) = Some s"
    and w: "wq s = WStarting" and f: "\<not> stop_failed s"
    by (simp add: run_simps)
  from no_overlapping_bursts [OF exec_from_init [OF s] w] s w f show ?thesis by blast
qed

text \<open>C15. Every active burst is capped: the scanner runs, the workqueue is not inside a handler, and
  either the timeout work is queued or its timer is set to exactly five seconds after the burst
  started.\<close>

theorem burst_always_capped:
  assumes "obs_reach pick bt_start cb s" "s_scan_active (obs s)"
  shows "hw_scan s \<and> wq s = WIdle \<and> sint (s_burst_start_ms (obs s)) \<le> clock s \<and>
    (TimeoutWork \<in> set (queue s) \<or> timer s = Some (sint (s_burst_start_ms (obs s)) + 5000))"
  using reach_invs [OF assms(1)] assms(2)
  by (auto simp: inv_active_def inv_timer_def inv_hw_def inv_clock_def BURST_TIMEOUT_def)

theorem burst_always_capped_witness:
  "\<exists>s. exec_actions fifo bt_host
         [A_enable True, A_trigger, A_trigger_submit, A_tick 40, A_run StartWork,
          A_scan_start E_OK, A_tick 50, A_commit] (sys_init (Some ())) = Some s \<and>
       queue s = [] \<and> timer s = Some (sint (s_burst_start_ms (obs s)) + 5000)"
proof -
  obtain s where s: "exec_actions fifo bt_host
      [A_enable True, A_trigger, A_trigger_submit, A_tick 40, A_run StartWork,
       A_scan_start E_OK, A_tick 50, A_commit] (sys_init (Some ())) = Some s"
    and a: "s_scan_active (obs s)" and q: "queue s = []"
    by (simp add: run_simps)
  from burst_always_capped [OF exec_from_init [OF s] a] s q show ?thesis by auto
qed

text \<open>C16. Disabling aborts an active burst. Once \<open>observer_enable(false)\<close> has returned and as long
  as the gate stays closed, the workqueue thread comes to rest after at most \<open>wq_measure s\<close> of its
  own actions, some schedule reaches rest, and at rest the burst is over, its timer is off and the
  scanner is stopped unless a \<open>bt_le_scan_stop\<close> failed.\<close>

theorem disable_aborts_burst:
  assumes "obs_reach pick bt_start cb s" "\<not> gate_enabled (obs s)" "mt s = MIdle"
    and "pick_contract pick" "\<forall>b. \<exists>err. bt_start b err"
  shows "(\<forall>as t. list_all wq_action as \<and> exec_actions pick bt_start as s = Some t \<longrightarrow>
            length as \<le> wq_measure s \<and>
            (wq t = WIdle \<and> queue t = [] \<longrightarrow>
               \<not> s_scan_active (obs t) \<and> timer t = None \<and> (stop_failed t \<or> \<not> hw_scan t))) \<and>
    (\<exists>as t. list_all wq_action as \<and> exec_actions pick bt_start as s = Some t \<and>
            wq t = WIdle \<and> queue t = [])"
proof (intro conjI allI impI)
  fix as t
  assume r: "list_all wq_action as \<and> exec_actions pick bt_start as s = Some t"
  then show "length as \<le> wq_measure s"
    using wq_schedule_bounded [OF assms(4), of bt_start as s t] by simp
  assume rest: "wq t = WIdle \<and> queue t = []"
  have k: "mt t = mt s \<and> s_enabled (obs t) = s_enabled (obs s)"
    using r by (intro wq_actions_keep) auto
  have "obs_inv t"
    using exec_actions_reach [OF _ assms(1)] r reach_obs_inv by blast
  then show "\<not> s_scan_active (obs t)" and "timer t = None" and "stop_failed t \<or> \<not> hw_scan t"
    using rest k assms(2,3)
    by (auto simp: obs_inv_def inv_gate_def inv_timer_def inv_hw_def gate_enabled_def)
next
  show "\<exists>as t. list_all wq_action as \<and> exec_actions pick bt_start as s = Some t \<and>
          wq t = WIdle \<and> queue t = []"
    using wq_drain [OF assms(4,5) reach_obs_inv [OF assms(1)]] by blast
qed

theorem disable_aborts_burst_witness:
  "\<exists>s as t. exec_actions fifo bt_host
      [A_enable True, A_trigger, A_trigger_submit, A_run StartWork, A_scan_start E_OK, A_commit,
       A_enable False, A_disable] (sys_init (Some ())) = Some s \<and> s_scan_active (obs s) \<and>
    exec_actions fifo bt_host as s = Some t \<and> wq t = WIdle \<and> queue t = [] \<and>
    \<not> s_scan_active (obs t)"
proof -
  obtain s where s: "exec_actions fifo bt_host
      [A_enable True, A_trigger, A_trigger_submit, A_run StartWork, A_scan_start E_OK, A_commit,
       A_enable False, A_disable] (sys_init (Some ())) = Some s"
    and a: "s_scan_active (obs s)" "\<not> gate_enabled (obs s)" "mt s = MIdle"
    by (simp add: run_simps gate_enabled_def)
  have p: "pick_contract fifo"
    by (auto simp: pick_contract_def neq_Nil_conv elim: fifo.elims)
  have b: "\<forall>b. \<exists>err. bt_host b err" by (auto simp: bt_host_def)
  from disable_aborts_burst [OF exec_from_init [OF s] a(2,3) p b] s a(1) show ?thesis by blast
qed

text \<open>The sample callback is only called at the end of a burst that captured a sample: when it
  is called, it is the one that was registered, and the stored sample is valid and not older than
  the burst.\<close>

theorem callback_only_after_capture:
  assumes "obs_reach pick bt_start cb s" "obs_step pick bt_start s t"
    and "calls t = Sample_cb c # calls s"
  shows "cb = Some c \<and> valid (s_tilt (obs s)) \<and>
    sint (s_burst_start_ms (obs s)) \<le> sint (timestamp_ms (s_tilt (obs s))) \<and>
    \<not> s_scan_active (obs s)"
proof -
  have n: "wq s = WNotify \<and> s_sample_cb (obs s) = Some c"
    using assms(2,3) by (cases rule: obs_step.cases) (auto split: if_splits)
  with reach_invs [OF assms(1)] sample_cb_const [OF assms(1)] show ?thesis
    by (auto simp: inv_sample_def inv_active_def burst_captured_def)
qed

theorem callback_only_after_capture_witness:
  "\<exists>s. exec_actions fifo bt_host
      [A_enable True, A_trigger, A_trigger_submit, A_run StartWork, A_scan_start E_OK, A_commit,
       A_tick 1300, A_store (Some demo_advert) 25, A_rx_submit, A_run StopWork, A_scan_stop E_OK,
       A_check] (sys_init (Some ())) = Some s \<and> valid (s_tilt (obs s))"
proof -
  let ?as = "[A_enable True, A_trigger, A_trigger_submit, A_run StartWork, A_scan_start E_OK,
       A_commit, A_tick 1300, A_store (Some demo_advert) 25, A_rx_submit, A_run StopWork,
       A_scan_stop E_OK, A_check]"
  obtain s where s: "exec_actions fifo bt_host ?as (sys_init (Some ())) = Some s"
    and w: "wq s = WNotify" and c: "s_sample_cb (obs s) = Some ()"
    by (simp add: run_simps)
  have t: "obs_step fifo bt_host s (s\<lparr>wq := WIdle, calls := Sample_cb () # calls s\<rparr>)"
    using w c by (rule obs_step.stop_notify)
  have "valid (s_tilt (obs s))"
    using callback_only_after_capture [OF exec_from_init [OF s] t] by simp
  with s show ?thesis by blast
qed

text \<open>No torn or invented samples: in every reachable state a valid sample is the decoded
  temperature and gravity of one and the same advert, stamped with an uptime that has passed.\<close>

theorem sample_from_one_advert:
  assumes "obs_reach pick bt_start cb s" "valid (s_tilt (obs s))"
  shows "(\<exists>mfg len. (sint (timestamp_ms (s_tilt (obs s))), mfg, len) \<in> set (adverts s) \<and>
      tilt_black_decode mfg len = Inr (Some (temp_centi_c (s_tilt (obs s)), gravity_x1000 (s_tilt (obs s))))) \<and>
    0 \<le> sint (timestamp_ms (s_tilt (obs s))) \<and> sint (timestamp_ms (s_tilt (obs s))) \<le> clock s"
  using reach_invs [OF assms(1)] assms(2) by (auto simp: inv_sample_def inv_clock_def)

theorem sample_from_one_advert_witness:
  "\<exists>s. exec_actions fifo bt_host [A_tick 9, A_store (Some demo_advert) 25] (sys_init (None :: unit option))
     = Some s \<and> valid (s_tilt (obs s)) \<and> sint (timestamp_ms (s_tilt (obs s))) \<le> 9"
proof -
  obtain s where s: "exec_actions fifo bt_host [A_tick 9, A_store (Some demo_advert) 25]
      (sys_init (None :: unit option)) = Some s"
    and v: "valid (s_tilt (obs s))" and c: "clock s = 9"
    by (simp add: run_simps)
  from sample_from_one_advert [OF exec_from_init [OF s] v] s v c show ?thesis by auto
qed



text \<open>C36. A failed stop is not retried. \<open>burst_stop\<close> clears \<open>s_scan_active\<close> before it calls
  \<open>bt_le_scan_stop\<close>. After a call that fails, the scanner is on and no further stop is called, until
  a later \<open>bt_le_scan_start\<close> succeeds and a new burst begins. While the gate is closed none is called,
  so the scanner stays on for as long as the gate stays closed, and disabling the observer again does
  not stop it.\<close>

theorem failed_stop_not_retried:
  assumes "obs_reach pick bt_start cb s" "exec_action pick bt_start (A_scan_stop err) s = Some u" "is_error err"
  shows "((obs_step pick bt_start)\<^sup>*\<^sup>* u t \<longrightarrow>
       hw_scan t \<and> \<not> s_scan_active (obs t) \<and> count_stops t = count_stops u \<or>
       wq t = WCommit \<or> count_bursts u < count_bursts t) \<and>
    (\<not> gate_enabled (obs u) \<and> (closed_step pick bt_start)\<^sup>*\<^sup>* u t \<longrightarrow>
       hw_scan t \<and> \<not> s_scan_active (obs t) \<and> count_stops t = count_stops u)"
proof -
  from assms(2) have w: "wq s = WStopping" by simp
  with reach_invs [OF assms(1)] have "hw_scan s" "\<not> s_scan_active (obs s)"
    by (auto simp: inv_hw_def inv_active_def)
  with assms(2,3) have lost: "scan_lost (count_stops u) u" "wq u = WCheck"
    by (auto simp: scan_lost_def)
  then have l: "lost_or_begun (count_stops u) (count_bursts u) u" by (simp add: lost_or_begun_def)
  have "hw_scan t \<and> \<not> s_scan_active (obs t) \<and> count_stops t = count_stops u \<or>
       wq t = WCommit \<or> count_bursts u < count_bursts t" if "(obs_step pick bt_start)\<^sup>*\<^sup>* u t"
    using lost.steps_keep [OF that l] by (auto simp: lost_or_begun_def burst_begun_def scan_lost_def)
  moreover have "hw_scan t \<and> \<not> s_scan_active (obs t) \<and> count_stops t = count_stops u"
    if "\<not> gate_enabled (obs u)" "(closed_step pick bt_start)\<^sup>*\<^sup>* u t"
  proof -
    have "lost_closed (count_stops u) u" using lost that(1) by (simp add: lost_closed_def)
    from lost_closed.steps_keep [OF that(2) this] show ?thesis by (simp add: lost_closed_def scan_lost_def)
  qed
  ultimately show ?thesis by blast
qed

theorem failed_stop_not_retried_witness:
  "\<exists>s. obs_reach fifo bt_host (Some ()) s \<and> \<not> gate_enabled (obs s) \<and>
     {t. (closed_step fifo bt_host)\<^sup>*\<^sup>* s t} \<subseteq> {t. hw_scan t \<and> count_stops t = 1}"
proof -
  let ?as = "[A_enable True, A_trigger, A_trigger_submit, A_run StartWork, A_scan_start E_OK, A_commit,
       A_enable False, A_disable, A_run StopWork]"
  obtain s u where s: "exec_actions fifo bt_host ?as (sys_init (Some ())) = Some s"
    and u: "exec_action fifo bt_host (A_scan_stop (E_OTHER 5)) s = Some u"
    and q: "\<not> gate_enabled (obs u)" "count_stops u = 1"
    by (simp add: run_simps gate_enabled_def count_stops_def)
  have r: "obs_reach fifo bt_host (Some ()) s" by (rule exec_from_init [OF s])
  have e: "is_error (E_OTHER 5)" by (simp add: is_error_def)
  have "obs_reach fifo bt_host (Some ()) u" using r exec_action_sound [OF u] by (rule reach_step)
  moreover have "{t. (closed_step fifo bt_host)\<^sup>*\<^sup>* u t} \<subseteq> {t. hw_scan t \<and> count_stops t = 1}"
    using failed_stop_not_retried [OF r u e] q by auto
  ultimately show ?thesis using q by blast
qed

text \<open>The burst start time is taken after the scanner runs. An advert that arrives between the
  two is stored and ends the burst, but its timestamp is older than the burst start, so the burst
  ends without a call of the registered callback although it captured a sample. Such a run exists
  with a first-in first-out workqueue and no failing call.\<close>

theorem early_advert_misses_callback:
  "\<exists>s. obs_reach fifo bt_host (Some ()) s \<and> quiescent s \<and> valid (s_tilt (obs s)) \<and>
     calls s =
       [Scan_stop, Work_cancel TimeoutWork, Work_schedule TimeoutWork 5000,
        Work_submit StopWork, Scan_start burst_scan_param, Work_submit StartWork,
        Log_inf ''Tilt observer enabled'']"
proof -
  obtain s where s: "exec_actions fifo bt_host
      [A_enable True, A_trigger, A_trigger_submit, A_run StartWork, A_scan_start E_OK, A_tick 100,
       A_store (Some demo_advert) 25, A_rx_submit, A_tick 101, A_commit, A_run StopWork,
       A_scan_stop E_OK, A_check] (sys_init (Some ())) = Some s"
    and q: "quiescent s" "valid (s_tilt (obs s))" "calls s =
       [Scan_stop, Work_cancel TimeoutWork, Work_schedule TimeoutWork 5000,
        Work_submit StopWork, Scan_start burst_scan_param, Work_submit StartWork,
        Log_inf ''Tilt observer enabled'']"
    by (simp add: run_simps quiescent_def)
  then show ?thesis using exec_from_init by blast
qed

text \<open>A stop can outlive its burst: with a first-in first-out workqueue, a stop submitted
  during one burst, queued behind its timeout and the next trigger, ends the next burst at once,
  although the gate is open, no advert arrived in that burst and its timer has not expired.\<close>

theorem stale_stop_ends_next_burst:
  "\<exists>s t. obs_reach fifo bt_host (Some ()) s \<and> s_scan_active (obs s) \<and> gate_enabled (obs s) \<and>
     sint (timestamp_ms (s_tilt (obs s))) < sint (s_burst_start_ms (obs s)) \<and>
     timer s = Some (clock s + 5000) \<and> mt s = MIdle \<and> rx s = RIdle \<and>
     exec_action fifo bt_host (A_run StopWork) s = Some t \<and> \<not> s_scan_active (obs t)"
proof -
  obtain s where s: "exec_actions fifo bt_host
      [A_enable True, A_trigger, A_trigger_submit, A_run StartWork, A_scan_start E_OK, A_commit,
       A_tick 5000, A_expiry, A_trigger, A_trigger_submit, A_store (Some demo_advert) 25,
       A_rx_submit, A_run TimeoutWork, A_scan_stop E_OK, A_check, A_notify, A_tick 5001,
       A_run StartWork, A_scan_start E_OK, A_commit] (sys_init (Some ())) = Some s"
    and q: "s_scan_active (obs s) \<and> gate_enabled (obs s) \<and>
       sint (timestamp_ms (s_tilt (obs s))) < sint (s_burst_start_ms (obs s)) \<and>
       timer s = Some (clock s + 5000) \<and> mt s = MIdle \<and> rx s = RIdle \<and>
       queue s = [StopWork] \<and> wq s = WIdle"
    by (simp add: run_simps gate_enabled_def)
  from q have "exec_action fifo bt_host (A_run StopWork) s = Some (run_handler StopWork s) \<and>
      \<not> s_scan_active (obs (run_handler StopWork s))"
    by (simp add: run_handler_def)
  with q exec_from_init [OF s] show ?thesis by blast
qed

end
