(* ===== verification/Ambient.thy ===== *)
theory Ambient
  imports Prelude
begin

text \<open>
  The ambient temperature sensor (\<^verbatim>\<open>sensors/ambient.c\<close>). The driver calls of Zephyr are
  parameters by their results; the functions return the calls they make. The lemmas give every
  error path and the value of the 16-bit conversion, which wraps (it is not clamped) outside
  the range of a 16-bit centi-degree.
\<close>

record ambient =
  s_ready :: bool

definition ambient_boot :: ambient where
  "ambient_boot = \<lparr>s_ready = False\<rparr>"

text \<open>\<open>struct sensor_value\<close>: integer part and fractional part in millionths.\<close>

record sensor_value =
  val1 :: i32
  val2 :: i32

datatype sensor_call = Device_is_ready | Sample_fetch | Channel_get_ambient_temp | Sensor_log_err string

definition ambient_init :: "bool \<Rightarrow> ambient \<Rightarrow> ambient \<times> sensor_call list" where
  "ambient_init ready s =
     (s\<lparr>s_ready := ready\<rparr>,
      [Device_is_ready] @
      (if \<not> ready then [Sensor_log_err ''BME680 not ready; ambient reads will fail (EP1 -> null)'']
       else []))"

text \<open>\<open>(int16_t)(t.val1 * 100 + t.val2 / 10000)\<close>, in 32-bit arithmetic.\<close>

definition ambient_centi :: "sensor_value \<Rightarrow> i16" where
  "ambient_centi t = ucast (val1 t * 100 + i32_div (val2 t) 10000)"

text \<open>The driver's answers to one read: the return codes of \<open>sensor_sample_fetch\<close> and
  \<open>sensor_channel_get\<close>, and the value the latter writes.\<close>

record sensor_answer =
  fetch_rc :: int
  channel_rc :: int
  channel_value :: sensor_value

definition ambient_read_centi_c ::
  "sensor_answer \<Rightarrow> i16 \<Rightarrow> ambient \<Rightarrow> int \<times> i16 \<times> sensor_call list" where
  "ambient_read_centi_c a out s =
     (if \<not> s_ready s then (- 1, out, [])
      else if fetch_rc a < 0 then (- 1, out, [Sample_fetch])
      else if channel_rc a < 0 then (- 1, out, [Sample_fetch, Channel_get_ambient_temp])
      else (0, ambient_centi (channel_value a), [Sample_fetch, Channel_get_ambient_temp]))"

section \<open>Lemmas\<close>

definition ambient_ok :: "sensor_answer \<Rightarrow> ambient \<Rightarrow> bool" where
  "ambient_ok a s \<longleftrightarrow> s_ready s \<and> 0 \<le> fetch_rc a \<and> 0 \<le> channel_rc a"

lemma ambient_read_ok:
  "ambient_ok a s \<Longrightarrow> ambient_read_centi_c a out s =
     (0, ambient_centi (channel_value a), [Sample_fetch, Channel_get_ambient_temp])"
  by (simp add: ambient_ok_def ambient_read_centi_c_def)

lemma ambient_read_fail:
  "\<not> ambient_ok a s \<Longrightarrow> fst (ambient_read_centi_c a out s) = - 1 \<and>
     fst (snd (ambient_read_centi_c a out s)) = out"
  by (auto simp: ambient_ok_def ambient_read_centi_c_def)

text \<open>The reading in millionths of a degree.\<close>

definition micro_c :: "sensor_value \<Rightarrow> int" where
  "micro_c t = sint (val1 t) * 1000000 + sint (val2 t)"

lemma sint_ambient_centi:
  assumes "\<bar>sint (val1 t)\<bar> \<le> 326" "\<bar>sint (val2 t)\<bar> < 1000000"
  shows "sint (ambient_centi t) = sint (val1 t) * 100 + sint (val2 t) sdiv 10000"
proof -
  have q: "\<bar>10000 * (sint (val2 t) sdiv 10000) - sint (val2 t)\<bar> < 10000"
    by (intro sdiv_error) simp
  have d: "sint (i32_div (val2 t) 10000) = sint (val2 t) sdiv 10000"
    by (simp add: sint_i32_div)
  have m: "sint (val1 t * 100) = sint (val1 t) * 100"
    using assms by (subst sint32_mult) simp_all
  have a: "sint (val1 t * 100 + i32_div (val2 t) 10000)
      = sint (val1 t) * 100 + sint (val2 t) sdiv 10000"
    using assms q sint32_add [of "val1 t * 100" "i32_div (val2 t) 10000", unfolded m d] by linarith
  have "- 32768 \<le> sint (val1 t) * 100 + sint (val2 t) sdiv 10000"
    and "sint (val1 t) * 100 + sint (val2 t) sdiv 10000 \<le> 32767"
    using assms q by linarith+
  then show ?thesis
    unfolding ambient_centi_def by (simp add: sint_ucast32_16 a)
qed

section \<open>Properties\<close>

text \<open>C32. A successful read returns 0 and, for readings between -326 and 326 degrees with a
  fractional part below one degree, exactly the integer part times 100 plus the truncated
  fraction; it differs from the reading by less than a hundredth of a degree.\<close>

theorem ambient_read_exact:
  assumes "ambient_ok a s" "\<bar>sint (val1 (channel_value a))\<bar> \<le> 326"
    and "\<bar>sint (val2 (channel_value a))\<bar> < 1000000"
  shows "\<exists>v. ambient_read_centi_c a out s = (0, v, [Sample_fetch, Channel_get_ambient_temp]) \<and>
    sint v = sint (val1 (channel_value a)) * 100 + sint (val2 (channel_value a)) sdiv 10000 \<and>
    \<bar>10000 * sint v - micro_c (channel_value a)\<bar> < 10000"
proof -
  have "\<bar>10000 * (sint (val2 (channel_value a)) sdiv 10000) - sint (val2 (channel_value a))\<bar> < 10000"
    by (intro sdiv_error) simp
  then show ?thesis
    using ambient_read_ok [OF assms(1)] sint_ambient_centi [OF assms(2,3)]
    by (simp add: micro_c_def algebra_simps)
qed

theorem ambient_read_exact_witness:
  "\<exists>v. ambient_read_centi_c
      \<lparr>fetch_rc = 0, channel_rc = 0, channel_value = \<lparr>val1 = - 3, val2 = - 259999\<rparr>\<rparr> 0
      (fst (ambient_init True ambient_boot))
    = (0, v, [Sample_fetch, Channel_get_ambient_temp]) \<and> sint v = - 325"
  using ambient_read_exact
    [of "\<lparr>fetch_rc = 0, channel_rc = 0, channel_value = \<lparr>val1 = - 3, val2 = - 259999\<rparr>\<rparr>"
        "fst (ambient_init True ambient_boot)" 0]
  by (auto simp: ambient_ok_def ambient_init_def)

text \<open>C33. Error paths: the result is 0 or -1, and 0 exactly when the device was found ready at init
  and both driver calls succeeded; on -1 the output is unchanged; a device that is not ready is
  never called, and the channel is not read after a fetch that failed.\<close>

theorem ambient_read_errors:
  "(fst (ambient_read_centi_c a out s) = 0 \<longleftrightarrow> ambient_ok a s) \<and>
   (ambient_ok a s \<or>
      fst (ambient_read_centi_c a out s) = - 1 \<and> fst (snd (ambient_read_centi_c a out s)) = out) \<and>
   (snd (snd (ambient_read_centi_c a out s)) =
      (if \<not> s_ready s then []
       else if fetch_rc a < 0 then [Sample_fetch] else [Sample_fetch, Channel_get_ambient_temp]))"
  by (auto simp: ambient_ok_def ambient_read_centi_c_def)

end
