(* ===== verification/App_Task.thy ===== *)
theory App_Task
  imports Observer Ambient
begin

text \<open>
  The application task (\<^verbatim>\<open>app_task.cpp\<close>, \<^verbatim>\<open>app_task.h\<close>) and the entry point
  (\<^verbatim>\<open>main.cpp\<close>): the report of the sensors into the Matter attributes, the policy that
  gates Tilt bursts, the initialisation sequence and the dispatch loop. The Matter stack, the board
  and the kernel are parameters by the results of their calls; each function returns the calls it
  makes in order. An attribute write is the call \<open>Measured_value cluster endpoint v\<close>, \<open>None\<close> being
  \<open>SetNull\<close>; the 16 bits are read as signed for temperatures, as unsigned for the gravity.
\<close>

section \<open>State and calls\<close>

datatype sample_cb = TiltSampleReady

record app =
  app_obs :: "sample_cb observer"
  app_ambient :: ambient

definition app_boot :: app where
  "app_boot = \<lparr>app_obs = observer_boot, app_ambient = ambient_boot\<rparr>"

datatype cluster = TemperatureMeasurement | RelativeHumidityMeasurement

datatype job = ReportTiltWork_job | ApplyInitialObserverGate_job | ReportWork_job

datatype event_handler = DefaultMatterEventHandler | AppBleObserverPolicy_handler

datatype app_call =
    Measured_value cluster nat "16 word option"
  | Observer_call "sample_cb api_call"
  | Sensor_call sensor_call
  | ScheduleWork job
  | PrepareServer
  | Board_Init
  | RegisterEventHandler event_handler
  | StartServer
  | K_timer_init
  | K_timer_start int int
  | App_log string

definition kAmbientEndpoint :: nat where
  "kAmbientEndpoint = 1"

definition kInternalEndpoint :: nat where
  "kInternalEndpoint = 2"

definition kGravityEndpoint :: nat where
  "kGravityEndpoint = 3"

definition kReportPeriodMs :: int where
  "kReportPeriodMs = 60 * 1000"

section \<open>Reporting\<close>

text \<open>The functions are \<open>ReportTiltWork\<close> and the callback that schedules it; \<open>now\<close> is the uptime
  \<open>observer_get_tilt\<close> reads.\<close>

definition ReportTiltWork :: "i64 \<Rightarrow> sample_cb observer \<Rightarrow> app_call list" where
  "ReportTiltWork now s =
     (case observer_get_tilt now (Some 0) (Some 0) s of
        (fresh, t, g) \<Rightarrow>
          if fresh
          then [Measured_value TemperatureMeasurement kInternalEndpoint t,
                Measured_value RelativeHumidityMeasurement kGravityEndpoint g]
          else [Measured_value TemperatureMeasurement kInternalEndpoint None,
                Measured_value RelativeHumidityMeasurement kGravityEndpoint None])"

definition run_sample_cb :: "sample_cb \<Rightarrow> app_call list" where
  "run_sample_cb cb = (case cb of TiltSampleReady \<Rightarrow> [ScheduleWork ReportTiltWork_job])"

definition ReportWork :: "i64 \<Rightarrow> sensor_answer \<Rightarrow> app \<Rightarrow> app \<times> app_call list" where
  "ReportWork now a s =
     (case ambient_read_centi_c a 0 (app_ambient s) of
        (rc, out, sensor_calls) \<Rightarrow>
          (case observer_trigger (app_obs s) of
             (o', trigger_calls) \<Rightarrow>
               (s\<lparr>app_obs := o'\<rparr>,
                map Sensor_call sensor_calls @
                (if rc = 0
                 then [Measured_value TemperatureMeasurement kAmbientEndpoint (Some out)]
                 else [Measured_value TemperatureMeasurement kAmbientEndpoint None,
                       App_log ''ambient read failed (EP1 -> null)'']) @
                ReportTiltWork now (app_obs s) @
                map Observer_call trigger_calls)))"

definition ReportTimerHandler :: "app_call list" where
  "ReportTimerHandler = [ScheduleWork ReportWork_job]"

section \<open>Gate policy\<close>

datatype activity = Activity_Stopped | Activity_NoChange | Activity_Started

datatype device_event =
    CommissioningComplete
  | CHIPoBLEAdvertisingChange activity
  | OtherEvent

text \<open>\<open>fabrics\<close> is the fabric count of the server when the function runs.\<close>

definition IsCommissioned :: "u8 \<Rightarrow> bool" where
  "IsCommissioned fabrics \<longleftrightarrow> 0 < uint fabrics"

definition app_enable :: "bool \<Rightarrow> app \<Rightarrow> app \<times> app_call list" where
  "app_enable b s =
     (case observer_enable b (app_obs s) of
        (o', cs) \<Rightarrow> (s\<lparr>app_obs := o'\<rparr>, map Observer_call cs))"

fun AppBleObserverPolicy :: "u8 \<Rightarrow> device_event \<Rightarrow> app \<Rightarrow> app \<times> app_call list" where
  "AppBleObserverPolicy fabrics CommissioningComplete s = app_enable True s"
| "AppBleObserverPolicy fabrics (CHIPoBLEAdvertisingChange result) s =
     (if result = Activity_Started then app_enable False s
      else app_enable (IsCommissioned fabrics) s)"
| "AppBleObserverPolicy fabrics OtherEvent s = (s, [])"

definition ApplyInitialObserverGate :: "u8 \<Rightarrow> app \<Rightarrow> app \<times> app_call list" where
  "ApplyInitialObserverGate fabrics s =
     (case app_enable (IsCommissioned fabrics) s of
        (s', cs) \<Rightarrow>
          (s', cs @ (if IsCommissioned fabrics then []
                     else [App_log ''Not commissioned: Tilt bursts deferred until commissioning completes''])))"

section \<open>Initialisation and main loop\<close>

datatype chip_error = CHIP_NO_ERROR | CHIP_ERROR_INCORRECT_STATE | CHIP_ERROR_OTHER int

text \<open>The results of the external calls of \<open>Init\<close>.\<close>

record init_results =
  prepare_rc :: chip_error
  board_ok :: bool
  register_default_rc :: chip_error
  register_policy_rc :: chip_error
  bme_ready :: bool
  bt_enable_rc :: bt_err
  start_rc :: chip_error

text \<open>\<open>ReturnErrorOnFailure(expr)\<close>: the call is made, and its error ends the function.\<close>

definition return_on_failure ::
  "chip_error \<Rightarrow> app \<Rightarrow> app_call list \<Rightarrow> (app_call list \<Rightarrow> chip_error \<times> app \<times> app_call list) \<Rightarrow>
   chip_error \<times> app \<times> app_call list" where
  "return_on_failure rc s cs k = (if rc \<noteq> CHIP_NO_ERROR then (rc, s, cs) else k cs)"

definition init_sensors :: "init_results \<Rightarrow> app \<Rightarrow> app \<times> app_call list" where
  "init_sensors r s =
     (case ambient_init (bme_ready r) (app_ambient s) of
        (a', acs) \<Rightarrow>
          (case observer_init (bt_enable_rc r) (Some TiltSampleReady) (app_obs s) of
             (o', ocs) \<Rightarrow>
               (s\<lparr>app_ambient := a', app_obs := o'\<rparr>, map Sensor_call acs @ map Observer_call ocs)))"

definition Init :: "init_results \<Rightarrow> app \<Rightarrow> chip_error \<times> app \<times> app_call list" where
  "Init r s =
     return_on_failure (prepare_rc r) s [PrepareServer] (\<lambda>cs.
     if \<not> board_ok r
     then (CHIP_ERROR_INCORRECT_STATE, s,
           cs @ [Board_Init, App_log ''User interface initialization failed.''])
     else
       return_on_failure (register_default_rc r) s
         (cs @ [Board_Init, RegisterEventHandler DefaultMatterEventHandler]) (\<lambda>cs.
       return_on_failure (register_policy_rc r) s
         (cs @ [RegisterEventHandler AppBleObserverPolicy_handler]) (\<lambda>cs.
       (case init_sensors r s of
          (s', scs) \<Rightarrow>
            return_on_failure (start_rc r) s' (cs @ scs @ [StartServer]) (\<lambda>cs.
              (CHIP_NO_ERROR, s',
               cs @ [ScheduleWork ApplyInitialObserverGate_job, K_timer_init,
                     K_timer_start (2 * 1000) kReportPeriodMs]))))))"

text \<open>\<open>while (true) Nrf::DispatchNextTask();\<close>: \<open>None\<close> is a run that does not return.\<close>

partial_function (option) dispatch_loop :: "(app \<Rightarrow> app) \<Rightarrow> app \<Rightarrow> chip_error option" where
  "dispatch_loop dispatch s = dispatch_loop dispatch (dispatch s)"

definition StartApp :: "init_results \<Rightarrow> (app \<Rightarrow> app) \<Rightarrow> app \<Rightarrow> chip_error option" where
  "StartApp r dispatch s =
     (case Init r s of
        (err, s', cs) \<Rightarrow> if err \<noteq> CHIP_NO_ERROR then Some err else dispatch_loop dispatch s')"

datatype exit_code = EXIT_SUCCESS | EXIT_FAILURE

definition main_c :: "init_results \<Rightarrow> (app \<Rightarrow> app) \<Rightarrow> exit_code option" where
  "main_c r dispatch =
     map_option (\<lambda>err. if err = CHIP_NO_ERROR then EXIT_SUCCESS else EXIT_FAILURE)
       (StartApp r dispatch app_boot)"

lemmas app_op_defs [app_defs] =
  ReportTiltWork_def ReportWork_def app_enable_def ApplyInitialObserverGate_def
  return_on_failure_def init_sensors_def Init_def run_sample_cb_def

section \<open>Gates driven by events\<close>

text \<open>A client of the gate that turns events into settings: the last event that decides wins.\<close>

locale event_gate = burst_gate set_gate gate_open
  for set_gate :: "bool \<Rightarrow> 's \<Rightarrow> 's" and gate_open :: "'s \<Rightarrow> bool" +
  fixes decide :: "'e \<Rightarrow> bool option"
    and handle :: "'e \<Rightarrow> 's \<Rightarrow> 's"
  assumes handle_decides:
    "handle e s = (case decide e of None \<Rightarrow> s | Some b \<Rightarrow> set_gate b s)"
begin

lemma handle_fold: "fold handle es s = fold set_gate (List.map_filter decide es) s"
  by (induction es arbitrary: s)
    (auto simp: handle_decides List.map_filter_def split: option.splits)

lemma gate_after_events:
  "gate_open (fold handle es s) =
     (let bs = List.map_filter decide es in if bs = [] then gate_open s else last bs)"
  by (simp add: handle_fold gate_fold Let_def)

end

lemma map_filter_append:
  "List.map_filter f (xs @ ys) = List.map_filter f xs @ List.map_filter f ys"
  by (simp add: List.map_filter_def)

definition app_gate_open :: "app \<Rightarrow> bool" where
  "app_gate_open s \<longleftrightarrow> gate_enabled (app_obs s)"

text \<open>An event with the fabric count at the time it is handled.\<close>

fun policy_decision :: "u8 \<times> device_event \<Rightarrow> bool option" where
  "policy_decision (n, CommissioningComplete) = Some True"
| "policy_decision (n, CHIPoBLEAdvertisingChange r) = Some (r \<noteq> Activity_Started \<and> 0 < uint n)"
| "policy_decision (n, OtherEvent) = None"

definition policy_handle :: "u8 \<times> device_event \<Rightarrow> app \<Rightarrow> app" where
  "policy_handle e s = fst (AppBleObserverPolicy (fst e) (snd e) s)"

lemma app_gate_set [simp]: "app_gate_open (fst (app_enable b s)) = b"
  by (simp add: app_gate_open_def app_enable_def gate_enabled_def observer_enable_def)

interpretation app_gate: event_gate "\<lambda>b s. fst (app_enable b s)" app_gate_open policy_decision
  policy_handle
proof unfold_locales
  fix e :: "u8 \<times> device_event" and s
  obtain n ev where e: "e = (n, ev)" by (cases e)
  show "policy_handle e s =
      (case policy_decision e of None \<Rightarrow> s | Some b \<Rightarrow> fst (app_enable b s))"
    by (cases ev) (simp_all add: e policy_handle_def IsCommissioned_def)
qed simp

section \<open>The attribute store\<close>

text \<open>The value a Matter read of \<open>MeasuredValue\<close> finds: the last write wins. The outer option is
  \<open>None\<close> before the first write, the inner one is the Matter null.\<close>

type_synonym attr_store = "cluster \<times> nat \<Rightarrow> 16 word option option"

fun apply_write :: "app_call \<Rightarrow> attr_store \<Rightarrow> attr_store" where
  "apply_write (Measured_value c e v) st = st((c, e) \<mapsto> v)"
| "apply_write _ st = st"

definition apply_writes :: "app_call list \<Rightarrow> attr_store \<Rightarrow> attr_store" where
  "apply_writes cs st = fold apply_write cs st"

abbreviation EP1 :: "cluster \<times> nat" where
  "EP1 \<equiv> (TemperatureMeasurement, kAmbientEndpoint)"

abbreviation EP2 :: "cluster \<times> nat" where
  "EP2 \<equiv> (TemperatureMeasurement, kInternalEndpoint)"

abbreviation EP3 :: "cluster \<times> nat" where
  "EP3 \<equiv> (RelativeHumidityMeasurement, kGravityEndpoint)"

lemma apply_writes_simps [simp]:
  "apply_writes [] st = st"
  "apply_writes (c # cs) st = apply_writes cs (apply_write c st)"
  "apply_writes (cs @ ds) st = apply_writes ds (apply_writes cs st)"
  by (simp_all add: apply_writes_def)

lemma apply_writes_other [simp]:
  "apply_writes (map Observer_call cs) st = st"
  "apply_writes (map Sensor_call ss) st = st"
  by (induction cs, simp_all) (induction ss, simp_all)

lemma endpoints_distinct [simp]:
  "kAmbientEndpoint \<noteq> kInternalEndpoint" "kInternalEndpoint \<noteq> kAmbientEndpoint"
  by (simp_all add: kAmbientEndpoint_def kInternalEndpoint_def)

lemma ReportTiltWork_eq:
  "ReportTiltWork now s =
     [Measured_value TemperatureMeasurement kInternalEndpoint (map_option fst (tilt_reading now s)),
      Measured_value RelativeHumidityMeasurement kGravityEndpoint
        (map_option snd (tilt_reading now s))]"
  by (simp add: ReportTiltWork_def observer_get_tilt_def tilt_reading_eq Let_def)

lemma apply_ReportTiltWork:
  "apply_writes (ReportTiltWork now s) st =
     st(EP2 \<mapsto> map_option fst (tilt_reading now s), EP3 \<mapsto> map_option snd (tilt_reading now s))"
  by (simp add: ReportTiltWork_eq)

lemma ReportWork_state [simp]: "fst (ReportWork now a s) = s"
  by (simp add: ReportWork_def observer_trigger_def split: prod.split)

lemma apply_ReportWork:
  "apply_writes (snd (ReportWork now a s)) st =
     st(EP1 \<mapsto> (if ambient_ok a (app_ambient s)
                then Some (ambient_centi (channel_value a)) else None),
        EP2 \<mapsto> map_option fst (tilt_reading now (app_obs s)),
        EP3 \<mapsto> map_option snd (tilt_reading now (app_obs s)))"
proof (cases "ambient_ok a (app_ambient s)")
  case True
  then show ?thesis
    by (simp add: ReportWork_def ambient_read_ok apply_ReportTiltWork split: prod.split)
next
  case False
  then show ?thesis
    using ambient_read_fail [OF False, of 0]
    by (auto simp: ReportWork_def apply_ReportTiltWork split: prod.split)
qed

lemma ReportWork_submits:
  "Observer_call (Work_submit StartWork) \<in> set (snd (ReportWork now a s)) \<longleftrightarrow> app_gate_open s"
  by (auto simp: ReportWork_def ReportTiltWork_eq observer_trigger_def app_gate_open_def
      gate_enabled_def split: prod.split)

lemma dispatch_loop_None: "dispatch_loop dispatch s = None"
proof (cases "dispatch_loop dispatch s")
  case (Some y)
  have False
    by (rule dispatch_loop.raw_induct [where P = "\<lambda>_ _ _. False", OF _ Some]) blast
  then show ?thesis ..
qed simp

section \<open>Properties\<close>

text \<open>What the Tilt report publishes: after any non-empty history of stored samples, a report
  at uptime \<open>now\<close> writes the temperature and the gravity of the last sample when it is at most ten
  minutes old and null to both endpoints otherwise, and no other attribute.\<close>

theorem report_tilt_publishes_latest:
  assumes "xs \<noteq> []" "0 \<le> sint (fst (last xs))" "sint (fst (last xs)) \<le> sint now"
  shows "apply_writes (ReportTiltWork now (fold (\<lambda>(t, v). store_sample t v) xs s)) st =
    (if sint now - sint (fst (last xs)) \<le> 600000
     then st(EP2 \<mapsto> Some (fst (snd (last xs))), EP3 \<mapsto> Some (snd (snd (last xs))))
     else st(EP2 \<mapsto> None, EP3 \<mapsto> None))"
  using obs_cache.get_history [OF assms, of s]
  by (simp add: apply_ReportTiltWork SAMPLE_MAX_AGE_MS_def)

theorem report_tilt_publishes_latest_witness:
  "apply_writes (ReportTiltWork 700001 (fold (\<lambda>(t, v). store_sample t v)
      [(100000, (1990, 1048))] observer_boot)) Map.empty
   = [EP2 \<mapsto> None, EP3 \<mapsto> None]"
  by (subst report_tilt_publishes_latest) simp_all

text \<open>C13. The periodic report on every branch: EP1 gets the ambient reading or null, EP2 and EP3 the
  two halves of one fresh sample or both null, no other attribute changes, and a burst is requested
  exactly when the gate is open.\<close>

theorem report_work_correct:
  "apply_writes (snd (ReportWork now a s)) st =
     st(EP1 \<mapsto> (if ambient_ok a (app_ambient s)
                then Some (ambient_centi (channel_value a)) else None),
        EP2 \<mapsto> map_option fst (tilt_reading now (app_obs s)),
        EP3 \<mapsto> map_option snd (tilt_reading now (app_obs s))) \<and>
   (Observer_call (Work_submit StartWork) \<in> set (snd (ReportWork now a s)) \<longleftrightarrow> app_gate_open s) \<and>
   fst (ReportWork now a s) = s"
  by (simp add: apply_ReportWork ReportWork_submits)

text \<open>C29. The gate after any sequence of device events is the decision of the last event that
  decides: open after a completed commissioning, closed after advertising started, and equal to
  whether a fabric exists after any other advertising change; other events leave it alone.\<close>

theorem gate_follows_last_event:
  "app_gate_open (fold policy_handle es s) =
     (let bs = List.map_filter policy_decision es in if bs = [] then app_gate_open s else last bs) \<and>
   app_gate_open (fold policy_handle (es @ [(n, CHIPoBLEAdvertisingChange r)]) s) =
     (r \<noteq> Activity_Started \<and> 0 < uint n)"
proof
  show "app_gate_open (fold policy_handle es s) =
     (let bs = List.map_filter policy_decision es in if bs = [] then app_gate_open s else last bs)"
    by (rule app_gate.gate_after_events)
  show "app_gate_open (fold policy_handle (es @ [(n, CHIPoBLEAdvertisingChange r)]) s) =
     (r \<noteq> Activity_Started \<and> 0 < uint n)"
    unfolding app_gate.gate_after_events
    by (simp add: map_filter_append Let_def map_filter_simps)
qed

text \<open>The policy comment says that Tilt scanning is disabled while Matter advertises. A
  commissioning that completes while advertising is active opens the gate, whatever the fabric
  count.\<close>

theorem commissioning_opens_gate_while_advertising:
  "app_gate_open
     (fold policy_handle [(n, CHIPoBLEAdvertisingChange Activity_Started), (m, CommissioningComplete)] s)"
  unfolding app_gate.gate_after_events by (simp add: map_filter_simps)

text \<open>C34. Initialisation stops at the first failing call and returns its error, a board failure
  counting as an incorrect state; it schedules the gate and the report timer only when every call
  succeeded, in this order, and it never opens the gate.\<close>

definition init_error :: "init_results \<Rightarrow> chip_error" where
  "init_error r =
     (if prepare_rc r \<noteq> CHIP_NO_ERROR then prepare_rc r
      else if \<not> board_ok r then CHIP_ERROR_INCORRECT_STATE
      else if register_default_rc r \<noteq> CHIP_NO_ERROR then register_default_rc r
      else if register_policy_rc r \<noteq> CHIP_NO_ERROR then register_policy_rc r
      else start_rc r)"

theorem init_stops_at_first_error:
  "fst (Init r s) = init_error r \<and>
   app_gate_open (fst (snd (Init r s))) = app_gate_open s \<and>
   (if init_error r = CHIP_NO_ERROR
    then snd (snd (Init r s)) =
           [PrepareServer, Board_Init, RegisterEventHandler DefaultMatterEventHandler,
            RegisterEventHandler AppBleObserverPolicy_handler] @ snd (init_sensors r s) @
           [StartServer, ScheduleWork ApplyInitialObserverGate_job, K_timer_init,
            K_timer_start 2000 60000]
    else set (snd (snd (Init r s))) \<inter>
           ({K_timer_init} \<union> range ScheduleWork \<union> range (case_prod K_timer_start)) = {})"
  by (auto simp: Init_def init_error_def return_on_failure_def init_sensors_def ambient_init_def
      observer_init_def kReportPeriodMs_def app_gate_open_def gate_enabled_def split: if_splits)

text \<open>C35. The program returns exactly when the initialisation fails, and then with failure: the
  dispatch loop does not return, so success is never an exit status.\<close>

theorem main_returns_only_failure:
  "main_c r dispatch =
     (if init_error r = CHIP_NO_ERROR then None else Some EXIT_FAILURE)"
proof -
  have "fst (Init r app_boot) = init_error r"
    by (auto simp: Init_def init_error_def return_on_failure_def split: prod.split)
  then show ?thesis
    by (auto simp: main_c_def StartApp_def dispatch_loop_None split: prod.split)
qed

end
