(* ===== verification/Firmware.thy ===== *)
theory Firmware
  imports Observer_Concurrency App_Task
begin

text \<open>
  The firmware as one system: the observer's threads of \<open>Observer_Concurrency\<close>, the queue of jobs of
  the Matter thread (\<open>PlatformMgr().ScheduleWork\<close>), the report timer and the attribute store. A
  report is split at the points where other threads can run: after the ambient write, after the
  reading of the sample under its lock, and between the two attribute writes. The jobs run one at a
  time; which pending job runs next, when the timer fires and which device events arrive is left
  open. The field \<open>published\<close> is history: the uptime of the last reading of a report and the sample it
  found fresh.
\<close>

section \<open>State and steps\<close>

datatype matter_pc =
    M_idle
  | M_tilt bool
  | M_ep2 "(i16 \<times> u16) option" bool
  | M_ep3 "(i16 \<times> u16) option" bool
  | M_trigger

record fw =
  core :: "sample_cb sys"
  jobs :: "job list"
  attrs :: attr_store
  amb :: ambient
  pc :: matter_pc
  published :: "(int \<times> tilt_sample option) option"

text \<open>The actions of the observer that are calls of the Matter thread.\<close>

fun matter_action :: "action \<Rightarrow> bool" where
  "matter_action (A_enable b) = True"
| "matter_action A_disable = True"
| "matter_action A_trigger = True"
| "matter_action A_trigger_submit = True"
| "matter_action _ = False"

definition scheduled_jobs :: "app_call list \<Rightarrow> job list" where
  "scheduled_jobs = List.map_filter (\<lambda>c. case c of ScheduleWork j \<Rightarrow> Some j | _ \<Rightarrow> None)"

text \<open>The sample callback, called by the workqueue, schedules its job.\<close>

fun notified_jobs :: "action \<Rightarrow> sample_cb sys \<Rightarrow> job list" where
  "notified_jobs A_notify c =
     (case s_sample_cb (obs c) of None \<Rightarrow> [] | Some cb \<Rightarrow> scheduled_jobs (run_sample_cb cb))"
| "notified_jobs _ c = []"

definition write_ep1 :: "sensor_answer \<Rightarrow> ambient \<Rightarrow> attr_store \<Rightarrow> attr_store" where
  "write_ep1 a s st =
     (case ambient_read_centi_c a 0 s of
        (rc, out, _) \<Rightarrow> st(EP1 \<mapsto> (if rc = 0 then Some out else None)))"

definition take_job :: "job \<Rightarrow> fw \<Rightarrow> bool" where
  "take_job j s \<longleftrightarrow> pc s = M_idle \<and> mt (core s) = MIdle \<and> j \<in> set (jobs s)"

definition tilt_now :: "sample_cb sys \<Rightarrow> (i16 \<times> u16) option" where
  "tilt_now c = tilt_reading (uptime c) (obs c)"

inductive fw_step ::
  "(work list \<Rightarrow> work \<Rightarrow> bool) \<Rightarrow> (bool \<Rightarrow> bt_err \<Rightarrow> bool) \<Rightarrow> fw \<Rightarrow> fw \<Rightarrow> bool"
  for pick bt_start where
  thread: "\<not> matter_action a \<Longrightarrow> exec_action pick bt_start a (core s) = Some c \<Longrightarrow>
    fw_step pick bt_start s (s\<lparr>core := c, jobs := jobs s @ notified_jobs a (core s)\<rparr>)"
| report_timer:
    "fw_step pick bt_start s (s\<lparr>jobs := jobs s @ scheduled_jobs ReportTimerHandler\<rparr>)"
| tilt_job: "take_job ReportTiltWork_job s \<Longrightarrow>
    fw_step pick bt_start s
      (s\<lparr>jobs := remove1 ReportTiltWork_job (jobs s), pc := M_tilt False\<rparr>)"
| report_job: "take_job ReportWork_job s \<Longrightarrow>
    fw_step pick bt_start s
      (s\<lparr>jobs := remove1 ReportWork_job (jobs s), attrs := write_ep1 ans (amb s) (attrs s),
         pc := M_tilt True\<rparr>)"
| read_tilt: "pc s = M_tilt b \<Longrightarrow>
    fw_step pick bt_start s
      (s\<lparr>pc := M_ep2 (tilt_now (core s)) b,
         published := Some (clock (core s),
           if tilt_now (core s) = None then None else Some (s_tilt (obs (core s))))\<rparr>)"
| write_ep2: "pc s = M_ep2 r b \<Longrightarrow>
    fw_step pick bt_start s (s\<lparr>attrs := (attrs s)(EP2 \<mapsto> map_option fst r), pc := M_ep3 r b\<rparr>)"
| write_ep3: "pc s = M_ep3 r b \<Longrightarrow>
    fw_step pick bt_start s
      (s\<lparr>attrs := (attrs s)(EP3 \<mapsto> map_option snd r), pc := (if b then M_trigger else M_idle)\<rparr>)"
| trigger: "pc s = M_trigger \<Longrightarrow> exec_action pick bt_start A_trigger (core s) = Some c \<Longrightarrow>
    fw_step pick bt_start s (s\<lparr>core := c, pc := M_idle\<rparr>)"
| gate_job: "take_job ApplyInitialObserverGate_job s \<Longrightarrow>
    exec_action pick bt_start (A_enable (IsCommissioned n)) (core s) = Some c \<Longrightarrow>
    fw_step pick bt_start s
      (s\<lparr>core := c, jobs := remove1 ApplyInitialObserverGate_job (jobs s)\<rparr>)"
| event: "pc s = M_idle \<Longrightarrow> policy_decision (n, ev) = Some b \<Longrightarrow>
    exec_action pick bt_start (A_enable b) (core s) = Some c \<Longrightarrow>
    fw_step pick bt_start s (s\<lparr>core := c\<rparr>)"
| observer_call: "a = A_disable \<or> a = A_trigger_submit \<Longrightarrow>
    exec_action pick bt_start a (core s) = Some c \<Longrightarrow>
    fw_step pick bt_start s (s\<lparr>core := c\<rparr>)"

definition fw_init :: "ambient \<Rightarrow> fw" where
  "fw_init a =
     \<lparr>core = sys_init (Some TiltSampleReady), jobs = [ApplyInitialObserverGate_job],
      attrs = Map.empty, amb = a, pc = M_idle, published = None\<rparr>"

inductive fw_reach ::
  "(work list \<Rightarrow> work \<Rightarrow> bool) \<Rightarrow> (bool \<Rightarrow> bt_err \<Rightarrow> bool) \<Rightarrow> ambient \<Rightarrow> fw \<Rightarrow> bool"
  for pick bt_start a where
  fw_start: "fw_reach pick bt_start a (fw_init a)"
| fw_next: "fw_reach pick bt_start a s \<Longrightarrow> fw_step pick bt_start s t \<Longrightarrow> fw_reach pick bt_start a t"

section \<open>Refinement of the observer\<close>

text \<open>Seen through \<open>core\<close>, a step of the firmware is a step of the observer or none.\<close>

lemma fw_step_core:
  "fw_step pick bts s t \<Longrightarrow> core t = core s \<or> obs_step pick bts (core s) (core t)"
  by (erule fw_step.cases) (auto dest: exec_action_sound simp del: exec_action.simps)

lemma fw_reach_core:
  "fw_reach pick bts a s \<Longrightarrow> obs_reach pick bts (Some TiltSampleReady) (core s)"
proof (induction rule: fw_reach.induct)
  case fw_start
  then show ?case by (simp add: fw_init_def reach_init)
next
  case (fw_next s t)
  then show ?case using fw_step_core [OF fw_next.hyps(2)] by (auto intro: reach_step)
qed

section \<open>Invariant of the published values\<close>

definition sample_pair :: "tilt_sample \<Rightarrow> i16 \<times> u16" where
  "sample_pair p = (temp_centi_c p, gravity_x1000 p)"

definition published_pair :: "fw \<Rightarrow> (i16 \<times> u16) option option" where
  "published_pair s = map_option (\<lambda>(tm, p). map_option sample_pair p) (published s)"

text \<open>A sample is one that was received: it was decoded from an advertising element of this run, stored
  at its timestamp.\<close>

definition received :: "sample_cb sys \<Rightarrow> tilt_sample \<Rightarrow> bool" where
  "received c p \<longleftrightarrow>
     (\<exists>mfg len. (sint (timestamp_ms p), mfg, len) \<in> set (adverts c) \<and>
        tilt_black_decode mfg len = Inr (Some (sample_pair p)))"

fun attrs_match :: "matter_pc \<Rightarrow> fw \<Rightarrow> bool" where
  "attrs_match (M_ep2 r b) s \<longleftrightarrow> published_pair s = Some r"
| "attrs_match (M_ep3 r b) s \<longleftrightarrow>
     published_pair s = Some r \<and> attrs s EP2 = Some (map_option fst r)"
| "attrs_match _ s \<longleftrightarrow>
     attrs s EP2 = map_option (map_option fst) (published_pair s) \<and>
     attrs s EP3 = map_option (map_option snd) (published_pair s)"

definition published_ok :: "fw \<Rightarrow> bool" where
  "published_ok s \<longleftrightarrow>
     (case published s of
        None \<Rightarrow> True
      | Some (tm, None) \<Rightarrow> tm \<le> clock (core s)
      | Some (tm, Some p) \<Rightarrow>
          tm \<le> clock (core s) \<and> received (core s) p \<and> valid p \<and>
          0 \<le> sint (timestamp_ms p) \<and> sint (timestamp_ms p) \<le> tm \<and>
          tm - sint (timestamp_ms p) \<le> SAMPLE_MAX_AGE_MS)"

definition fw_inv :: "fw \<Rightarrow> bool" where
  "fw_inv s \<longleftrightarrow> obs_inv (core s) \<and> published_ok s \<and> attrs_match (pc s) s"

lemma EP_simps [simp]: "EP1 \<noteq> EP2" "EP1 \<noteq> EP3" "EP2 \<noteq> EP3" "EP3 \<noteq> EP2" "EP2 \<noteq> EP1" "EP3 \<noteq> EP1"
  by simp_all

lemma clock_mono: "obs_step pick bts s t \<Longrightarrow> clock s \<le> clock t"
  by (erule obs_step.cases) auto

lemma adverts_mono: "obs_step pick bts s t \<Longrightarrow> set (adverts s) \<subseteq> set (adverts t)"
  by (erule obs_step.cases) auto

lemma published_ok_core:
  "published_ok s \<Longrightarrow> clock (core s) \<le> clock (core t) \<Longrightarrow> set (adverts (core s)) \<subseteq> set (adverts (core t)) \<Longrightarrow>
   published t = published s \<Longrightarrow> published_ok t"
  by (fastforce simp: published_ok_def received_def split: option.splits)

lemma attrs_match_frame:
  "attrs_match p s \<Longrightarrow> attrs t EP2 = attrs s EP2 \<Longrightarrow> attrs t EP3 = attrs s EP3 \<Longrightarrow>
   published t = published s \<Longrightarrow> attrs_match p t"
  by (cases p) (auto simp: published_pair_def)

lemma write_ep1_frame [simp]:
  "write_ep1 ans a st EP2 = st EP2" "write_ep1 ans a st EP3 = st EP3"
  by (auto simp: write_ep1_def split: prod.split)

lemma fw_step_published:
  "fw_step pick bts s t \<Longrightarrow>
   published t = published s \<or>
   published t = Some (clock (core s),
     if tilt_now (core s) = None then None else Some (s_tilt (obs (core s)))) \<and> core t = core s"
  by (erule fw_step.cases) auto

lemma tilt_now_Some:
  assumes "obs_inv c" "tilt_now c \<noteq> None"
  shows "tilt_now c = Some (sample_pair (s_tilt (obs c)))" "received c (s_tilt (obs c))"
    "valid (s_tilt (obs c))" "0 \<le> sint (timestamp_ms (s_tilt (obs c)))"
    "sint (timestamp_ms (s_tilt (obs c))) \<le> clock c"
    "clock c - sint (timestamp_ms (s_tilt (obs c))) \<le> SAMPLE_MAX_AGE_MS"
proof -
  from assms(1) have clk: "0 \<le> clock c" "clock c < 2 ^ 63"
    "0 \<le> sint (timestamp_ms (s_tilt (obs c)))"
    "sint (timestamp_ms (s_tilt (obs c))) \<le> clock c" and inv: "inv_sample c"
    by (auto simp: obs_inv_def inv_clock_def)
  from clk have up: "sint (uptime c) = clock c" by (simp add: sint_uptime)
  have age: "sint (uptime c - timestamp_ms (s_tilt (obs c))) =
      clock c - sint (timestamp_ms (s_tilt (obs c)))"
    using age_no_wrap [of "timestamp_ms (s_tilt (obs c))" "uptime c"] clk up by simp
  from assms(2) show v: "valid (s_tilt (obs c))"
    "clock c - sint (timestamp_ms (s_tilt (obs c))) \<le> SAMPLE_MAX_AGE_MS"
    by (auto simp: tilt_now_def tilt_reading_eq age split: if_splits)
  then show "tilt_now c = Some (sample_pair (s_tilt (obs c)))"
    by (simp add: tilt_now_def tilt_reading_eq age sample_pair_def)
  from v(1) inv show "received c (s_tilt (obs c))"
    by (auto simp: inv_sample_def received_def sample_pair_def)
  show "0 \<le> sint (timestamp_ms (s_tilt (obs c)))" "sint (timestamp_ms (s_tilt (obs c))) \<le> clock c"
    using clk by auto
qed

lemma step_published_ok:
  assumes "fw_step pick bts s t" "obs_inv (core s)" "published_ok s"
  shows "published_ok t"
proof -
  have mono: "clock (core s) \<le> clock (core t)"
    using fw_step_core [OF assms(1)] by (auto dest: clock_mono)
  have adv: "set (adverts (core s)) \<subseteq> set (adverts (core t))"
    using fw_step_core [OF assms(1)] by (auto dest: adverts_mono)
  from fw_step_published [OF assms(1)] show ?thesis
  proof
    assume "published t = published s"
    with assms(3) mono adv show ?thesis by (blast intro: published_ok_core)
  next
    assume p: "published t = Some (clock (core s),
       if tilt_now (core s) = None then None else Some (s_tilt (obs (core s)))) \<and> core t = core s"
    then show ?thesis
      using tilt_now_Some [OF assms(2)] by (cases "tilt_now (core s)") (auto simp: published_ok_def)
  qed
qed

lemma step_attrs_match:
  assumes "fw_step pick bts s t" "obs_inv (core s)" "attrs_match (pc s) s"
  shows "attrs_match (pc t) t"
  using assms
proof (cases rule: fw_step.cases)
  case (read_tilt b)
  then show ?thesis
    using tilt_now_Some(1) [OF assms(2)] by (auto simp: published_pair_def)
qed (auto simp: take_job_def published_pair_def elim!: attrs_match_frame split: if_splits)

interpretation fw_inv: step_invariant "fw_step pick bts" fw_inv
proof
  fix s t assume "fw_step pick bts s t" "fw_inv s"
  then show "fw_inv t"
    using fw_step_core [of pick bts s t] step_published_ok [of pick bts s t]
      step_attrs_match [of pick bts s t] obs_inv.step_keeps [of pick bts "core s" "core t"]
    by (auto simp: fw_inv_def)
qed

lemma fw_inv_init: "fw_inv (fw_init a)"
  by (simp add: fw_inv_def fw_init_def obs_inv_init published_ok_def published_pair_def)

lemma fw_reach_steps: "fw_reach pick bts a s \<longleftrightarrow> (fw_step pick bts)\<^sup>*\<^sup>* (fw_init a) s"
proof
  assume "fw_reach pick bts a s"
  then show "(fw_step pick bts)\<^sup>*\<^sup>* (fw_init a) s"
    by (induction rule: fw_reach.induct) auto
next
  assume "(fw_step pick bts)\<^sup>*\<^sup>* (fw_init a) s"
  then show "fw_reach pick bts a s"
    by (induction rule: rtranclp_induct) (auto intro: fw_start fw_next)
qed

lemma fw_reach_inv: "fw_reach pick bts a s \<Longrightarrow> fw_inv s"
  by (rule fw_inv.steps_keep [OF _ fw_inv_init]) (simp add: fw_reach_steps)

section \<open>Executable steps\<close>

datatype fw_action =
    F_thread action | F_timer | F_tilt_job | F_report_job sensor_answer | F_read | F_ep2 | F_ep3
  | F_trigger | F_gate_job u8 | F_event u8 device_event | F_call action

definition on_core :: "sample_cb sys option \<Rightarrow> fw \<Rightarrow> fw option" where
  "on_core c s = map_option (\<lambda>c. s\<lparr>core := c\<rparr>) c"

fun fw_exec ::
  "(work list \<Rightarrow> work \<Rightarrow> bool) \<Rightarrow> (bool \<Rightarrow> bt_err \<Rightarrow> bool) \<Rightarrow> fw_action \<Rightarrow> fw \<Rightarrow> fw option" where
  "fw_exec pick bts (F_thread a) s =
     (if matter_action a then None
      else map_option (\<lambda>c. s\<lparr>core := c, jobs := jobs s @ notified_jobs a (core s)\<rparr>)
             (exec_action pick bts a (core s)))"
| "fw_exec pick bts F_timer s = Some (s\<lparr>jobs := jobs s @ scheduled_jobs ReportTimerHandler\<rparr>)"
| "fw_exec pick bts F_tilt_job s =
     guarded (take_job ReportTiltWork_job s)
       (s\<lparr>jobs := remove1 ReportTiltWork_job (jobs s), pc := M_tilt False\<rparr>)"
| "fw_exec pick bts (F_report_job ans) s =
     guarded (take_job ReportWork_job s)
       (s\<lparr>jobs := remove1 ReportWork_job (jobs s), attrs := write_ep1 ans (amb s) (attrs s),
          pc := M_tilt True\<rparr>)"
| "fw_exec pick bts F_read s =
     (case pc s of
        M_tilt b \<Rightarrow>
          Some (s\<lparr>pc := M_ep2 (tilt_now (core s)) b,
                  published := Some (clock (core s),
                    if tilt_now (core s) = None then None else Some (s_tilt (obs (core s))))\<rparr>)
      | _ \<Rightarrow> None)"
| "fw_exec pick bts F_ep2 s =
     (case pc s of
        M_ep2 r b \<Rightarrow> Some (s\<lparr>attrs := (attrs s)(EP2 \<mapsto> map_option fst r), pc := M_ep3 r b\<rparr>)
      | _ \<Rightarrow> None)"
| "fw_exec pick bts F_ep3 s =
     (case pc s of
        M_ep3 r b \<Rightarrow>
          Some (s\<lparr>attrs := (attrs s)(EP3 \<mapsto> map_option snd r),
                  pc := (if b then M_trigger else M_idle)\<rparr>)
      | _ \<Rightarrow> None)"
| "fw_exec pick bts F_trigger s =
     (if pc s = M_trigger then on_core (exec_action pick bts A_trigger (core s)) (s\<lparr>pc := M_idle\<rparr>)
      else None)"
| "fw_exec pick bts (F_gate_job n) s =
     (if take_job ApplyInitialObserverGate_job s
      then on_core (exec_action pick bts (A_enable (IsCommissioned n)) (core s))
             (s\<lparr>jobs := remove1 ApplyInitialObserverGate_job (jobs s)\<rparr>)
      else None)"
| "fw_exec pick bts (F_event n ev) s =
     (case policy_decision (n, ev) of
        Some b \<Rightarrow>
          if pc s = M_idle then on_core (exec_action pick bts (A_enable b) (core s)) s else None
      | None \<Rightarrow> None)"
| "fw_exec pick bts (F_call a) s =
     (if a = A_disable \<or> a = A_trigger_submit then on_core (exec_action pick bts a (core s)) s
      else None)"

fun fw_execs ::
  "(work list \<Rightarrow> work \<Rightarrow> bool) \<Rightarrow> (bool \<Rightarrow> bt_err \<Rightarrow> bool) \<Rightarrow> fw_action list \<Rightarrow> fw \<Rightarrow> fw option"
where
  "fw_execs pick bts [] s = Some s"
| "fw_execs pick bts (a # as) s =
     (case fw_exec pick bts a s of None \<Rightarrow> None | Some t \<Rightarrow> fw_execs pick bts as t)"

lemma on_core_Some [simp]: "on_core c s = Some t \<longleftrightarrow> (\<exists>d. c = Some d \<and> t = s\<lparr>core := d\<rparr>)"
  by (auto simp: on_core_def)

lemma fw_exec_sound:
  assumes "fw_exec pick bts a s = Some t"
  shows "fw_step pick bts s t"
proof (cases a)
  case (F_thread b)
  with assms show ?thesis by (auto intro: thread split: if_splits)
next
  case F_timer
  with assms report_timer [of pick bts s] show ?thesis by simp
next
  case F_tilt_job
  with assms show ?thesis by (auto intro: tilt_job)
next
  case (F_report_job ans)
  with assms show ?thesis by (auto intro: report_job)
next
  case F_read
  with assms show ?thesis
    by (auto intro: read_tilt split: matter_pc.splits simp del: if_split)
next
  case F_ep2
  with assms show ?thesis by (auto intro: write_ep2 split: matter_pc.splits)
next
  case F_ep3
  with assms show ?thesis
    by (auto intro: write_ep3 split: matter_pc.splits simp del: if_split)
next
  case F_trigger
  with assms obtain c where "pc s = M_trigger" "exec_action pick bts A_trigger (core s) = Some c"
    "t = s\<lparr>core := c, pc := M_idle\<rparr>" by (auto split: if_splits simp del: exec_action.simps)
  then show ?thesis by (simp add: trigger del: exec_action.simps)
next
  case (F_gate_job n)
  with assms obtain c where "take_job ApplyInitialObserverGate_job s"
    "exec_action pick bts (A_enable (IsCommissioned n)) (core s) = Some c"
    "t = s\<lparr>core := c, jobs := remove1 ApplyInitialObserverGate_job (jobs s)\<rparr>"
    by (auto split: if_splits simp del: exec_action.simps)
  then show ?thesis by (simp add: gate_job del: exec_action.simps)
next
  case (F_event n ev)
  with assms show ?thesis
    by (auto intro: event split: if_splits option.splits simp del: exec_action.simps)
next
  case (F_call b)
  with assms show ?thesis
    by (auto intro: observer_call split: if_splits simp del: exec_action.simps)
qed

lemma fw_execs_reach:
  "fw_execs pick bts as s = Some t \<Longrightarrow> fw_reach pick bts a s \<Longrightarrow> fw_reach pick bts a t"
proof (induction as arbitrary: s)
  case (Cons b as)
  then obtain u where "fw_exec pick bts b s = Some u" "fw_execs pick bts as u = Some t"
    by (auto split: option.splits simp del: fw_exec.simps)
  with Cons show ?case by (blast intro: fw_next fw_exec_sound)
qed simp

lemmas fw_from_init = fw_execs_reach [OF _ fw_start]

section \<open>Jobs as uninterrupted runs\<close>

definition fw_app :: "fw \<Rightarrow> app" where
  "fw_app s = \<lparr>app_obs = obs (core s), app_ambient = amb s\<rparr>"

definition tilt_schedule :: "fw_action list" where
  "tilt_schedule = [F_tilt_job, F_read, F_ep2, F_ep3]"

definition report_schedule :: "sensor_answer \<Rightarrow> fw_action list" where
  "report_schedule ans = [F_report_job ans, F_read, F_ep2, F_ep3, F_trigger]"

definition boundary :: "fw \<Rightarrow> bool" where
  "boundary s \<longleftrightarrow> pc s = M_idle \<and> mt (core s) = MIdle"

lemma write_ep1_eq:
  "write_ep1 ans a st =
     st(EP1 \<mapsto> (if ambient_ok ans a then Some (ambient_centi (channel_value ans)) else None))"
proof (cases "ambient_ok ans a")
  case True
  then show ?thesis by (simp add: write_ep1_def ambient_read_ok)
next
  case False
  then show ?thesis using ambient_read_fail [OF False, of 0]
    by (auto simp: write_ep1_def split: prod.split)
qed

definition report_run :: "sensor_answer \<Rightarrow> fw \<Rightarrow> fw_action list" where
  "report_run ans s =
     report_schedule ans @ (if s_enabled (obs (core s)) = 0 then [] else [F_call A_trigger_submit])"

definition gate_run :: "u8 \<Rightarrow> fw_action list" where
  "gate_run n = F_gate_job n # (if IsCommissioned n then [] else [F_call A_disable])"

definition event_run :: "u8 \<Rightarrow> device_event \<Rightarrow> fw_action list" where
  "event_run n ev =
     (case policy_decision (n, ev) of
        None \<Rightarrow> []
      | Some b \<Rightarrow> F_event n ev # (if b then [] else [F_call A_disable]))"

text \<open>What a function of the application has as its result and calls is what happened between two
  states: the state of the application, the attributes, the calls of the observer in their order and
  the work they submitted.\<close>

definition observer_calls :: "app_call list \<Rightarrow> sample_cb api_call list" where
  "observer_calls = List.map_filter (\<lambda>c. case c of Observer_call x \<Rightarrow> Some x | _ \<Rightarrow> None)"

definition has_effect :: "app \<times> app_call list \<Rightarrow> fw \<Rightarrow> fw \<Rightarrow> bool" where
  "has_effect r s t \<longleftrightarrow>
     boundary t \<and> fw_app t = fst r \<and> attrs t = apply_writes (snd r) (attrs s) \<and>
     calls (core t) = rev (observer_calls (snd r)) @ calls (core s) \<and>
     (\<forall>w. w \<in> set (queue (core t)) \<longleftrightarrow> w \<in> set (queue (core s)) \<or> Work_submit w \<in> set (observer_calls (snd r)))"

lemma observer_calls_simps [simp]:
  "observer_calls [] = []"
  "observer_calls (Observer_call x # cs) = x # observer_calls cs"
  "observer_calls (Measured_value cl ep v # cs) = observer_calls cs"
  "observer_calls (App_log m # cs) = observer_calls cs"
  "observer_calls (cs @ ds) = observer_calls cs @ observer_calls ds"
  "observer_calls (map Observer_call xs) = xs"
  "observer_calls (map Sensor_call ys) = []"
proof -
  show "observer_calls (map Observer_call xs) = xs"
    by (induction xs) (simp_all add: observer_calls_def map_filter_simps)
  show "observer_calls (map Sensor_call ys) = []"
    by (induction ys) (simp_all add: observer_calls_def map_filter_simps)
qed (simp_all add: observer_calls_def map_filter_simps map_filter_append)

lemma tilt_job_run:
  assumes "boundary s" "ReportTiltWork_job \<in> set (jobs s)"
  shows "\<exists>t. fw_execs pick bts tilt_schedule s = Some t \<and>
    jobs t = remove1 ReportTiltWork_job (jobs s) \<and>
    has_effect (fw_app s, ReportTiltWork (uptime (core s)) (obs (core s))) s t"
  using assms
  by (simp add: tilt_schedule_def take_job_def guarded_def boundary_def apply_ReportTiltWork
      tilt_now_def fw_app_def has_effect_def) (simp add: ReportTiltWork_eq)

lemma report_job_run:
  assumes "boundary s" "ReportWork_job \<in> set (jobs s)"
  shows "\<exists>t. fw_execs pick bts (report_run ans s) s = Some t \<and>
    jobs t = remove1 ReportWork_job (jobs s) \<and>
    has_effect (ReportWork (uptime (core s)) ans (fw_app s)) s t"
proof -
  let ?r = "ReportWork (uptime (core s)) ans (fw_app s)"
  have oc: "observer_calls (snd ?r) = snd (observer_trigger (obs (core s)))"
    by (simp add: ReportWork_def fw_app_def ReportTiltWork_eq split: prod.split)
  show ?thesis
    using assms
    by (cases "s_enabled (obs (core s)) = 0")
      (simp_all add: report_run_def report_schedule_def take_job_def guarded_def boundary_def apply_ReportWork
        on_core_def tilt_now_def write_ep1_eq fw_app_def submit_from_def has_effect_def
        oc [unfolded fw_app_def] observer_trigger_def, auto)
qed

lemma event_runs:
  assumes "boundary s"
  shows "\<exists>t. fw_execs pick bts (event_run n ev) s = Some t \<and> jobs t = jobs s \<and>
    has_effect (AppBleObserverPolicy n ev (fw_app s)) s t"
proof (cases "policy_decision (n, ev)")
  case None
  then have "ev = OtherEvent" by (cases ev) auto
  with assms show ?thesis by (simp add: event_run_def has_effect_def)
next
  case (Some b)
  have "AppBleObserverPolicy n ev (fw_app s) = app_enable b (fw_app s)"
    using Some by (cases ev) (auto simp: IsCommissioned_def)
  with Some assms show ?thesis
    by (cases b) (auto simp: event_run_def boundary_def on_core_def guarded_def fw_app_def app_enable_def
        submit_from_def has_effect_def observer_enable_def)
qed

lemma gate_job_run:
  assumes "boundary s" "ApplyInitialObserverGate_job \<in> set (jobs s)"
  shows "\<exists>t. fw_execs pick bts (gate_run n) s = Some t \<and>
    jobs t = remove1 ApplyInitialObserverGate_job (jobs s) \<and>
    has_effect (ApplyInitialObserverGate n (fw_app s)) s t"
  using assms
  by (cases "IsCommissioned n")
    (auto simp: gate_run_def boundary_def on_core_def guarded_def take_job_def fw_app_def has_effect_def
      ApplyInitialObserverGate_def app_enable_def submit_from_def observer_enable_def)

section \<open>A captured sample is not lost\<close>

text \<open>Something still has to read the sample: a burst under way that captured one, the callback, a
  pending report or the reading of a running one.\<close>

definition read_due :: "fw \<Rightarrow> bool" where
  "read_due s \<longleftrightarrow>
     (s_scan_active (obs (core s)) \<or> wq (core s) = WStopping \<or> wq (core s) = WCheck) \<and>
       burst_captured (obs (core s)) \<or>
     wq (core s) = WNotify \<or> ReportTiltWork_job \<in> set (jobs s) \<or> (\<exists>b. pc s = M_tilt b)"

text \<open>The last report read a sample stored at \<open>T\<close> or later, or found that one too old.\<close>

definition reported :: "int \<Rightarrow> fw \<Rightarrow> bool" where
  "reported T s \<longleftrightarrow>
     (\<exists>tm q. published s = Some (tm, q) \<and>
        (case q of None \<Rightarrow> T + SAMPLE_MAX_AGE_MS < tm | Some p \<Rightarrow> T \<le> sint (timestamp_ms p)))"

definition holds_since :: "int \<Rightarrow> fw \<Rightarrow> bool" where
  "holds_since T s \<longleftrightarrow>
     valid (s_tilt (obs (core s))) \<and> T \<le> sint (timestamp_ms (s_tilt (obs (core s)))) \<and>
     s_sample_cb (obs (core s)) = Some TiltSampleReady"

definition kept :: "int \<Rightarrow> fw \<Rightarrow> bool" where
  "kept T s \<longleftrightarrow> fw_inv s \<and> holds_since T s \<and> (read_due s \<or> reported T s)"

lemma holds_since_step:
  assumes "fw_step pick bts s t" "fw_inv s" "holds_since T s"
  shows "holds_since T t"
proof -
  have "holds_since T t" if st: "obs_step pick bts (core s) (core t)"
    using st assms(2,3)
    by (cases rule: obs_step.cases)
      (auto simp: holds_since_def fw_inv_def obs_inv_def inv_clock_def observer_frames observer_enable_def
        store_sample_def sint_uptime)
  with fw_step_core [OF assms(1)] assms(3) show ?thesis by (auto simp: holds_since_def)
qed

lemma read_due_core:
  assumes "obs_step pick bts c d" "obs_inv c"
    "(s_scan_active (obs c) \<or> wq c = WStopping \<or> wq c = WCheck) \<and> burst_captured (obs c) \<or> wq c = WNotify"
    "s_sample_cb (obs c) \<noteq> None"
  shows "(s_scan_active (obs d) \<or> wq d = WStopping \<or> wq d = WCheck) \<and> burst_captured (obs d) \<or> wq d = WNotify \<or>
    wq c = WNotify \<and> wq d = WIdle"
  using assms
  by (cases rule: obs_step.cases)
    (auto simp: obs_inv_def inv_active_def inv_clock_def observer_frames observer_enable_def store_sample_def
      burst_captured_def sint_uptime)

lemma notify_leaves:
  assumes "exec_action pick bts a c = Some d" "wq c = WNotify" "wq d \<noteq> WNotify" "s_sample_cb (obs c) = Some TiltSampleReady"
  shows "ReportTiltWork_job \<in> set (notified_jobs a c)"
  using assms
  by (cases a)
    (auto simp: run_handler_def Let_def commit_start_def submit_from_def scheduled_jobs_def run_sample_cb_def
      map_filter_simps split: option.splits sum.splits if_splits)

text \<open>A valid sample that is not read as fresh is more than ten minutes old.\<close>

lemma tilt_now_None:
  assumes "obs_inv (core s)" "holds_since T s" "tilt_now (core s) = None"
  shows "T + SAMPLE_MAX_AGE_MS < clock (core s)"
proof -
  let ?p = "s_tilt (obs (core s))"
  have c: "sint (uptime (core s)) = clock (core s)" "0 \<le> sint (timestamp_ms ?p)" "sint (timestamp_ms ?p) \<le> clock (core s)"
    using assms(1) by (auto simp: obs_inv_def inv_clock_def sint_uptime)
  then have "sint (uptime (core s) - timestamp_ms ?p) = clock (core s) - sint (timestamp_ms ?p)"
    using age_no_wrap [of "timestamp_ms ?p" "uptime (core s)"] by simp
  with assms(2,3) show ?thesis by (auto simp: tilt_now_def tilt_reading_eq holds_since_def split: if_splits)
qed

lemma read_due_step:
  assumes "fw_step pick bts s t" "fw_inv s" "holds_since T s" "read_due s"
  shows "read_due t \<or> reported T t"
proof -
  have inv: "obs_inv (core s)" and cb: "s_sample_cb (obs (core s)) = Some TiltSampleReady"
    using assms(2,3) by (simp_all add: fw_inv_def holds_since_def)
  have core: "core t = core s \<or> obs_step pick bts (core s) (core t)" by (rule fw_step_core [OF assms(1)])
  let ?due = "\<lambda>c. (s_scan_active (obs c) \<or> wq c = WStopping \<or> wq c = WCheck) \<and> burst_captured (obs c) \<or> wq c = WNotify"
  consider (burst) "?due (core s)" | (job) "ReportTiltWork_job \<in> set (jobs s)" | (tilt) b where "pc s = M_tilt b"
    using assms(4) by (auto simp: read_due_def)
  then show ?thesis
  proof cases
    case burst
    have "?due (core t) \<or> wq (core s) = WNotify \<and> wq (core t) = WIdle"
      using core read_due_core [OF _ inv burst] cb burst by auto
    then show ?thesis
    proof
      assume n: "wq (core s) = WNotify \<and> wq (core t) = WIdle"
      have "ReportTiltWork_job \<in> set (jobs t)"
        using assms(1) n notify_leaves [OF _ conjunct1 [OF n] _ cb]
        by (cases rule: fw_step.cases) (auto simp: observer_frames submit_from_def split: if_splits)
      then show ?thesis by (simp add: read_due_def)
    qed (auto simp: read_due_def)
  next
    case job
    with assms(1) show ?thesis
      by (cases rule: fw_step.cases) (auto simp: read_due_def in_set_remove1)
  next
    case tilt
    from assms(1) tilt show ?thesis
    proof (cases rule: fw_step.cases)
      case (read_tilt b')
      have "T + SAMPLE_MAX_AGE_MS < clock (core s)" if "tilt_now (core s) = None"
        by (rule tilt_now_None [OF inv assms(3) that])
      with read_tilt assms(3) show ?thesis
        by (auto simp: reported_def holds_since_def)
    qed (auto simp: read_due_def take_job_def)
  qed
qed

lemma reported_step:
  assumes "fw_step pick bts s t" "fw_inv s" "holds_since T s" "reported T s"
  shows "reported T t"
  using fw_step_published [OF assms(1)]
proof
  assume "published t = published s"
  with assms(4) show ?thesis by (simp add: reported_def)
next
  assume p: "published t = Some (clock (core s),
       if tilt_now (core s) = None then None else Some (s_tilt (obs (core s)))) \<and> core t = core s"
  have "T + SAMPLE_MAX_AGE_MS < clock (core s)" if "tilt_now (core s) = None"
    using assms(2) that by (intro tilt_now_None [OF _ assms(3)]) (simp_all add: fw_inv_def)
  with p assms(3) show ?thesis by (auto simp: reported_def holds_since_def)
qed

interpretation kept: step_invariant "fw_step pick bts" "kept T"
proof
  fix s t assume st: "fw_step pick bts s t" and k: "kept T s"
  from k have i: "fw_inv s" "holds_since T s" by (simp_all add: kept_def)
  from k read_due_step [OF st i] reported_step [OF st i] fw_inv.step_keeps [OF st i(1)] holds_since_step [OF st i]
  show "kept T t" by (auto simp: kept_def)
qed

section \<open>The due reading can be made\<close>

lemma fw_execs_append:
  "fw_execs pick bts (as @ bs) s = (case fw_execs pick bts as s of None \<Rightarrow> None | Some t \<Rightarrow> fw_execs pick bts bs t)"
  by (induction as arbitrary: s) (auto split: option.split simp del: fw_exec.simps)

lemma fw_execs_steps: "fw_execs pick bts as s = Some t \<Longrightarrow> (fw_step pick bts)\<^sup>*\<^sup>* s t"
proof (induction as arbitrary: s)
  case (Cons a as)
  then obtain u where "fw_exec pick bts a s = Some u" "fw_execs pick bts as u = Some t"
    by (auto split: option.splits simp del: fw_exec.simps)
  with Cons.IH show ?case by (blast intro: fw_exec_sound converse_rtranclp_into_rtranclp)
qed simp

text \<open>The Matter thread runs its parts only between calls of the observer.\<close>

definition mt_free :: "fw \<Rightarrow> bool" where
  "mt_free s \<longleftrightarrow> (pc s \<noteq> M_idle \<longrightarrow> mt (core s) = MIdle)"

lemma other_keeps_mt:
  "\<not> matter_action a \<Longrightarrow> exec_action pick bts a c = Some d \<Longrightarrow> mt d = mt c"
  by (cases a) (auto simp: run_handler_def Let_def commit_start_def submit_from_def
      split: option.splits sum.splits if_splits)

lemma call_ends:
  "exec_action pick bts A_disable c = Some d \<Longrightarrow> mt d = MIdle"
  "exec_action pick bts A_trigger_submit c = Some d \<Longrightarrow> mt d = MIdle"
  by (auto simp: submit_from_def)

interpretation mt_free: step_invariant "fw_step pick bts" mt_free
proof
  fix s t assume "fw_step pick bts s t" "mt_free s"
  then show "mt_free t"
    by (cases rule: fw_step.cases)
      (auto simp: mt_free_def take_job_def dest: other_keeps_mt call_ends simp del: exec_action.simps)
qed

lemma fw_reach_mt_free: "fw_reach pick bts a s \<Longrightarrow> mt_free s"
  by (rule mt_free.steps_keep [of pick bts "fw_init a"])
    (simp_all add: fw_reach_steps mt_free_def fw_init_def)

text \<open>The Matter thread can finish the job or the call it is in, without the clock moving.\<close>

fun job_rest :: "fw_action list \<Rightarrow> matter_pc \<Rightarrow> fw_action list" where
  "job_rest tr M_idle = []"
| "job_rest tr M_trigger = tr"
| "job_rest tr (M_ep3 r b) = F_ep3 # (if b then tr else [])"
| "job_rest tr (M_ep2 r b) = F_ep2 # F_ep3 # (if b then tr else [])"
| "job_rest tr (M_tilt b) = F_read # F_ep2 # F_ep3 # (if b then tr else [])"

lemma finish_job:
  assumes "mt_free s"
  shows "\<exists>as t. fw_execs pick bts as s = Some t \<and> boundary t \<and> clock (core t) = clock (core s)"
proof (cases "pc s = M_idle")
  case True
  then show ?thesis
    by (cases "mt (core s)")
      (rule exI [of _ "[]"] exI [of _ "[F_call A_disable]"] exI [of _ "[F_call A_trigger_submit]"],
       simp add: boundary_def on_core_def submit_from_def)+
next
  case False
  let ?tr = "F_trigger # (if s_enabled (obs (core s)) = 0 then [] else [F_call A_trigger_submit])"
  from False assms have "mt (core s) = MIdle" by (simp add: mt_free_def)
  with False have "\<exists>t. fw_execs pick bts (job_rest ?tr (pc s)) s = Some t \<and> boundary t \<and> clock (core t) = clock (core s)"
    by (cases "pc s") (auto simp: boundary_def on_core_def submit_from_def guarded_def)
  then show ?thesis by blast
qed

lemma thread_execs:
  "list_all (\<lambda>a. \<not> matter_action a) as \<Longrightarrow> exec_actions pick bts as (core s) = Some d \<Longrightarrow>
   \<exists>t. fw_execs pick bts (map F_thread as) s = Some t \<and> core t = d \<and> pc t = pc s"
proof (induction as arbitrary: s)
  case (Cons a as)
  then obtain c where c: "exec_action pick bts a (core s) = Some c" "exec_actions pick bts as c = Some d"
    by (auto split: option.splits simp del: exec_action.simps)
  from Cons.IH [of "s\<lparr>core := c, jobs := jobs s @ notified_jobs a (core s)\<rparr>"] Cons.prems(1) c show ?case
    by (simp del: exec_action.simps)
qed simp

lemma wq_actions_frame:
  "list_all wq_action as \<Longrightarrow> list_all (\<lambda>a. \<not> matter_action a) as"
  "list_all wq_action as \<Longrightarrow> exec_actions pick bts as c = Some d \<Longrightarrow> clock d = clock c"
proof -
  show "list_all (\<lambda>a. \<not> matter_action a) as" if "list_all wq_action as"
    using that
  proof (induction as)
    case (Cons a as)
    then show ?case by (cases a) simp_all
  qed simp
  have one: "clock d = clock c" if "wq_action a" "exec_action pick bts a c = Some d" for a c and d :: "'a sys"
    using that by (cases a) (auto simp: run_handler_def Let_def commit_start_def split: option.splits if_splits)
  show "clock d = clock c" if "list_all wq_action as" "exec_actions pick bts as c = Some d"
    using that
  proof (induction as arbitrary: c)
    case (Cons a as)
    then obtain e where e: "exec_action pick bts a c = Some e" "exec_actions pick bts as e = Some d"
      by (auto split: option.splits simp del: exec_action.simps)
    with Cons one [of a c e] show ?case by simp
  qed simp
qed

lemma end_burst:
  assumes "pick_contract pick" "obs_inv c" "wq c = WIdle" "queue c = []" "s_scan_active (obs c)"
    and "clock c + BURST_TIMEOUT < 2 ^ 63"
  shows "\<exists>as d. list_all (\<lambda>a. \<not> matter_action a) as \<and> exec_actions pick bts as c = Some d \<and> wq d = WIdle \<and>
    \<not> s_scan_active (obs d) \<and> mt d = mt c \<and> clock d \<le> clock c + BURST_TIMEOUT"
proof -
  from assms(2,4,5) obtain dl where tm: "timer c = Some dl" "dl \<le> clock c + BURST_TIMEOUT"
    by (fastforce simp: obs_inv_def inv_timer_def inv_clock_def)
  have pk: "pick [TimeoutWork] TimeoutWork"
  proof -
    obtain w where "pick [TimeoutWork] w" using assms(1) unfolding pick_contract_def by blast
    moreover from this have "w \<in> set [TimeoutWork]" using assms(1) unfolding pick_contract_def by blast
    ultimately show ?thesis by simp
  qed
  let ?c = "max (clock c) dl"
  let ?n = "burst_captured (obs c) \<and> s_sample_cb (obs c) \<noteq> None"
  let ?as = "[A_tick ?c, A_expiry, A_run TimeoutWork, A_scan_stop E_OK, A_check] @ (if ?n then [A_notify] else [])"
  have "\<exists>d. exec_actions pick bts ?as c = Some d \<and> wq d = WIdle \<and> \<not> s_scan_active (obs d) \<and> mt d = mt c \<and>
      clock d \<le> clock c + BURST_TIMEOUT"
    using assms(3-6) tm pk
    by (auto simp: run_handler_def note_submit_def guarded_def burst_captured_def BURST_TIMEOUT_def stop_warning_def)
  then show ?thesis by (intro exI [of _ ?as]) simp
qed

lemma read_reports:
  assumes "fw_exec pick bts F_read s = Some t" "fw_inv s" "holds_since T s"
  shows "reported T t"
proof -
  from assms(1) have p: "published t = Some (clock (core s),
       if tilt_now (core s) = None then None else Some (s_tilt (obs (core s))))"
    by (auto split: matter_pc.splits)
  have "T + SAMPLE_MAX_AGE_MS < clock (core s)" if "tilt_now (core s) = None"
    using assms(2) that by (intro tilt_now_None [OF _ assms(3)]) (simp_all add: fw_inv_def)
  with p assms(3) show ?thesis by (auto simp: reported_def holds_since_def)
qed

text \<open>With the workqueue at rest and no burst, a due reading is a pending job.\<close>

lemma discharge_at_rest:
  assumes "kept T s" "boundary s" "wq (core s) = WIdle" "\<not> s_scan_active (obs (core s))"
  shows "\<exists>as t. fw_execs pick bts as s = Some t \<and> boundary t \<and> reported T t \<and> clock (core t) = clock (core s)"
proof (cases "reported T s")
  case True
  with assms(2) show ?thesis by (intro exI [of _ "[]"] exI [of _ s]) simp
next
  case False
  with assms have job: "ReportTiltWork_job \<in> set (jobs s)" by (auto simp: kept_def read_due_def boundary_def)
  let ?u = "s\<lparr>jobs := remove1 ReportTiltWork_job (jobs s), pc := M_tilt False\<rparr>"
  have u: "fw_exec pick bts F_tilt_job s = Some ?u"
    using assms(2) job by (simp add: boundary_def take_job_def)
  obtain v where v: "fw_exec pick bts F_read ?u = Some v" "pc v = M_ep2 (tilt_now (core s)) False" "core v = core s" by simp
  have k: "kept T ?u" by (rule kept.step_keeps [OF fw_exec_sound [OF u] assms(1)])
  then have r: "reported T v" using read_reports [OF v(1)] by (simp add: kept_def)
  obtain t where t: "fw_execs pick bts [F_ep2, F_ep3] v = Some t" "core t = core s" "pc t = M_idle" "published t = published v"
    using v(2,3) by simp
  have "fw_execs pick bts tilt_schedule s = Some t" using u v(1) t(1) by (simp add: tilt_schedule_def del: fw_exec.simps)
  then show ?thesis
    using r t assms(2) by (intro exI [of _ tilt_schedule] exI [of _ t]) (simp add: reported_def boundary_def)
qed

lemma discharge:
  assumes "pick_contract pick" "\<forall>b. \<exists>err. bts b err" "kept T s" "mt_free s" "clock (core s) + BURST_TIMEOUT < 2 ^ 63"
  shows "\<exists>as t. fw_execs pick bts as s = Some t \<and> boundary t \<and> reported T t \<and> kept T t \<and>
    clock (core t) \<le> clock (core s) + BURST_TIMEOUT"
proof -
  have keep: "kept T t" if "fw_execs pick bts as u = Some t" "kept T u" for as t u
    using kept.steps_keep [OF fw_execs_steps [OF that(1)] that(2)] .
  obtain as1 t1 where t1: "fw_execs pick bts as1 s = Some t1" "boundary t1" "clock (core t1) = clock (core s)"
    using finish_job [OF assms(4)] by blast
  have k1: "kept T t1" by (rule keep [OF t1(1) assms(3)])
  then have "obs_inv (core t1)" by (simp add: kept_def fw_inv_def)
  from wq_drain [OF assms(1,2) this] obtain bs d where d: "list_all wq_action bs"
    "exec_actions pick bts bs (core t1) = Some d" "wq d = WIdle" "queue d = []" "mt d = mt (core t1)" by blast
  from thread_execs [OF wq_actions_frame(1) [OF d(1)] d(2)] obtain t2 where
    t2: "fw_execs pick bts (map F_thread bs) t1 = Some t2" "core t2 = d" "pc t2 = pc t1" by blast
  have k2: "kept T t2" by (rule keep [OF t2(1) k1])
  have b2: "boundary t2" "clock d = clock (core s)"
    using t1(2,3) t2(2,3) d(5) wq_actions_frame(2) [OF d(1,2)] by (simp_all add: boundary_def)
  have "\<exists>cs t3. fw_execs pick bts cs t2 = Some t3 \<and> boundary t3 \<and> wq (core t3) = WIdle \<and>
      \<not> s_scan_active (obs (core t3)) \<and> clock (core t3) \<le> clock (core s) + BURST_TIMEOUT"
  proof (cases "s_scan_active (obs d)")
    case False
    with b2 t2(2) d(3) show ?thesis by (intro exI [of _ "[]"] exI [of _ t2]) (simp add: BURST_TIMEOUT_def)
  next
    case True
    have "obs_inv d" using k2 t2(2) by (simp add: kept_def fw_inv_def)
    from end_burst [OF assms(1) this d(3,4) True, of bts] assms(5) b2(2) obtain cs e where
      e: "list_all (\<lambda>a. \<not> matter_action a) cs" "exec_actions pick bts cs (core t2) = Some e" "wq e = WIdle"
      "\<not> s_scan_active (obs e)" "mt e = mt d" "clock e \<le> clock d + BURST_TIMEOUT" using t2(2) by auto
    from thread_execs [OF e(1,2)] obtain t3 where
      "fw_execs pick bts (map F_thread cs) t2 = Some t3" "core t3 = e" "pc t3 = pc t2" by blast
    with e b2 t2(2) show ?thesis by (intro exI [of _ "map F_thread cs"] exI [of _ t3]) (simp add: boundary_def)
  qed
  then obtain cs t3 where t3: "fw_execs pick bts cs t2 = Some t3" "boundary t3" "wq (core t3) = WIdle"
    "\<not> s_scan_active (obs (core t3))" "clock (core t3) \<le> clock (core s) + BURST_TIMEOUT" by blast
  have k3: "kept T t3" by (rule keep [OF t3(1) k2])
  from discharge_at_rest [OF k3 t3(2-4)] obtain ds t where
    t: "fw_execs pick bts ds t3 = Some t" "boundary t" "reported T t" "clock (core t) = clock (core t3)" by blast
  have "fw_execs pick bts (as1 @ map F_thread bs @ cs @ ds) s = Some t"
    using t1(1) t2(1) t3(1) t(1) by (simp add: fw_execs_append)
  with t t3(5) keep [OF t(1) k3] show ?thesis by metis
qed

section \<open>Demonstration run\<close>

text \<open>A commissioned device: the first report triggers a burst, an advert arrives 1.5 s later.\<close>

definition burst_schedule :: "fw_action list" where
  "burst_schedule =
    [F_call A_trigger_submit, F_thread (A_run StartWork), F_thread (A_scan_start E_OK),
     F_thread A_commit, F_thread (A_tick 1500), F_thread (A_store (Some demo_advert) 25),
     F_thread A_rx_submit, F_thread (A_run StopWork), F_thread (A_scan_stop E_OK),
     F_thread A_check]"

definition demo_run :: "sensor_answer \<Rightarrow> fw_action list" where
  "demo_run ans = F_gate_job 1 # F_timer # report_schedule ans @ burst_schedule"

lemmas fw_run_simps =
  run_simps fw_init_def take_job_def IsCommissioned_def scheduled_jobs_def ReportTimerHandler_def
  run_sample_cb_def tilt_now_def tilt_reading_eq SAMPLE_MAX_AGE_MS_def on_core_def boundary_def
  report_schedule_def burst_schedule_def tilt_schedule_def demo_run_def

lemma demo_captured:
  "\<exists>s. fw_execs fifo bt_host (demo_run ans) (fw_init a) = Some s \<and>
     wq (core s) = WNotify \<and> boundary s \<and> clock (core s) = 1500 \<and>
     s_tilt (obs (core s)) =
       \<lparr>temp_centi_c = 2000, gravity_x1000 = 1012, timestamp_ms = 1500, valid = True\<rparr>"
  by (simp add: fw_run_simps)

lemma demo_published:
  "\<exists>s. fw_execs fifo bt_host (demo_run ans @ F_thread A_notify # tilt_schedule) (fw_init a) = Some s \<and>
     boundary s \<and> clock (core s) = 1500 \<and>
     attrs s EP2 = Some (Some 2000) \<and> attrs s EP3 = Some (Some 1012) \<and>
     published s = Some (1500,
       Some \<lparr>temp_centi_c = 2000, gravity_x1000 = 1012, timestamp_ms = 1500, valid = True\<rparr>)"
  by (simp add: fw_run_simps)

text \<open>The same run up to the advert, in the active burst.\<close>

lemma demo_advert_stored:
  "\<exists>s. fw_execs fifo bt_host (F_gate_job 1 # F_timer # report_schedule ans @ take 6 burst_schedule) (fw_init a) = Some s \<and>
     s_scan_active (obs (core s)) \<and> burst_captured (obs (core s)) \<and> clock (core s) = 1500 \<and>
     sint (timestamp_ms (s_tilt (obs (core s)))) = 1500"
  by (simp add: fw_run_simps)

section \<open>Properties\<close>

text \<open>C1. Whatever the interleaving of the threads, between two jobs of the Matter thread the values
  published on EP2 and EP3 belong together: neither was written yet, both are null, or both are the
  decoded values of one advertising element that was received and stored in this run. A temperature
  and a gravity of two different adverts are never published together.\<close>

theorem published_values_paired:
  assumes "fw_reach pick bts a s" "pc s = M_idle"
  shows "(attrs s EP2, attrs s EP3) \<in> {(None, None), (Some None, Some None)} \<or>
    (\<exists>t g tm mfg len. attrs s EP2 = Some (Some t) \<and> attrs s EP3 = Some (Some g) \<and>
       (tm, mfg, len) \<in> set (adverts (core s)) \<and> tilt_black_decode mfg len = Inr (Some (t, g)))"
proof -
  from fw_reach_inv [OF assms(1)] assms(2) have ok: "published_ok s"
    and m: "attrs s EP2 = map_option (map_option fst) (published_pair s)"
      "attrs s EP3 = map_option (map_option snd) (published_pair s)"
    by (auto simp: fw_inv_def)
  show ?thesis
  proof (cases "published_pair s")
    case None
    with m show ?thesis by simp
  next
    case (Some r)
    with m ok show ?thesis
      by (cases r) (auto simp: published_pair_def published_ok_def received_def sample_pair_def)
  qed
qed

theorem published_values_paired_witness:
  "\<exists>s. fw_reach fifo bt_host \<lparr>s_ready = True\<rparr> s \<and> attrs s EP2 = Some (Some 2000) \<and>
     (\<exists>t g tm mfg len. attrs s EP2 = Some (Some t) \<and> attrs s EP3 = Some (Some g) \<and>
        (tm, mfg, len) \<in> set (adverts (core s)) \<and> tilt_black_decode mfg len = Inr (Some (t, g)))"
proof -
  obtain s ans where "fw_execs fifo bt_host (demo_run ans @ F_thread A_notify # tilt_schedule)
      (fw_init \<lparr>s_ready = True\<rparr>) = Some s" "boundary s" "attrs s EP2 = Some (Some 2000)"
    using demo_published by blast
  moreover from this have "fw_reach fifo bt_host \<lparr>s_ready = True\<rparr> s" by (blast intro: fw_from_init)
  ultimately show ?thesis
    using published_values_paired [of fifo bt_host "\<lparr>s_ready = True\<rparr>" s]
    by (intro exI [of _ s] conjI) (simp_all add: boundary_def)
qed

text \<open>C10. How old a published measurement can be: at most ten minutes when the report read it, so at
  most ten minutes and \<open>P\<close> milliseconds while the last report is at most \<open>P\<close> old. With the report
  period of one minute a client never reads a brew temperature older than eleven minutes.\<close>

theorem published_age_bounded:
  assumes "fw_reach pick bts a s" "pc s = M_idle" "published s = Some (tm, q)"
    "clock (core s) \<le> tm + P" "attrs s EP2 = Some (Some t)"
  shows "\<exists>p. q = Some p \<and> temp_centi_c p = t \<and> attrs s EP3 = Some (Some (gravity_x1000 p)) \<and>
    clock (core s) - sint (timestamp_ms p) \<le> 600000 + P"
proof -
  from fw_reach_inv [OF assms(1)] assms(2) have ok: "published_ok s"
    and m: "attrs s EP2 = map_option (map_option fst) (published_pair s)"
      "attrs s EP3 = map_option (map_option snd) (published_pair s)"
    by (auto simp: fw_inv_def)
  show ?thesis
    using ok m assms(3-5)
    by (cases q) (auto simp: published_pair_def published_ok_def sample_pair_def SAMPLE_MAX_AGE_MS_def)
qed

theorem published_age_bounded_witness:
  "\<exists>s (p :: tilt_sample). fw_reach fifo bt_host \<lparr>s_ready = True\<rparr> s \<and>
     attrs s EP2 = Some (Some 2000) \<and> temp_centi_c p = 2000 \<and> clock (core s) - sint (timestamp_ms p) \<le> 600000 + 60000"
proof -
  obtain s ans q where s: "fw_execs fifo bt_host (demo_run ans @ F_thread A_notify # tilt_schedule)
      (fw_init \<lparr>s_ready = True\<rparr>) = Some s" "boundary s" "attrs s EP2 = Some (Some 2000)"
      "clock (core s) = 1500" "published s = Some (1500, q)"
    using demo_published by blast
  then have r: "fw_reach fifo bt_host \<lparr>s_ready = True\<rparr> s" by (blast intro: fw_from_init)
  have "\<exists>p. q = Some p \<and> temp_centi_c p = 2000 \<and>
      attrs s EP3 = Some (Some (gravity_x1000 p)) \<and>
      clock (core s) - sint (timestamp_ms p) \<le> 600000 + 60000"
    by (rule published_age_bounded [OF r _ s(5)]) (use s in \<open>simp_all add: boundary_def\<close>)
  then obtain p :: tilt_sample where "temp_centi_c p = 2000"
    "clock (core s) - sint (timestamp_ms p) \<le> 600000 + 60000" by blast
  with r s(3) show ?thesis by blast
qed

text \<open>C4. From advert to attribute. Once an advert has been stored at or after the recorded start of a
  burst, and that burst is active or ending, its publication cannot be lost: after any steps of any
  threads, either the last report has read this sample or a newer one (or found it more than ten
  minutes old), or a reading is still due, as the end of the burst, the callback, a pending report or
  a running one. And at every such moment some schedule of at most five seconds completes it: between
  two jobs the attributes then are the sample the report read, stored at that time or later, or null
  when it had become too old. The workqueue must serve its items, and \<open>bt_le_scan_start\<close> return.\<close>

theorem captured_sample_published:
  assumes "fw_reach pick bts a s" "burst_captured (obs (core s))"
    "s_scan_active (obs (core s)) \<or> wq (core s) = WStopping \<or> wq (core s) = WCheck \<or> wq (core s) = WNotify"
    and "T = sint (timestamp_ms (s_tilt (obs (core s))))" "(fw_step pick bts)\<^sup>*\<^sup>* s t"
    and "pick_contract pick" "\<forall>b. \<exists>err. bts b err" "clock (core t) + 5000 < 2 ^ 63"
  shows "(reported T t \<or> read_due t) \<and>
    (\<exists>as u tm q. fw_execs pick bts as t = Some u \<and> pc u = M_idle \<and> clock (core u) \<le> clock (core t) + 5000 \<and>
       published u = Some (tm, q) \<and> tm \<le> clock (core u) \<and>
       (case q of
          None \<Rightarrow> T + 600000 < tm \<and> attrs u EP2 = Some None \<and> attrs u EP3 = Some None
        | Some p \<Rightarrow> T \<le> sint (timestamp_ms p) \<and> received (core u) p \<and>
            attrs u EP2 = Some (Some (temp_centi_c p)) \<and> attrs u EP3 = Some (Some (gravity_x1000 p))))"
proof -
  have "s_sample_cb (obs (core s)) = Some TiltSampleReady"
    using sample_cb_const [OF fw_reach_core [OF assms(1)]] .
  with assms(2-4) have "kept T s"
    using fw_reach_inv [OF assms(1)] by (auto simp: kept_def holds_since_def read_due_def burst_captured_def)
  then have k: "kept T t" by (rule kept.steps_keep [OF assms(5)])
  have "mt_free t" by (rule mt_free.steps_keep [OF assms(5) fw_reach_mt_free [OF assms(1)]])
  from discharge [OF assms(6,7) k this] assms(8) obtain as u where
    u: "fw_execs pick bts as t = Some u" "boundary u" "reported T u" "kept T u" "clock (core u) \<le> clock (core t) + 5000"
    by (auto simp: BURST_TIMEOUT_def)
  then obtain tm q where p: "published u = Some (tm, q)"
    "case q of None \<Rightarrow> T + SAMPLE_MAX_AGE_MS < tm | Some p \<Rightarrow> T \<le> sint (timestamp_ms p)"
    by (auto simp: reported_def)
  from u(2,4) have ok: "published_ok u" and pc: "pc u = M_idle"
    and m: "attrs u EP2 = map_option (map_option fst) (published_pair u)"
      "attrs u EP3 = map_option (map_option snd) (published_pair u)"
    by (auto simp: kept_def fw_inv_def boundary_def)
  have "tm \<le> clock (core u) \<and> (case q of
          None \<Rightarrow> T + 600000 < tm \<and> attrs u EP2 = Some None \<and> attrs u EP3 = Some None
        | Some p \<Rightarrow> T \<le> sint (timestamp_ms p) \<and> received (core u) p \<and>
            attrs u EP2 = Some (Some (temp_centi_c p)) \<and> attrs u EP3 = Some (Some (gravity_x1000 p)))"
    using ok m p by (cases q) (auto simp: published_ok_def published_pair_def sample_pair_def SAMPLE_MAX_AGE_MS_def)
  with k u p(1) pc show ?thesis unfolding kept_def by blast
qed

theorem captured_sample_published_witness:
  "\<exists>s as u tm q. fw_reach fifo bt_host \<lparr>s_ready = True\<rparr> s \<and> s_scan_active (obs (core s)) \<and> clock (core s) = 1500 \<and>
     fw_execs fifo bt_host as s = Some u \<and> published u = Some (tm, Some q) \<and> 1500 \<le> sint (timestamp_ms q) \<and>
     attrs u EP2 = Some (Some (temp_centi_c q)) \<and> attrs u EP3 = Some (Some (gravity_x1000 q))"
proof -
  obtain s ans where s: "fw_execs fifo bt_host (F_gate_job 1 # F_timer # report_schedule ans @ take 6 burst_schedule)
        (fw_init \<lparr>s_ready = True\<rparr>) = Some s"
      "s_scan_active (obs (core s))" "burst_captured (obs (core s))" "clock (core s) = 1500"
      "1500 = sint (timestamp_ms (s_tilt (obs (core s))))"
    using demo_advert_stored by metis
  have r: "fw_reach fifo bt_host \<lparr>s_ready = True\<rparr> s" using s(1) by (rule fw_from_init)
  have p: "pick_contract fifo" by (auto simp: pick_contract_def neq_Nil_conv elim: fifo.elims)
  have b: "\<forall>b. \<exists>err. bt_host b err" by (auto simp: bt_host_def)
  from captured_sample_published [OF r s(3) disjI1 [OF s(2)] s(5) rtranclp.rtrancl_refl p b] s(4)
  obtain as u tm q where u: "fw_execs fifo bt_host as s = Some u" "clock (core u) \<le> 6500" "published u = Some (tm, q)"
    "tm \<le> clock (core u)" "case q of
          None \<Rightarrow> 1500 + 600000 < tm \<and> attrs u EP2 = Some None \<and> attrs u EP3 = Some None
        | Some p \<Rightarrow> 1500 \<le> sint (timestamp_ms p) \<and> received (core u) p \<and>
            attrs u EP2 = Some (Some (temp_centi_c p)) \<and> attrs u EP3 = Some (Some (gravity_x1000 p))"
    by auto
  then obtain p where "q = Some p" by (cases q) auto
  with r s(2,4) u show ?thesis by fastforce
qed

text \<open>C19. The jobs and the event handler of the application are runs of these steps: from a state
  between two jobs, each pending job and each device event has the run written out here, without
  interruption, and it does what the modelled function says, for every answer of the sensor and
  every fabric count: the attributes it writes, the state of the observer, the calls in their order
  and the work they submit. A job is taken from the queue once.\<close>

theorem jobs_refine_app_task:
  assumes "boundary s"
  shows "(ReportTiltWork_job \<in> set (jobs s) \<longrightarrow>
       (\<exists>t. fw_execs pick bts tilt_schedule s = Some t \<and> jobs t = remove1 ReportTiltWork_job (jobs s) \<and>
          has_effect (fw_app s, ReportTiltWork (uptime (core s)) (obs (core s))) s t)) \<and>
    (ReportWork_job \<in> set (jobs s) \<longrightarrow>
       (\<exists>t. fw_execs pick bts (report_run ans s) s = Some t \<and> jobs t = remove1 ReportWork_job (jobs s) \<and>
          has_effect (ReportWork (uptime (core s)) ans (fw_app s)) s t)) \<and>
    (ApplyInitialObserverGate_job \<in> set (jobs s) \<longrightarrow>
       (\<exists>t. fw_execs pick bts (gate_run n) s = Some t \<and> jobs t = remove1 ApplyInitialObserverGate_job (jobs s) \<and>
          has_effect (ApplyInitialObserverGate n (fw_app s)) s t)) \<and>
    (\<exists>t. fw_execs pick bts (event_run n ev) s = Some t \<and> jobs t = jobs s \<and>
       has_effect (AppBleObserverPolicy n ev (fw_app s)) s t)"
  using tilt_job_run [OF assms] report_job_run [OF assms] gate_job_run [OF assms] event_runs [OF assms] by blast

theorem jobs_refine_app_task_witness:
  "\<exists>t. fw_execs fifo bt_host [F_gate_job 1] (fw_init \<lparr>s_ready = True\<rparr>) = Some t \<and> jobs t = [] \<and>
     app_gate_open (fw_app t)"
proof -
  let ?s = "fw_init \<lparr>s_ready = True\<rparr>"
  have b: "boundary ?s" and j: "ApplyInitialObserverGate_job \<in> set (jobs ?s)"
    by (simp_all add: boundary_def fw_init_def sys_init_def)
  from jobs_refine_app_task [OF b, of fifo bt_host undefined 1 OtherEvent] j
  obtain t where t: "fw_execs fifo bt_host (gate_run 1) ?s = Some t"
    "jobs t = remove1 ApplyInitialObserverGate_job (jobs ?s)"
    "has_effect (ApplyInitialObserverGate 1 (fw_app ?s)) ?s t" by blast
  have "gate_run 1 = [F_gate_job 1]" "jobs t = []"
    using t(2) by (simp_all add: gate_run_def IsCommissioned_def fw_init_def)
  moreover have "app_gate_open (fw_app t)"
    using t(3) by (simp add: has_effect_def ApplyInitialObserverGate_def IsCommissioned_def split: prod.split)
  ultimately show ?thesis using t(1) by auto
qed

end
