(* ===== verification/Matter_Config.thy ===== *)
theory Matter_Config
  imports App_Task
begin

text \<open>
  The data model of the Matter endpoints (\<^verbatim>\<open>default_zap/zap-generated/endpoint_config.h\<close>):
  the attribute, command and cluster tables the Matter stack is built with, transcribed entry by
  entry. The stack that interprets them is not under the repository; the lemmas are about the
  tables themselves: the index ranges tile them, the declared sizes are the sums of the sizes of
  the attributes kept in RAM, and every attribute the application writes exists with the width,
  the type and the nullability the write needs.
\<close>

section \<open>Tables\<close>

datatype zap_type = ZT_ARRAY | ZT_BITMAP32 | ZT_BOOLEAN | ZT_CHAR_STRING | ZT_ENUM8 | ZT_FABRIC_IDX | ZT_INT16U | ZT_INT32S | ZT_INT32U | ZT_INT64U | ZT_INT8U | ZT_OCTET_STRING | ZT_STRUCT | ZT_TEMPERATURE | ZT_VENDOR_ID

datatype attr_flag = M_EXTERNAL_STORAGE | M_NULLABLE | M_READABLE | M_WRITABLE

text \<open>Default value (\<open>None\<close> for \<open>ZAP_EMPTY_DEFAULT\<close>), attribute id, size in bytes, type, mask.\<close>

datatype attribute =
  Attr (a_default: "int option") (a_id: nat) (a_size: nat) (a_type: zap_type)
    (a_mask: "attr_flag list")

datatype command = Cmd nat | End_of_list

text \<open>Cluster id, index of the first attribute, number of attributes, size in bytes, and the indices
  of the accepted and generated command lists (\<open>None\<close> for \<open>nullptr\<close>). The other fields are
  the same in every entry: the server mask, no functions and no events.\<close>

datatype cluster_meta =
  Cluster (c_id: nat) (c_attrs: nat) (c_count: nat) (c_size: nat)
    (c_accepted: "nat option") (c_generated: "nat option")

definition attrs_ep0_Descriptor :: "attribute list" where
  "attrs_ep0_Descriptor =
    [Attr None 0x00000000 0 ZT_ARRAY [M_EXTERNAL_STORAGE, M_READABLE],
     Attr None 0x00000001 0 ZT_ARRAY [M_EXTERNAL_STORAGE, M_READABLE],
     Attr None 0x00000002 0 ZT_ARRAY [M_EXTERNAL_STORAGE, M_READABLE],
     Attr None 0x00000003 0 ZT_ARRAY [M_EXTERNAL_STORAGE, M_READABLE],
     Attr None 0x0000FFFC 4 ZT_BITMAP32 [M_EXTERNAL_STORAGE, M_READABLE],
     Attr None 0x0000FFFD 2 ZT_INT16U [M_EXTERNAL_STORAGE, M_READABLE]]"

definition attrs_ep0_AccessControl :: "attribute list" where
  "attrs_ep0_AccessControl =
    [Attr None 0x00000000 0 ZT_ARRAY [M_EXTERNAL_STORAGE, M_WRITABLE, M_READABLE],
     Attr None 0x00000002 2 ZT_INT16U [M_EXTERNAL_STORAGE, M_READABLE],
     Attr None 0x00000003 2 ZT_INT16U [M_EXTERNAL_STORAGE, M_READABLE],
     Attr None 0x00000004 2 ZT_INT16U [M_EXTERNAL_STORAGE, M_READABLE],
     Attr None 0x0000FFFC 4 ZT_BITMAP32 [M_EXTERNAL_STORAGE, M_READABLE],
     Attr None 0x0000FFFD 2 ZT_INT16U [M_EXTERNAL_STORAGE, M_READABLE]]"

definition attrs_ep0_BasicInformation :: "attribute list" where
  "attrs_ep0_BasicInformation =
    [Attr None 0x00000000 2 ZT_INT16U [M_EXTERNAL_STORAGE, M_READABLE],
     Attr None 0x00000001 33 ZT_CHAR_STRING [M_EXTERNAL_STORAGE, M_READABLE],
     Attr None 0x00000002 2 ZT_VENDOR_ID [M_EXTERNAL_STORAGE, M_READABLE],
     Attr None 0x00000003 33 ZT_CHAR_STRING [M_EXTERNAL_STORAGE, M_READABLE],
     Attr None 0x00000004 2 ZT_INT16U [M_EXTERNAL_STORAGE, M_READABLE],
     Attr None 0x00000005 33 ZT_CHAR_STRING [M_EXTERNAL_STORAGE, M_WRITABLE, M_READABLE],
     Attr None 0x00000006 3 ZT_CHAR_STRING [M_EXTERNAL_STORAGE, M_WRITABLE, M_READABLE],
     Attr None 0x00000007 2 ZT_INT16U [M_EXTERNAL_STORAGE, M_READABLE],
     Attr None 0x00000008 65 ZT_CHAR_STRING [M_EXTERNAL_STORAGE, M_READABLE],
     Attr None 0x00000009 4 ZT_INT32U [M_EXTERNAL_STORAGE, M_READABLE],
     Attr None 0x0000000A 65 ZT_CHAR_STRING [M_EXTERNAL_STORAGE, M_READABLE],
     Attr None 0x00000012 33 ZT_CHAR_STRING [M_EXTERNAL_STORAGE, M_READABLE],
     Attr None 0x00000013 0 ZT_STRUCT [M_EXTERNAL_STORAGE, M_READABLE],
     Attr None 0x00000015 4 ZT_INT32U [M_EXTERNAL_STORAGE, M_READABLE],
     Attr None 0x00000016 2 ZT_INT16U [M_EXTERNAL_STORAGE, M_READABLE],
     Attr None 0x00000018 4 ZT_INT32U [M_EXTERNAL_STORAGE, M_READABLE],
     Attr None 0x0000FFFC 4 ZT_BITMAP32 [M_EXTERNAL_STORAGE, M_READABLE],
     Attr None 0x0000FFFD 2 ZT_INT16U [M_EXTERNAL_STORAGE, M_READABLE]]"

definition attrs_ep0_OTASoftwareUpdateRequestor :: "attribute list" where
  "attrs_ep0_OTASoftwareUpdateRequestor =
    [Attr None 0x00000000 0 ZT_ARRAY [M_EXTERNAL_STORAGE, M_WRITABLE, M_READABLE],
     Attr (Some 1) 0x00000001 1 ZT_BOOLEAN [M_READABLE],
     Attr (Some 0) 0x00000002 1 ZT_ENUM8 [M_READABLE],
     Attr None 0x00000003 1 ZT_INT8U [M_READABLE, M_NULLABLE],
     Attr (Some 0) 0x0000FFFC 4 ZT_BITMAP32 [M_READABLE],
     Attr (Some 1) 0x0000FFFD 2 ZT_INT16U [M_READABLE]]"

definition attrs_ep0_LocalizationConfiguration :: "attribute list" where
  "attrs_ep0_LocalizationConfiguration =
    [Attr None 0x00000000 36 ZT_CHAR_STRING [M_WRITABLE, M_READABLE],
     Attr None 0x00000001 0 ZT_ARRAY [M_EXTERNAL_STORAGE, M_READABLE],
     Attr (Some 0) 0x0000FFFC 4 ZT_BITMAP32 [M_READABLE],
     Attr None 0x0000FFFD 2 ZT_INT16U [M_EXTERNAL_STORAGE, M_READABLE]]"

definition attrs_ep0_GeneralCommissioning :: "attribute list" where
  "attrs_ep0_GeneralCommissioning =
    [Attr None 0x00000000 8 ZT_INT64U [M_EXTERNAL_STORAGE, M_WRITABLE, M_READABLE],
     Attr None 0x00000001 0 ZT_STRUCT [M_EXTERNAL_STORAGE, M_READABLE],
     Attr None 0x00000002 1 ZT_ENUM8 [M_EXTERNAL_STORAGE, M_READABLE],
     Attr None 0x00000003 1 ZT_ENUM8 [M_EXTERNAL_STORAGE, M_READABLE],
     Attr None 0x00000004 1 ZT_BOOLEAN [M_EXTERNAL_STORAGE, M_READABLE],
     Attr None 0x0000FFFC 4 ZT_BITMAP32 [M_EXTERNAL_STORAGE, M_READABLE],
     Attr None 0x0000FFFD 2 ZT_INT16U [M_EXTERNAL_STORAGE, M_READABLE]]"

definition attrs_ep0_NetworkCommissioning :: "attribute list" where
  "attrs_ep0_NetworkCommissioning =
    [Attr None 0x00000000 1 ZT_INT8U [M_EXTERNAL_STORAGE, M_READABLE],
     Attr None 0x00000001 0 ZT_ARRAY [M_EXTERNAL_STORAGE, M_READABLE],
     Attr None 0x00000004 1 ZT_BOOLEAN [M_EXTERNAL_STORAGE, M_WRITABLE, M_READABLE],
     Attr None 0x00000005 1 ZT_ENUM8 [M_EXTERNAL_STORAGE, M_READABLE, M_NULLABLE],
     Attr None 0x00000006 33 ZT_OCTET_STRING [M_EXTERNAL_STORAGE, M_READABLE, M_NULLABLE],
     Attr None 0x00000007 4 ZT_INT32S [M_EXTERNAL_STORAGE, M_READABLE, M_NULLABLE],
     Attr None 0x0000FFFC 4 ZT_BITMAP32 [M_EXTERNAL_STORAGE, M_READABLE],
     Attr None 0x0000FFFD 2 ZT_INT16U [M_EXTERNAL_STORAGE, M_READABLE]]"

definition attrs_ep0_GeneralDiagnostics :: "attribute list" where
  "attrs_ep0_GeneralDiagnostics =
    [Attr None 0x00000000 0 ZT_ARRAY [M_EXTERNAL_STORAGE, M_READABLE],
     Attr None 0x00000001 2 ZT_INT16U [M_EXTERNAL_STORAGE, M_READABLE],
     Attr None 0x00000002 8 ZT_INT64U [M_EXTERNAL_STORAGE, M_READABLE],
     Attr None 0x00000008 1 ZT_BOOLEAN [M_READABLE],
     Attr None 0x0000FFFC 4 ZT_BITMAP32 [M_EXTERNAL_STORAGE, M_READABLE],
     Attr None 0x0000FFFD 2 ZT_INT16U [M_EXTERNAL_STORAGE, M_READABLE]]"

definition attrs_ep0_AdministratorCommissioning :: "attribute list" where
  "attrs_ep0_AdministratorCommissioning =
    [Attr None 0x00000000 1 ZT_ENUM8 [M_EXTERNAL_STORAGE, M_READABLE],
     Attr None 0x00000001 1 ZT_FABRIC_IDX [M_EXTERNAL_STORAGE, M_READABLE, M_NULLABLE],
     Attr None 0x00000002 2 ZT_VENDOR_ID [M_EXTERNAL_STORAGE, M_READABLE, M_NULLABLE],
     Attr (Some 0) 0x0000FFFC 4 ZT_BITMAP32 [M_READABLE],
     Attr None 0x0000FFFD 2 ZT_INT16U [M_EXTERNAL_STORAGE, M_READABLE]]"

definition attrs_ep0_OperationalCredentials :: "attribute list" where
  "attrs_ep0_OperationalCredentials =
    [Attr None 0x00000000 0 ZT_ARRAY [M_EXTERNAL_STORAGE, M_READABLE],
     Attr None 0x00000001 0 ZT_ARRAY [M_EXTERNAL_STORAGE, M_READABLE],
     Attr None 0x00000002 1 ZT_INT8U [M_EXTERNAL_STORAGE, M_READABLE],
     Attr None 0x00000003 1 ZT_INT8U [M_EXTERNAL_STORAGE, M_READABLE],
     Attr None 0x00000004 0 ZT_ARRAY [M_EXTERNAL_STORAGE, M_READABLE],
     Attr None 0x00000005 1 ZT_INT8U [M_EXTERNAL_STORAGE, M_READABLE],
     Attr None 0x0000FFFC 4 ZT_BITMAP32 [M_EXTERNAL_STORAGE, M_READABLE],
     Attr None 0x0000FFFD 2 ZT_INT16U [M_EXTERNAL_STORAGE, M_READABLE]]"

definition attrs_ep0_GroupKeyManagement :: "attribute list" where
  "attrs_ep0_GroupKeyManagement =
    [Attr None 0x00000000 0 ZT_ARRAY [M_EXTERNAL_STORAGE, M_WRITABLE, M_READABLE],
     Attr None 0x00000001 0 ZT_ARRAY [M_EXTERNAL_STORAGE, M_READABLE],
     Attr None 0x00000002 2 ZT_INT16U [M_EXTERNAL_STORAGE, M_READABLE],
     Attr None 0x00000003 2 ZT_INT16U [M_EXTERNAL_STORAGE, M_READABLE],
     Attr None 0x0000FFFC 4 ZT_BITMAP32 [M_EXTERNAL_STORAGE, M_READABLE],
     Attr None 0x0000FFFD 2 ZT_INT16U [M_EXTERNAL_STORAGE, M_READABLE]]"

definition attrs_ep1_Identify :: "attribute list" where
  "attrs_ep1_Identify =
    [Attr None 0x00000000 2 ZT_INT16U [M_EXTERNAL_STORAGE, M_WRITABLE, M_READABLE],
     Attr None 0x00000001 1 ZT_ENUM8 [M_EXTERNAL_STORAGE, M_READABLE],
     Attr None 0x0000FFFC 4 ZT_BITMAP32 [M_EXTERNAL_STORAGE, M_READABLE],
     Attr None 0x0000FFFD 2 ZT_INT16U [M_EXTERNAL_STORAGE, M_READABLE]]"

definition attrs_ep1_Descriptor :: "attribute list" where
  "attrs_ep1_Descriptor =
    [Attr None 0x00000000 0 ZT_ARRAY [M_EXTERNAL_STORAGE, M_READABLE],
     Attr None 0x00000001 0 ZT_ARRAY [M_EXTERNAL_STORAGE, M_READABLE],
     Attr None 0x00000002 0 ZT_ARRAY [M_EXTERNAL_STORAGE, M_READABLE],
     Attr None 0x00000003 0 ZT_ARRAY [M_EXTERNAL_STORAGE, M_READABLE],
     Attr None 0x0000FFFC 4 ZT_BITMAP32 [M_EXTERNAL_STORAGE, M_READABLE],
     Attr None 0x0000FFFD 2 ZT_INT16U [M_EXTERNAL_STORAGE, M_READABLE]]"

definition attrs_ep1_TemperatureMeasurement :: "attribute list" where
  "attrs_ep1_TemperatureMeasurement =
    [Attr None 0x00000000 2 ZT_TEMPERATURE [M_READABLE, M_NULLABLE],
     Attr None 0x00000001 2 ZT_TEMPERATURE [M_READABLE, M_NULLABLE],
     Attr None 0x00000002 2 ZT_TEMPERATURE [M_READABLE, M_NULLABLE],
     Attr (Some 0) 0x0000FFFC 4 ZT_BITMAP32 [M_READABLE],
     Attr (Some 4) 0x0000FFFD 2 ZT_INT16U [M_READABLE]]"

definition attrs_ep2_Identify :: "attribute list" where
  "attrs_ep2_Identify =
    [Attr None 0x00000000 2 ZT_INT16U [M_EXTERNAL_STORAGE, M_WRITABLE, M_READABLE],
     Attr None 0x00000001 1 ZT_ENUM8 [M_EXTERNAL_STORAGE, M_READABLE],
     Attr None 0x0000FFFC 4 ZT_BITMAP32 [M_EXTERNAL_STORAGE, M_READABLE],
     Attr None 0x0000FFFD 2 ZT_INT16U [M_EXTERNAL_STORAGE, M_READABLE]]"

definition attrs_ep2_Descriptor :: "attribute list" where
  "attrs_ep2_Descriptor =
    [Attr None 0x00000000 0 ZT_ARRAY [M_EXTERNAL_STORAGE, M_READABLE],
     Attr None 0x00000001 0 ZT_ARRAY [M_EXTERNAL_STORAGE, M_READABLE],
     Attr None 0x00000002 0 ZT_ARRAY [M_EXTERNAL_STORAGE, M_READABLE],
     Attr None 0x00000003 0 ZT_ARRAY [M_EXTERNAL_STORAGE, M_READABLE],
     Attr None 0x0000FFFC 4 ZT_BITMAP32 [M_EXTERNAL_STORAGE, M_READABLE],
     Attr None 0x0000FFFD 2 ZT_INT16U [M_EXTERNAL_STORAGE, M_READABLE]]"

definition attrs_ep2_TemperatureMeasurement :: "attribute list" where
  "attrs_ep2_TemperatureMeasurement =
    [Attr None 0x00000000 2 ZT_TEMPERATURE [M_READABLE, M_NULLABLE],
     Attr None 0x00000001 2 ZT_TEMPERATURE [M_READABLE, M_NULLABLE],
     Attr None 0x00000002 2 ZT_TEMPERATURE [M_READABLE, M_NULLABLE],
     Attr (Some 0) 0x0000FFFC 4 ZT_BITMAP32 [M_READABLE],
     Attr (Some 4) 0x0000FFFD 2 ZT_INT16U [M_READABLE]]"

definition attrs_ep3_Identify :: "attribute list" where
  "attrs_ep3_Identify =
    [Attr None 0x00000000 2 ZT_INT16U [M_EXTERNAL_STORAGE, M_WRITABLE, M_READABLE],
     Attr None 0x00000001 1 ZT_ENUM8 [M_EXTERNAL_STORAGE, M_READABLE],
     Attr None 0x0000FFFC 4 ZT_BITMAP32 [M_EXTERNAL_STORAGE, M_READABLE],
     Attr None 0x0000FFFD 2 ZT_INT16U [M_EXTERNAL_STORAGE, M_READABLE]]"

definition attrs_ep3_Descriptor :: "attribute list" where
  "attrs_ep3_Descriptor =
    [Attr None 0x00000000 0 ZT_ARRAY [M_EXTERNAL_STORAGE, M_READABLE],
     Attr None 0x00000001 0 ZT_ARRAY [M_EXTERNAL_STORAGE, M_READABLE],
     Attr None 0x00000002 0 ZT_ARRAY [M_EXTERNAL_STORAGE, M_READABLE],
     Attr None 0x00000003 0 ZT_ARRAY [M_EXTERNAL_STORAGE, M_READABLE],
     Attr None 0x0000FFFC 4 ZT_BITMAP32 [M_EXTERNAL_STORAGE, M_READABLE],
     Attr None 0x0000FFFD 2 ZT_INT16U [M_EXTERNAL_STORAGE, M_READABLE]]"

definition attrs_ep3_RelativeHumidityMeasurement :: "attribute list" where
  "attrs_ep3_RelativeHumidityMeasurement =
    [Attr None 0x00000000 2 ZT_INT16U [M_READABLE, M_NULLABLE],
     Attr None 0x00000001 2 ZT_INT16U [M_READABLE, M_NULLABLE],
     Attr None 0x00000002 2 ZT_INT16U [M_READABLE, M_NULLABLE],
     Attr (Some 0) 0x0000FFFC 4 ZT_BITMAP32 [M_READABLE],
     Attr (Some 3) 0x0000FFFD 2 ZT_INT16U [M_READABLE]]"

definition GENERATED_ATTRIBUTES :: "attribute list" where
  "GENERATED_ATTRIBUTES =
    attrs_ep0_Descriptor @
    attrs_ep0_AccessControl @
    attrs_ep0_BasicInformation @
    attrs_ep0_OTASoftwareUpdateRequestor @
    attrs_ep0_LocalizationConfiguration @
    attrs_ep0_GeneralCommissioning @
    attrs_ep0_NetworkCommissioning @
    attrs_ep0_GeneralDiagnostics @
    attrs_ep0_AdministratorCommissioning @
    attrs_ep0_OperationalCredentials @
    attrs_ep0_GroupKeyManagement @
    attrs_ep1_Identify @
    attrs_ep1_Descriptor @
    attrs_ep1_TemperatureMeasurement @
    attrs_ep2_Identify @
    attrs_ep2_Descriptor @
    attrs_ep2_TemperatureMeasurement @
    attrs_ep3_Identify @
    attrs_ep3_Descriptor @
    attrs_ep3_RelativeHumidityMeasurement"

definition GENERATED_COMMANDS :: "command list" where
  "GENERATED_COMMANDS =
    [Cmd 0x00000000, Cmd 0x00000002, Cmd 0x00000004, End_of_list,
     Cmd 0x00000001, Cmd 0x00000003, Cmd 0x00000005, End_of_list,
     Cmd 0x00000000, Cmd 0x00000001, End_of_list,
     Cmd 0x00000002, End_of_list,
     Cmd 0x00000000, Cmd 0x00000002, End_of_list,
     Cmd 0x00000000, Cmd 0x00000002, Cmd 0x00000004, Cmd 0x00000006, Cmd 0x00000007,
     Cmd 0x00000009, Cmd 0x0000000A, Cmd 0x0000000B, Cmd 0x0000000C, Cmd 0x0000000D,
     End_of_list,
     Cmd 0x00000001, Cmd 0x00000003, Cmd 0x00000005, Cmd 0x00000008, Cmd 0x0000000E, End_of_list,
     Cmd 0x00000000, Cmd 0x00000001, Cmd 0x00000003, Cmd 0x00000004, End_of_list,
     Cmd 0x00000002, Cmd 0x00000005, End_of_list,
     Cmd 0x00000000, Cmd 0x00000040, End_of_list,
     Cmd 0x00000000, Cmd 0x00000040, End_of_list,
     Cmd 0x00000000, Cmd 0x00000040, End_of_list]"

definition clusters_ep0 :: "cluster_meta list" where
  "clusters_ep0 =
    [Cluster 0x0000001D 0 6 0 None None,
     Cluster 0x0000001F 6 6 0 None None,
     Cluster 0x00000028 12 18 0 None None,
     Cluster 0x0000002A 30 6 9 None None,
     Cluster 0x0000002B 36 4 40 None None,
     Cluster 0x00000030 40 7 0 (Some 0) (Some 4),
     Cluster 0x00000031 47 8 0 None None,
     Cluster 0x00000033 55 6 1 (Some 8) (Some 11),
     Cluster 0x0000003C 61 5 4 (Some 13) None,
     Cluster 0x0000003E 66 8 0 (Some 16) (Some 27),
     Cluster 0x0000003F 74 6 0 (Some 33) (Some 38)]"

definition clusters_ep1 :: "cluster_meta list" where
  "clusters_ep1 =
    [Cluster 0x00000003 80 4 0 (Some 41) None,
     Cluster 0x0000001D 84 6 0 None None,
     Cluster 0x00000402 90 5 12 None None]"

definition clusters_ep2 :: "cluster_meta list" where
  "clusters_ep2 =
    [Cluster 0x00000003 95 4 0 (Some 44) None,
     Cluster 0x0000001D 99 6 0 None None,
     Cluster 0x00000402 105 5 12 None None]"

definition clusters_ep3 :: "cluster_meta list" where
  "clusters_ep3 =
    [Cluster 0x00000003 110 4 0 (Some 47) None,
     Cluster 0x0000001D 114 6 0 None None,
     Cluster 0x00000405 120 5 12 None None]"

definition GENERATED_CLUSTERS :: "cluster_meta list" where
  "GENERATED_CLUSTERS = clusters_ep0 @ clusters_ep1 @ clusters_ep2 @ clusters_ep3"

definition GENERATED_ATTRIBUTE_COUNT :: "nat" where
  "GENERATED_ATTRIBUTE_COUNT = 125"

definition GENERATED_CLUSTER_COUNT :: "nat" where
  "GENERATED_CLUSTER_COUNT = 20"

definition ATTRIBUTE_LARGEST :: "nat" where
  "ATTRIBUTE_LARGEST = 66"

definition ATTRIBUTE_SINGLETONS_SIZE :: "nat" where
  "ATTRIBUTE_SINGLETONS_SIZE = 0"

definition ATTRIBUTE_MAX_SIZE :: "nat" where
  "ATTRIBUTE_MAX_SIZE = 90"

definition FIXED_ENDPOINT_COUNT :: "nat" where
  "FIXED_ENDPOINT_COUNT = 4"

definition FIXED_ENDPOINT_ARRAY :: "nat list" where
  "FIXED_ENDPOINT_ARRAY = [0, 1, 2, 3]"

definition FIXED_ENDPOINT_TYPES :: "nat list" where
  "FIXED_ENDPOINT_TYPES = [0, 1, 2, 3]"

definition FIXED_DEVICE_TYPES :: "(nat \<times> nat) list" where
  "FIXED_DEVICE_TYPES = [(0x16, 1), (0x302, 1), (0x302, 1), (0x307, 1)]"

definition FIXED_DEVICE_TYPE_OFFSETS :: "nat list" where
  "FIXED_DEVICE_TYPE_OFFSETS = [0, 1, 2, 3]"

definition FIXED_DEVICE_TYPE_LENGTHS :: "nat list" where
  "FIXED_DEVICE_TYPE_LENGTHS = [1, 1, 1, 1]"

definition GENERATED_ENDPOINT_TYPES :: "(nat \<times> nat \<times> nat) list" where
  "GENERATED_ENDPOINT_TYPES = [(0, 11, 54), (11, 3, 12), (14, 3, 12), (17, 3, 12)]"

section \<open>Reading the tables\<close>

definition attrs_of :: "cluster_meta \<Rightarrow> attribute list" where
  "attrs_of c = take (c_count c) (drop (c_attrs c) GENERATED_ATTRIBUTES)"

text \<open>Attributes without external storage are kept in the RAM of the data model.\<close>

definition in_ram :: "attribute \<Rightarrow> bool" where
  "in_ram a \<longleftrightarrow> M_EXTERNAL_STORAGE \<notin> set (a_mask a)"

definition ram_size :: "attribute list \<Rightarrow> nat" where
  "ram_size as = sum_list (map a_size (filter in_ram as))"

text \<open>Consecutive ranges, given by start and length, that cover exactly \<open>{i..<n}\<close>.\<close>

fun tiles :: "nat \<Rightarrow> (nat \<times> nat) list \<Rightarrow> nat \<Rightarrow> bool" where
  "tiles i [] n \<longleftrightarrow> i = n"
| "tiles i ((a, c) # rs) n \<longleftrightarrow> a = i \<and> tiles (i + c) rs n"

definition in_range :: "nat \<Rightarrow> nat \<times> nat \<Rightarrow> bool" where
  "in_range i r \<longleftrightarrow> fst r \<le> i \<and> i < fst r + snd r"

lemma tiles_le: "tiles i rs n \<Longrightarrow> i \<le> n"
  by (induction i rs n rule: tiles.induct) auto

lemma tiles_bounds: "tiles i rs n \<Longrightarrow> r \<in> set rs \<Longrightarrow> i \<le> fst r \<and> fst r + snd r \<le> n"
proof (induction i rs n rule: tiles.induct)
  case (2 i a c rs n)
  then have "i + c \<le> n" using tiles_le by auto
  with 2 show ?case by auto
qed simp

lemma tiles_unique:
  "tiles i rs n \<Longrightarrow> i \<le> j \<Longrightarrow> j < n \<Longrightarrow> \<exists>!k. k < length rs \<and> in_range j (rs ! k)"
proof (induction i rs n rule: tiles.induct)
  case (2 i a c rs n)
  show ?case
  proof (cases "j < i + c")
    case True
    have "\<not> in_range j (rs ! k)" if "k < length rs" for k
      using 2(2) True that tiles_bounds [of "i + c" rs n "rs ! k"] by (auto simp: in_range_def)
    with 2 True show ?thesis
      by (intro ex1I [of _ 0]) (auto simp: in_range_def nth_Cons split: nat.splits)
  next
    case False
    with 2 obtain k where k: "k < length rs" "in_range j (rs ! k)"
      and u: "\<And>m. m < length rs \<Longrightarrow> in_range j (rs ! m) \<Longrightarrow> m = k" by auto
    from k False 2(2) show ?thesis
      by (intro ex1I [of _ "Suc k"]) (auto simp: in_range_def nth_Cons dest: u split: nat.splits)
  qed
qed simp

text \<open>The clusters of an endpoint, through the endpoint and endpoint type arrays.\<close>

definition endpoint_clusters :: "nat \<Rightarrow> cluster_meta list" where
  "endpoint_clusters ep =
     (case find (\<lambda>p. fst p = ep) (zip FIXED_ENDPOINT_ARRAY FIXED_ENDPOINT_TYPES) of
        None \<Rightarrow> []
      | Some (_, t) \<Rightarrow>
          (case GENERATED_ENDPOINT_TYPES ! t of
             (start, n, sz) \<Rightarrow> take n (drop start GENERATED_CLUSTERS)))"

definition find_attr :: "nat \<Rightarrow> nat \<Rightarrow> nat \<Rightarrow> attribute option" where
  "find_attr ep cid aid =
     (case find (\<lambda>c. c_id c = cid) (endpoint_clusters ep) of
        None \<Rightarrow> None
      | Some c \<Rightarrow> find (\<lambda>a. a_id a = aid) (attrs_of c))"

text \<open>The command list that starts at an index.\<close>

definition command_list :: "nat \<Rightarrow> command list" where
  "command_list i = takeWhile (\<lambda>c. c \<noteq> End_of_list) (drop i GENERATED_COMMANDS)"

definition command_ranges :: "(nat \<times> nat) list" where
  "command_ranges =
     map (\<lambda>i. (i, Suc (length (command_list i))))
       (concat (map (\<lambda>c. (case c_accepted c of None \<Rightarrow> [] | Some i \<Rightarrow> [i]) @
                         (case c_generated c of None \<Rightarrow> [] | Some i \<Rightarrow> [i])) GENERATED_CLUSTERS))"

lemmas attr_tables =
  GENERATED_ATTRIBUTES_def attrs_ep0_Descriptor_def attrs_ep0_AccessControl_def
  attrs_ep0_BasicInformation_def attrs_ep0_OTASoftwareUpdateRequestor_def
  attrs_ep0_LocalizationConfiguration_def attrs_ep0_GeneralCommissioning_def
  attrs_ep0_NetworkCommissioning_def attrs_ep0_GeneralDiagnostics_def
  attrs_ep0_AdministratorCommissioning_def attrs_ep0_OperationalCredentials_def
  attrs_ep0_GroupKeyManagement_def attrs_ep1_Identify_def attrs_ep1_Descriptor_def
  attrs_ep1_TemperatureMeasurement_def attrs_ep2_Identify_def attrs_ep2_Descriptor_def
  attrs_ep2_TemperatureMeasurement_def attrs_ep3_Identify_def attrs_ep3_Descriptor_def
  attrs_ep3_RelativeHumidityMeasurement_def

lemmas cluster_tables =
  GENERATED_CLUSTERS_def clusters_ep0_def clusters_ep1_def clusters_ep2_def clusters_ep3_def

lemma length_GENERATED_ATTRIBUTES: "length GENERATED_ATTRIBUTES = 125"
  by (simp add: attr_tables)

lemma length_GENERATED_CLUSTERS: "length GENERATED_CLUSTERS = 20"
  by (simp add: cluster_tables)

lemma length_GENERATED_COMMANDS: "length GENERATED_COMMANDS = 50"
  by (simp add: GENERATED_COMMANDS_def)

lemmas table_lengths =
  length_GENERATED_ATTRIBUTES length_GENERATED_CLUSTERS length_GENERATED_COMMANDS

lemma attributes_tiled:
  "tiles 0 (map (\<lambda>c. (c_attrs c, c_count c)) GENERATED_CLUSTERS) (length GENERATED_ATTRIBUTES)"
  by (simp add: length_GENERATED_ATTRIBUTES cluster_tables)

lemma clusters_tiled:
  "tiles 0 (map (\<lambda>(i, n, s). (i, n)) GENERATED_ENDPOINT_TYPES) (length GENERATED_CLUSTERS)"
  by (simp add: GENERATED_ENDPOINT_TYPES_def cluster_tables)

lemma commands_tiled: "tiles 0 command_ranges (length GENERATED_COMMANDS)"
  by (simp add: command_ranges_def cluster_tables command_list_def GENERATED_COMMANDS_def)

lemma attrs_of_clusters:
  "map attrs_of GENERATED_CLUSTERS =
    [attrs_ep0_Descriptor, attrs_ep0_AccessControl, attrs_ep0_BasicInformation,
     attrs_ep0_OTASoftwareUpdateRequestor, attrs_ep0_LocalizationConfiguration,
     attrs_ep0_GeneralCommissioning, attrs_ep0_NetworkCommissioning, attrs_ep0_GeneralDiagnostics,
     attrs_ep0_AdministratorCommissioning, attrs_ep0_OperationalCredentials,
     attrs_ep0_GroupKeyManagement,
     attrs_ep1_Identify, attrs_ep1_Descriptor, attrs_ep1_TemperatureMeasurement,
     attrs_ep2_Identify, attrs_ep2_Descriptor, attrs_ep2_TemperatureMeasurement,
     attrs_ep3_Identify, attrs_ep3_Descriptor, attrs_ep3_RelativeHumidityMeasurement]"
  by (simp add: attrs_of_def cluster_tables attr_tables)

lemma cluster_sizes:
  "map (\<lambda>c. ram_size (attrs_of c)) GENERATED_CLUSTERS = map c_size GENERATED_CLUSTERS"
proof -
  have "map (\<lambda>c. ram_size (attrs_of c)) GENERATED_CLUSTERS =
    map ram_size (map attrs_of GENERATED_CLUSTERS)" by simp
  also have "\<dots> = map c_size GENERATED_CLUSTERS"
    unfolding attrs_of_clusters
    by (simp add: cluster_tables attr_tables ram_size_def in_ram_def)
  finally show ?thesis .
qed

lemma endpoint_tables:
  "endpoint_clusters 0 = clusters_ep0" "endpoint_clusters (Suc 0) = clusters_ep1"
  "endpoint_clusters 2 = clusters_ep2" "endpoint_clusters 3 = clusters_ep3"
  by (simp_all add: endpoint_clusters_def FIXED_ENDPOINT_ARRAY_def FIXED_ENDPOINT_TYPES_def
      GENERATED_ENDPOINT_TYPES_def cluster_tables)

lemma attrs_of_measured:
  "attrs_of (Cluster 0x402 90 5 12 None None) = attrs_ep1_TemperatureMeasurement"
  "attrs_of (Cluster 0x402 105 5 12 None None) = attrs_ep2_TemperatureMeasurement"
  "attrs_of (Cluster 0x405 120 5 12 None None) = attrs_ep3_RelativeHumidityMeasurement"
  by (simp_all add: attrs_of_def attr_tables)

text \<open>What a write of \<open>MeasuredValue\<close> (attribute 0) needs of the tables: the cluster is on the
  endpoint, the attribute is in RAM, two bytes wide, readable, nullable, of the cluster's type.\<close>

fun cluster_id :: "cluster \<Rightarrow> nat" where
  "cluster_id TemperatureMeasurement = 0x402"
| "cluster_id RelativeHumidityMeasurement = 0x405"

fun measured_type :: "cluster \<Rightarrow> zap_type" where
  "measured_type TemperatureMeasurement = ZT_TEMPERATURE"
| "measured_type RelativeHumidityMeasurement = ZT_INT16U"

definition measured_attr_ok :: "cluster \<Rightarrow> nat \<Rightarrow> bool" where
  "measured_attr_ok c ep \<longleftrightarrow>
     (case find_attr ep (cluster_id c) 0 of
        None \<Rightarrow> False
      | Some a \<Rightarrow>
          in_ram a \<and> a_size a = 2 \<and> a_type a = measured_type c \<and>
          M_READABLE \<in> set (a_mask a) \<and> M_NULLABLE \<in> set (a_mask a))"

fun write_ok :: "app_call \<Rightarrow> bool" where
  "write_ok (Measured_value c e v) = measured_attr_ok c e"
| "write_ok _ = True"

lemma measured_attrs_ok:
  "measured_attr_ok TemperatureMeasurement kAmbientEndpoint"
  "measured_attr_ok TemperatureMeasurement kInternalEndpoint"
  "measured_attr_ok RelativeHumidityMeasurement kGravityEndpoint"
  by (simp_all add: measured_attr_ok_def find_attr_def endpoint_tables kAmbientEndpoint_def
      kInternalEndpoint_def kGravityEndpoint_def clusters_ep1_def clusters_ep2_def
      clusters_ep3_def attrs_of_measured attrs_ep1_TemperatureMeasurement_def
      attrs_ep2_TemperatureMeasurement_def attrs_ep3_RelativeHumidityMeasurement_def in_ram_def)

lemma write_ok_other [simp]:
  "list_all write_ok (map Observer_call cs)" "list_all write_ok (map Sensor_call ss)"
  by (induction cs, simp_all) (induction ss, simp_all)

section \<open>Properties\<close>

text \<open>The tables are partitioned: every attribute index belongs to exactly one cluster, every
  cluster index to exactly one endpoint type, every index of the command table to exactly one
  command list (counting its end marker), and the declared counts are the lengths of the tables.\<close>

lemma tables_partitioned:
  assumes "i < length GENERATED_ATTRIBUTES" "j < length GENERATED_CLUSTERS"
    "k < length GENERATED_COMMANDS"
  shows "(\<exists>!c. c < length GENERATED_CLUSTERS \<and>
            in_range i (c_attrs (GENERATED_CLUSTERS ! c), c_count (GENERATED_CLUSTERS ! c))) \<and>
         (\<exists>!t. t < length GENERATED_ENDPOINT_TYPES \<and>
            in_range j (case GENERATED_ENDPOINT_TYPES ! t of (start, n, sz) \<Rightarrow> (start, n))) \<and>
         (\<exists>!l. l < length command_ranges \<and> in_range k (command_ranges ! l)) \<and>
         GENERATED_ATTRIBUTE_COUNT = length GENERATED_ATTRIBUTES \<and>
         GENERATED_CLUSTER_COUNT = length GENERATED_CLUSTERS \<and>
         FIXED_ENDPOINT_COUNT = length FIXED_ENDPOINT_ARRAY"
proof (intro conjI)
  show "\<exists>!c. c < length GENERATED_CLUSTERS \<and>
            in_range i (c_attrs (GENERATED_CLUSTERS ! c), c_count (GENERATED_CLUSTERS ! c))"
    using tiles_unique [OF attributes_tiled, of i] assms(1) by (simp cong: conj_cong)
  show "\<exists>!t. t < length GENERATED_ENDPOINT_TYPES \<and>
            in_range j (case GENERATED_ENDPOINT_TYPES ! t of (start, n, sz) \<Rightarrow> (start, n))"
    using tiles_unique [OF clusters_tiled, of j] assms(2) by (simp cong: conj_cong)
  show "\<exists>!l. l < length command_ranges \<and> in_range k (command_ranges ! l)"
    using tiles_unique [OF commands_tiled, of k] assms(3) by simp
qed (simp_all add: table_lengths GENERATED_ATTRIBUTE_COUNT_def GENERATED_CLUSTER_COUNT_def
    FIXED_ENDPOINT_COUNT_def FIXED_ENDPOINT_ARRAY_def)

text \<open>The storage the tables declare is the storage the attributes need: each cluster's size is
  the sum of the sizes of its attributes kept in RAM, each endpoint type's size the sum over its
  clusters, the total the sum over the endpoint types, and no attribute is larger than the declared
  largest one.\<close>

theorem storage_sizes_correct:
  "map c_size GENERATED_CLUSTERS = map (\<lambda>c. ram_size (attrs_of c)) GENERATED_CLUSTERS \<and>
   map (\<lambda>(start, n, sz). sz) GENERATED_ENDPOINT_TYPES =
     map (\<lambda>ep. sum_list (map c_size (endpoint_clusters ep))) FIXED_ENDPOINT_ARRAY \<and>
   ATTRIBUTE_MAX_SIZE = ram_size GENERATED_ATTRIBUTES \<and>
   list_all (\<lambda>a. a_size a \<le> ATTRIBUTE_LARGEST) GENERATED_ATTRIBUTES"
proof (intro conjI)
  show "map (\<lambda>(start, n, sz). sz) GENERATED_ENDPOINT_TYPES =
     map (\<lambda>ep. sum_list (map c_size (endpoint_clusters ep))) FIXED_ENDPOINT_ARRAY"
    by (simp add: GENERATED_ENDPOINT_TYPES_def FIXED_ENDPOINT_ARRAY_def endpoint_tables
        cluster_tables)
  show "ATTRIBUTE_MAX_SIZE = ram_size GENERATED_ATTRIBUTES"
    by (simp add: ATTRIBUTE_MAX_SIZE_def ram_size_def attr_tables in_ram_def)
  show "list_all (\<lambda>a. a_size a \<le> ATTRIBUTE_LARGEST) GENERATED_ATTRIBUTES"
    by (simp add: ATTRIBUTE_LARGEST_def attr_tables)
qed (simp add: cluster_sizes)

text \<open>C37. Every attribute the application writes, in either report and on every branch, exists on
  the endpoint it writes, in RAM, two bytes wide, readable and nullable, signed for a temperature
  and unsigned for the gravity.\<close>

theorem report_writes_exist:
  "list_all write_ok (snd (ReportWork now a s)) \<and> list_all write_ok (ReportTiltWork now o')"
  by (auto simp: ReportWork_def ReportTiltWork_eq measured_attrs_ok split: prod.split)

end
