(* ===== verification/Matter_Access.thy ===== *)
theory Matter_Access
  imports Matter_Config
begin

text \<open>
  The access tables of the Matter server (\<^verbatim>\<open>default_zap/zap-generated/access.h\<close>): parallel
  arrays of cluster, attribute or command, and the privilege required. A path without an entry has
  the stack's default privilege, which is outside this repository; the lemmas compare the paths of
  the tables with the attributes and commands that \<open>Matter_Config\<close> declares.
\<close>

section \<open>Tables\<close>

datatype privilege = kManage | kAdminister

definition GENERATED_ACCESS_READ_ATTRIBUTE__CLUSTER :: "nat list" where
  "GENERATED_ACCESS_READ_ATTRIBUTE__CLUSTER =
    [0x0000001F, 0x00000031, 0x00000031, 0x00000031, 0x00000031, 0x00000031, 0x0000003E]"

definition GENERATED_ACCESS_READ_ATTRIBUTE__ATTRIBUTE :: "nat list" where
  "GENERATED_ACCESS_READ_ATTRIBUTE__ATTRIBUTE =
    [0x00000000, 0x00000000, 0x00000001, 0x00000005, 0x00000006, 0x00000007, 0x00000000]"

definition GENERATED_ACCESS_READ_ATTRIBUTE__PRIVILEGE :: "privilege list" where
  "GENERATED_ACCESS_READ_ATTRIBUTE__PRIVILEGE =
    [kAdminister, kAdminister, kAdminister, kAdminister, kAdminister, kAdminister, kAdminister]"

definition GENERATED_ACCESS_WRITE_ATTRIBUTE__CLUSTER :: "nat list" where
  "GENERATED_ACCESS_WRITE_ATTRIBUTE__CLUSTER =
    [0x0000001F, 0x00000028, 0x00000028, 0x0000002A, 0x0000002B, 0x00000030, 0x00000031,
     0x0000003F]"

definition GENERATED_ACCESS_WRITE_ATTRIBUTE__ATTRIBUTE :: "nat list" where
  "GENERATED_ACCESS_WRITE_ATTRIBUTE__ATTRIBUTE =
    [0x00000000, 0x00000005, 0x00000006, 0x00000000, 0x00000000, 0x00000000, 0x00000004,
     0x00000000]"

definition GENERATED_ACCESS_WRITE_ATTRIBUTE__PRIVILEGE :: "privilege list" where
  "GENERATED_ACCESS_WRITE_ATTRIBUTE__PRIVILEGE =
    [kAdminister, kManage, kAdminister, kAdminister, kManage, kAdminister, kAdminister,
     kManage]"

definition GENERATED_ACCESS_INVOKE_COMMAND__CLUSTER :: "nat list" where
  "GENERATED_ACCESS_INVOKE_COMMAND__CLUSTER =
    [0x00000003, 0x00000003, 0x00000030, 0x00000030, 0x00000030, 0x00000033, 0x0000003C,
     0x0000003C, 0x0000003E, 0x0000003E, 0x0000003E, 0x0000003E, 0x0000003E, 0x0000003E,
     0x0000003E, 0x0000003E, 0x0000003E, 0x0000003E, 0x0000003F, 0x0000003F, 0x0000003F,
     0x0000003F]"

definition GENERATED_ACCESS_INVOKE_COMMAND__COMMAND :: "nat list" where
  "GENERATED_ACCESS_INVOKE_COMMAND__COMMAND =
    [0x00000000, 0x00000040, 0x00000000, 0x00000002, 0x00000004, 0x00000000, 0x00000000,
     0x00000002, 0x00000000, 0x00000002, 0x00000004, 0x00000006, 0x00000007, 0x00000009,
     0x0000000A, 0x0000000B, 0x0000000C, 0x0000000D, 0x00000000, 0x00000001, 0x00000003,
     0x00000004]"

definition GENERATED_ACCESS_INVOKE_COMMAND__PRIVILEGE :: "privilege list" where
  "GENERATED_ACCESS_INVOKE_COMMAND__PRIVILEGE =
    [kManage, kManage, kAdminister, kAdminister, kAdminister, kManage, kAdminister,
     kAdminister, kAdminister, kAdminister, kAdminister, kAdminister, kAdminister, kAdminister,
     kAdminister, kAdminister, kAdminister, kAdminister, kAdminister, kAdminister, kAdminister,
     kAdminister]"

definition GENERATED_ACCESS_READ_EVENT__CLUSTER :: "nat list" where
  "GENERATED_ACCESS_READ_EVENT__CLUSTER =
    [0x0000001F, 0x0000001F, 0x0000001F]"

definition GENERATED_ACCESS_READ_EVENT__EVENT :: "nat list" where
  "GENERATED_ACCESS_READ_EVENT__EVENT =
    [0x00000000, 0x00000001, 0x00000002]"

definition GENERATED_ACCESS_READ_EVENT__PRIVILEGE :: "privilege list" where
  "GENERATED_ACCESS_READ_EVENT__PRIVILEGE =
    [kAdminister, kAdminister, kAdminister]"

section \<open>Paths\<close>

text \<open>The paths that need an explicit privilege to write, and to invoke.\<close>

definition write_entries :: "((nat \<times> nat) \<times> privilege) list" where
  "write_entries =
     zip (zip GENERATED_ACCESS_WRITE_ATTRIBUTE__CLUSTER GENERATED_ACCESS_WRITE_ATTRIBUTE__ATTRIBUTE)
       GENERATED_ACCESS_WRITE_ATTRIBUTE__PRIVILEGE"

definition read_entries :: "((nat \<times> nat) \<times> privilege) list" where
  "read_entries =
     zip (zip GENERATED_ACCESS_READ_ATTRIBUTE__CLUSTER GENERATED_ACCESS_READ_ATTRIBUTE__ATTRIBUTE)
       GENERATED_ACCESS_READ_ATTRIBUTE__PRIVILEGE"

definition invoke_entries :: "((nat \<times> nat) \<times> privilege) list" where
  "invoke_entries =
     zip (zip GENERATED_ACCESS_INVOKE_COMMAND__CLUSTER GENERATED_ACCESS_INVOKE_COMMAND__COMMAND)
       GENERATED_ACCESS_INVOKE_COMMAND__PRIVILEGE"

lemmas access_tables =
  GENERATED_ACCESS_READ_ATTRIBUTE__CLUSTER_def GENERATED_ACCESS_READ_ATTRIBUTE__ATTRIBUTE_def
  GENERATED_ACCESS_READ_ATTRIBUTE__PRIVILEGE_def GENERATED_ACCESS_WRITE_ATTRIBUTE__CLUSTER_def
  GENERATED_ACCESS_WRITE_ATTRIBUTE__ATTRIBUTE_def GENERATED_ACCESS_WRITE_ATTRIBUTE__PRIVILEGE_def
  GENERATED_ACCESS_INVOKE_COMMAND__CLUSTER_def GENERATED_ACCESS_INVOKE_COMMAND__COMMAND_def
  GENERATED_ACCESS_INVOKE_COMMAND__PRIVILEGE_def GENERATED_ACCESS_READ_EVENT__CLUSTER_def
  GENERATED_ACCESS_READ_EVENT__EVENT_def GENERATED_ACCESS_READ_EVENT__PRIVILEGE_def

text \<open>The paths the data model declares: cluster and attribute, or cluster and accepted command.\<close>

definition attr_paths :: "(attribute \<Rightarrow> bool) \<Rightarrow> (nat \<times> nat) list" where
  "attr_paths P =
     concat (map (\<lambda>c. map (\<lambda>a. (c_id c, a_id a)) (filter P (attrs_of c))) GENERATED_CLUSTERS)"

definition writable :: "attribute \<Rightarrow> bool" where
  "writable a \<longleftrightarrow> M_WRITABLE \<in> set (a_mask a)"

fun command_id :: "command \<Rightarrow> nat" where
  "command_id (Cmd n) = n"
| "command_id End_of_list = 0xFFFFFFFF"

definition accepted_commands :: "cluster_meta \<Rightarrow> nat list" where
  "accepted_commands c =
     (case c_accepted c of None \<Rightarrow> [] | Some i \<Rightarrow> map command_id (command_list i))"

definition command_paths :: "(nat \<times> nat) list" where
  "command_paths =
     concat (map (\<lambda>c. map (Pair (c_id c)) (accepted_commands c)) GENERATED_CLUSTERS)"

lemma attr_paths_zip:
  "attr_paths P =
     concat (map (\<lambda>(i, as). map (\<lambda>a. (i, a_id a)) (filter P as))
       (zip (map c_id GENERATED_CLUSTERS) (map attrs_of GENERATED_CLUSTERS)))"
  by (simp add: attr_paths_def zip_map_map zip_same_conv_map comp_def)

lemma cluster_ids:
  "map c_id GENERATED_CLUSTERS =
     [0x1D, 0x1F, 0x28, 0x2A, 0x2B, 0x30, 0x31, 0x33, 0x3C, 0x3E, 0x3F,
      0x03, 0x1D, 0x402, 0x03, 0x1D, 0x402, 0x03, 0x1D, 0x405]"
  by (simp add: cluster_tables)

lemma writable_paths:
  "attr_paths writable =
     [(0x1F, 0), (0x28, 5), (0x28, 6), (0x2A, 0), (0x2B, 0), (0x30, 0), (0x31, 4), (0x3F, 0),
      (0x03, 0), (0x03, 0), (0x03, 0)]"
  unfolding attr_paths_zip attrs_of_clusters cluster_ids
  by (simp add: attr_tables writable_def)

lemma command_paths_eq:
  "command_paths =
     [(0x30, 0), (0x30, 2), (0x30, 4), (0x33, 0), (0x33, 1), (0x3C, 0), (0x3C, 2),
      (0x3E, 0), (0x3E, 2), (0x3E, 4), (0x3E, 6), (0x3E, 7), (0x3E, 9), (0x3E, 10), (0x3E, 11),
      (0x3E, 12), (0x3E, 13), (0x3F, 0), (0x3F, 1), (0x3F, 3), (0x3F, 4),
      (3, 0), (3, 0x40), (3, 0), (3, 0x40), (3, 0), (3, 0x40)]"
  by (simp add: command_paths_def accepted_commands_def command_list_def cluster_tables
      GENERATED_COMMANDS_def)

section \<open>Properties\<close>

text \<open>The access tables match the data model: the three parallel arrays of each table have one
  length; the attributes with a write privilege are exactly the writable attributes of the clusters
  apart from \<open>Identify.IdentifyTime\<close>; the commands with an invoke privilege are exactly the accepted
  commands apart from \<open>GeneralDiagnostics.TimeSnapshot\<close>; and every attribute with a read privilege
  exists.\<close>

theorem access_tables_match:
  "length GENERATED_ACCESS_READ_ATTRIBUTE__CLUSTER = length read_entries \<and>
   length GENERATED_ACCESS_READ_ATTRIBUTE__ATTRIBUTE = length read_entries \<and>
   length GENERATED_ACCESS_READ_ATTRIBUTE__PRIVILEGE = length read_entries \<and>
   length GENERATED_ACCESS_WRITE_ATTRIBUTE__CLUSTER = length write_entries \<and>
   length GENERATED_ACCESS_WRITE_ATTRIBUTE__ATTRIBUTE = length write_entries \<and>
   length GENERATED_ACCESS_WRITE_ATTRIBUTE__PRIVILEGE = length write_entries \<and>
   length GENERATED_ACCESS_INVOKE_COMMAND__CLUSTER = length invoke_entries \<and>
   length GENERATED_ACCESS_INVOKE_COMMAND__COMMAND = length invoke_entries \<and>
   length GENERATED_ACCESS_INVOKE_COMMAND__PRIVILEGE = length invoke_entries \<and>
   length GENERATED_ACCESS_READ_EVENT__CLUSTER = length GENERATED_ACCESS_READ_EVENT__EVENT \<and>
   length GENERATED_ACCESS_READ_EVENT__CLUSTER = length GENERATED_ACCESS_READ_EVENT__PRIVILEGE \<and>
   insert (0x03, 0) (fst ` set write_entries) = set (attr_paths writable) \<and>
   (0x03, 0) \<notin> fst ` set write_entries \<and>
   insert (0x33, 1) (fst ` set invoke_entries) = set command_paths \<and>
   (0x33, 1) \<notin> fst ` set invoke_entries \<and>
   fst ` set read_entries \<subseteq> set (attr_paths (\<lambda>a. True))"
proof (intro conjI)
  show "insert (0x03, 0) (fst ` set write_entries) = set (attr_paths writable)"
    unfolding writable_paths by (auto simp: write_entries_def access_tables)
  show "insert (0x33, 1) (fst ` set invoke_entries) = set command_paths"
    unfolding command_paths_eq by (auto simp: invoke_entries_def access_tables)
  show "fst ` set read_entries \<subseteq> set (attr_paths (\<lambda>a. True))"
    unfolding attr_paths_zip attrs_of_clusters cluster_ids
    by (simp add: read_entries_def access_tables attr_tables)
qed (simp_all add: read_entries_def write_entries_def invoke_entries_def access_tables)

text \<open>C38. The measurements are read-only over the network: on every endpoint no attribute of the two
  measurement clusters is writable and neither cluster accepts a command, so the values a client
  reads are the ones the reports wrote; and none of their attributes asks for more than the default
  privilege to be read.\<close>

theorem measurements_read_only:
  "list_all (\<lambda>(c, a). c \<noteq> cluster_id m) (attr_paths writable) \<and>
   list_all (\<lambda>(c, a). c \<noteq> cluster_id m) command_paths \<and>
   list_all (\<lambda>((c, a), p). c \<noteq> cluster_id m) read_entries"
  unfolding writable_paths command_paths_eq
  by (cases m) (simp_all add: read_entries_def access_tables)

end
