(* ===== verification/Matter_Callbacks.thy ===== *)
theory Matter_Callbacks
  imports Matter_Access
begin

text \<open>
  The generated dispatchers of the Matter clusters: \<^verbatim>\<open>callback-stub.cpp\<close>,
  \<^verbatim>\<open>CodeDrivenInitShutdown.cpp\<close>, \<^verbatim>\<open>PluginApplicationCallbacks.h\<close>,
  \<^verbatim>\<open>IMClusterCommandHandler.cpp\<close> and the clusters \<^verbatim>\<open>gen_config.h\<close> enables. A dispatcher
  returns the calls it makes. The per-cluster callbacks of \<^verbatim>\<open>callback-stub.cpp\<close> are weak and
  empty; those of the other files are defined in the SDK and are only named here. The cluster ids
  of the SDK, \<open>app::Clusters::X::Id\<close>, are the ones \<^verbatim>\<open>endpoint_config.h\<close> annotates.
\<close>

datatype matter_cluster =
    AccessControl_Id | AdministratorCommissioning_Id | BasicInformation_Id
  | Descriptor_Id | GeneralCommissioning_Id | GeneralDiagnostics_Id
  | GroupKeyManagement_Id | Identify_Id | LocalizationConfiguration_Id
  | NetworkCommissioning_Id | OtaSoftwareUpdateRequestor_Id | OperationalCredentials_Id
  | RelativeHumidityMeasurement_Id | TemperatureMeasurement_Id

fun Id :: "matter_cluster \<Rightarrow> nat" where
  "Id AccessControl_Id = 0x1F"
| "Id AdministratorCommissioning_Id = 0x3C"
| "Id BasicInformation_Id = 0x28"
| "Id Descriptor_Id = 0x1D"
| "Id GeneralCommissioning_Id = 0x30"
| "Id GeneralDiagnostics_Id = 0x33"
| "Id GroupKeyManagement_Id = 0x3F"
| "Id Identify_Id = 0x3"
| "Id LocalizationConfiguration_Id = 0x2B"
| "Id NetworkCommissioning_Id = 0x31"
| "Id OtaSoftwareUpdateRequestor_Id = 0x2A"
| "Id OperationalCredentials_Id = 0x3E"
| "Id RelativeHumidityMeasurement_Id = 0x405"
| "Id TemperatureMeasurement_Id = 0x402"

definition all_clusters :: "matter_cluster list" where
  "all_clusters =
    [AccessControl_Id, AdministratorCommissioning_Id, BasicInformation_Id, Descriptor_Id,
     GeneralCommissioning_Id, GeneralDiagnostics_Id, GroupKeyManagement_Id, Identify_Id,
     LocalizationConfiguration_Id, NetworkCommissioning_Id, OtaSoftwareUpdateRequestor_Id,
     OperationalCredentials_Id, RelativeHumidityMeasurement_Id, TemperatureMeasurement_Id]"

datatype callback =
    EmberAfClusterInit matter_cluster nat
  | MatterClusterInit matter_cluster nat
  | MatterClusterShutdown matter_cluster nat
  | MatterPluginServerInit matter_cluster

section \<open>Dispatchers\<close>

definition emberAfClusterInitCallback :: "nat \<Rightarrow> nat \<Rightarrow> callback list" where
  "emberAfClusterInitCallback endpoint clusterId =
     (if clusterId = Id AccessControl_Id then [EmberAfClusterInit AccessControl_Id endpoint]
      else if clusterId = Id AdministratorCommissioning_Id then [EmberAfClusterInit AdministratorCommissioning_Id endpoint]
      else if clusterId = Id BasicInformation_Id then [EmberAfClusterInit BasicInformation_Id endpoint]
      else if clusterId = Id Descriptor_Id then [EmberAfClusterInit Descriptor_Id endpoint]
      else if clusterId = Id GeneralCommissioning_Id then [EmberAfClusterInit GeneralCommissioning_Id endpoint]
      else if clusterId = Id GeneralDiagnostics_Id then [EmberAfClusterInit GeneralDiagnostics_Id endpoint]
      else if clusterId = Id GroupKeyManagement_Id then [EmberAfClusterInit GroupKeyManagement_Id endpoint]
      else if clusterId = Id Identify_Id then [EmberAfClusterInit Identify_Id endpoint]
      else if clusterId = Id LocalizationConfiguration_Id then [EmberAfClusterInit LocalizationConfiguration_Id endpoint]
      else if clusterId = Id NetworkCommissioning_Id then [EmberAfClusterInit NetworkCommissioning_Id endpoint]
      else if clusterId = Id OtaSoftwareUpdateRequestor_Id then [EmberAfClusterInit OtaSoftwareUpdateRequestor_Id endpoint]
      else if clusterId = Id OperationalCredentials_Id then [EmberAfClusterInit OperationalCredentials_Id endpoint]
      else if clusterId = Id RelativeHumidityMeasurement_Id then [EmberAfClusterInit RelativeHumidityMeasurement_Id endpoint]
      else if clusterId = Id TemperatureMeasurement_Id then [EmberAfClusterInit TemperatureMeasurement_Id endpoint]
      else [])"

definition MatterClusterServerInitCallback :: "nat \<Rightarrow> nat \<Rightarrow> callback list" where
  "MatterClusterServerInitCallback endpoint clusterId =
     (if clusterId = Id Identify_Id then [MatterClusterInit Identify_Id endpoint]
      else if clusterId = Id Descriptor_Id then [MatterClusterInit Descriptor_Id endpoint]
      else if clusterId = Id AccessControl_Id then [MatterClusterInit AccessControl_Id endpoint]
      else if clusterId = Id BasicInformation_Id then [MatterClusterInit BasicInformation_Id endpoint]
      else if clusterId = Id LocalizationConfiguration_Id then [MatterClusterInit LocalizationConfiguration_Id endpoint]
      else if clusterId = Id GeneralCommissioning_Id then [MatterClusterInit GeneralCommissioning_Id endpoint]
      else if clusterId = Id GeneralDiagnostics_Id then [MatterClusterInit GeneralDiagnostics_Id endpoint]
      else if clusterId = Id AdministratorCommissioning_Id then [MatterClusterInit AdministratorCommissioning_Id endpoint]
      else if clusterId = Id OperationalCredentials_Id then [MatterClusterInit OperationalCredentials_Id endpoint]
      else if clusterId = Id GroupKeyManagement_Id then [MatterClusterInit GroupKeyManagement_Id endpoint]
      else [])"

definition MatterClusterServerShutdownCallback :: "nat \<Rightarrow> nat \<Rightarrow> callback list" where
  "MatterClusterServerShutdownCallback endpoint clusterId =
     (if clusterId = Id Identify_Id then [MatterClusterShutdown Identify_Id endpoint]
      else if clusterId = Id Descriptor_Id then [MatterClusterShutdown Descriptor_Id endpoint]
      else if clusterId = Id AccessControl_Id then [MatterClusterShutdown AccessControl_Id endpoint]
      else if clusterId = Id BasicInformation_Id then [MatterClusterShutdown BasicInformation_Id endpoint]
      else if clusterId = Id LocalizationConfiguration_Id then [MatterClusterShutdown LocalizationConfiguration_Id endpoint]
      else if clusterId = Id GeneralCommissioning_Id then [MatterClusterShutdown GeneralCommissioning_Id endpoint]
      else if clusterId = Id GeneralDiagnostics_Id then [MatterClusterShutdown GeneralDiagnostics_Id endpoint]
      else if clusterId = Id AdministratorCommissioning_Id then [MatterClusterShutdown AdministratorCommissioning_Id endpoint]
      else if clusterId = Id OperationalCredentials_Id then [MatterClusterShutdown OperationalCredentials_Id endpoint]
      else if clusterId = Id GroupKeyManagement_Id then [MatterClusterShutdown GroupKeyManagement_Id endpoint]
      else [])"

definition MATTER_PLUGINS_INIT :: "callback list" where
  "MATTER_PLUGINS_INIT =
     map MatterPluginServerInit
       [Identify_Id, Descriptor_Id, AccessControl_Id, BasicInformation_Id,
        OtaSoftwareUpdateRequestor_Id, LocalizationConfiguration_Id, GeneralCommissioning_Id,
        NetworkCommissioning_Id, GeneralDiagnostics_Id, AdministratorCommissioning_Id,
        OperationalCredentials_Id, GroupKeyManagement_Id, TemperatureMeasurement_Id,
        RelativeHumidityMeasurement_Id]"

text \<open>No cluster registers a command parser, so every dispatched command is answered with the
  status of an unsupported cluster; the reader is not touched.\<close>

datatype im_status = Success | UnsupportedCluster

definition DispatchSingleClusterCommand :: "nat \<Rightarrow> 'path \<Rightarrow> ('path \<times> im_status) list" where
  "DispatchSingleClusterCommand clusterId path =
     (let errorStatus = (case clusterId of _ \<Rightarrow> UnsupportedCluster)
      in if errorStatus \<noteq> Success then [(path, errorStatus)] else [])"

section \<open>Configuration\<close>

text \<open>The clusters with a \<open>ZCL_USING_..._CLUSTER_SERVER\<close> macro, and the server endpoint counts of
  these clusters; all other counts in the file are zero.\<close>

definition ZCL_USING_CLUSTER_SERVER :: "matter_cluster list" where
  "ZCL_USING_CLUSTER_SERVER =
    [Identify_Id, Descriptor_Id, AccessControl_Id, BasicInformation_Id,
     OtaSoftwareUpdateRequestor_Id, LocalizationConfiguration_Id, GeneralCommissioning_Id,
     NetworkCommissioning_Id, GeneralDiagnostics_Id, AdministratorCommissioning_Id,
     OperationalCredentials_Id, GroupKeyManagement_Id, TemperatureMeasurement_Id,
     RelativeHumidityMeasurement_Id]"

fun MATTER_DM_CLUSTER_SERVER_ENDPOINT_COUNT :: "matter_cluster \<Rightarrow> nat" where
  "MATTER_DM_CLUSTER_SERVER_ENDPOINT_COUNT Identify_Id = 3"
| "MATTER_DM_CLUSTER_SERVER_ENDPOINT_COUNT Descriptor_Id = 4"
| "MATTER_DM_CLUSTER_SERVER_ENDPOINT_COUNT TemperatureMeasurement_Id = 2"
| "MATTER_DM_CLUSTER_SERVER_ENDPOINT_COUNT AccessControl_Id = 1"
| "MATTER_DM_CLUSTER_SERVER_ENDPOINT_COUNT BasicInformation_Id = 1"
| "MATTER_DM_CLUSTER_SERVER_ENDPOINT_COUNT OtaSoftwareUpdateRequestor_Id = 1"
| "MATTER_DM_CLUSTER_SERVER_ENDPOINT_COUNT LocalizationConfiguration_Id = 1"
| "MATTER_DM_CLUSTER_SERVER_ENDPOINT_COUNT GeneralCommissioning_Id = 1"
| "MATTER_DM_CLUSTER_SERVER_ENDPOINT_COUNT NetworkCommissioning_Id = 1"
| "MATTER_DM_CLUSTER_SERVER_ENDPOINT_COUNT GeneralDiagnostics_Id = 1"
| "MATTER_DM_CLUSTER_SERVER_ENDPOINT_COUNT AdministratorCommissioning_Id = 1"
| "MATTER_DM_CLUSTER_SERVER_ENDPOINT_COUNT OperationalCredentials_Id = 1"
| "MATTER_DM_CLUSTER_SERVER_ENDPOINT_COUNT GroupKeyManagement_Id = 1"
| "MATTER_DM_CLUSTER_SERVER_ENDPOINT_COUNT RelativeHumidityMeasurement_Id = 1"

section \<open>Lemmas\<close>

lemma Id_inj: "Id x = Id y \<longleftrightarrow> x = y"
  by (cases x; cases y) simp_all

lemma set_all_clusters: "set all_clusters = UNIV"
proof -
  have "x \<in> set all_clusters" for x by (cases x) (simp_all add: all_clusters_def)
  then show ?thesis by auto
qed

text \<open>The clusters whose setup is driven by code in the SDK.\<close>

definition code_driven :: "matter_cluster \<Rightarrow> bool" where
  "code_driven c \<longleftrightarrow>
     c \<notin> {NetworkCommissioning_Id, OtaSoftwareUpdateRequestor_Id, TemperatureMeasurement_Id,
          RelativeHumidityMeasurement_Id}"

lemma emberAfClusterInitCallback_Id [simp]:
  "emberAfClusterInitCallback ep (Id c) = [EmberAfClusterInit c ep]"
  by (cases c) (simp_all add: emberAfClusterInitCallback_def)

lemma MatterClusterServerInitCallback_Id [simp]:
  "MatterClusterServerInitCallback ep (Id c) = (if code_driven c then [MatterClusterInit c ep] else [])"
  by (cases c) (simp_all add: MatterClusterServerInitCallback_def code_driven_def)

lemma MatterClusterServerShutdownCallback_Id [simp]:
  "MatterClusterServerShutdownCallback ep (Id c) =
     (if code_driven c then [MatterClusterShutdown c ep] else [])"
  by (cases c) (simp_all add: MatterClusterServerShutdownCallback_def code_driven_def)

text \<open>The clusters of an endpoint, by name.\<close>

definition named_clusters :: "nat \<Rightarrow> matter_cluster list" where
  "named_clusters ep =
     concat (map (\<lambda>i. filter (\<lambda>c. Id c = i) all_clusters) (map c_id (endpoint_clusters ep)))"

lemma named_clusters_ids: "ep < 4 \<Longrightarrow> map Id (named_clusters ep) = map c_id (endpoint_clusters ep)"
proof -
  assume "ep < 4"
  then consider "ep = 0" | "ep = Suc 0" | "ep = 2" | "ep = 3" by linarith
  then show ?thesis
    by cases (simp_all add: named_clusters_def all_clusters_def endpoint_tables cluster_tables)
qed

lemma concat_map_singleton: "concat (map (\<lambda>x. [f x]) xs) = map f xs"
  by (induction xs) simp_all

lemma map_ids_dispatch:
  assumes "map Id (named_clusters ep) = map c_id (endpoint_clusters ep)"
  shows "concat (map (\<lambda>c. f (c_id c)) (endpoint_clusters ep)) =
    concat (map (\<lambda>n. f (Id n)) (named_clusters ep))"
proof -
  have "map (\<lambda>c. f (c_id c)) (endpoint_clusters ep) = map f (map c_id (endpoint_clusters ep))"
    by simp
  also have "\<dots> = map (\<lambda>n. f (Id n)) (named_clusters ep)"
    by (simp flip: assms)
  finally show ?thesis by simp
qed

section \<open>Agreement with the data model\<close>

text \<open>Dispatch over the data model: starting an endpoint calls, for each cluster of the endpoint
  in table order, exactly that cluster's init callback on that endpoint, and shutting it down calls
  the shutdown callback of exactly the clusters whose code-driven init was called; a cluster id that
  no cluster of the product has is ignored by all three dispatchers.\<close>

lemma dispatch_covers_endpoints:
  assumes "ep < 4" "\<And>c. Id c \<noteq> unknown"
  shows "concat (map (\<lambda>c. emberAfClusterInitCallback ep (c_id c)) (endpoint_clusters ep)) =
           map (\<lambda>n. EmberAfClusterInit n ep) (named_clusters ep) \<and>
         concat (map (\<lambda>c. MatterClusterServerInitCallback ep (c_id c)) (endpoint_clusters ep)) =
           map (\<lambda>n. MatterClusterInit n ep) (filter code_driven (named_clusters ep)) \<and>
         concat (map (\<lambda>c. MatterClusterServerShutdownCallback ep (c_id c)) (endpoint_clusters ep)) =
           map (\<lambda>n. MatterClusterShutdown n ep) (filter code_driven (named_clusters ep)) \<and>
         map Id (named_clusters ep) = map c_id (endpoint_clusters ep) \<and>
         emberAfClusterInitCallback ep unknown = [] \<and>
         MatterClusterServerInitCallback ep unknown = [] \<and>
         MatterClusterServerShutdownCallback ep unknown = []"
proof (intro conjI)
  note ids = named_clusters_ids [OF assms(1)]
  have if_filter: "concat (map (\<lambda>n. if code_driven n then [g n] else []) ns) =
    map g (filter code_driven ns)" for g :: "matter_cluster \<Rightarrow> callback" and ns
    by (induction ns) simp_all
  show "concat (map (\<lambda>c. emberAfClusterInitCallback ep (c_id c)) (endpoint_clusters ep)) =
           map (\<lambda>n. EmberAfClusterInit n ep) (named_clusters ep)"
    by (simp add: map_ids_dispatch [OF ids] concat_map_singleton)
  show "concat (map (\<lambda>c. MatterClusterServerInitCallback ep (c_id c)) (endpoint_clusters ep)) =
           map (\<lambda>n. MatterClusterInit n ep) (filter code_driven (named_clusters ep))"
    by (simp add: map_ids_dispatch [OF ids] if_filter)
  show "concat (map (\<lambda>c. MatterClusterServerShutdownCallback ep (c_id c)) (endpoint_clusters ep)) =
           map (\<lambda>n. MatterClusterShutdown n ep) (filter code_driven (named_clusters ep))"
    by (simp add: map_ids_dispatch [OF ids] if_filter)
  show "map Id (named_clusters ep) = map c_id (endpoint_clusters ep)" by (rule ids)
  have unknown: "unknown \<noteq> Id c" for c using assms(2) [of c] by simp
  note no = unknown unknown [symmetric]
  show "emberAfClusterInitCallback ep unknown = []"
    by (simp add: emberAfClusterInitCallback_def no del: Id.simps)
  show "MatterClusterServerInitCallback ep unknown = []"
    by (simp add: MatterClusterServerInitCallback_def no del: Id.simps)
  show "MatterClusterServerShutdownCallback ep unknown = []"
    by (simp add: MatterClusterServerShutdownCallback_def no del: Id.simps)
qed

text \<open>The configuration agrees with the data model: every enabled cluster is on exactly as many
  endpoints as its server count says, each cluster is enabled once and its plugin initialised once,
  and every cluster of every endpoint is enabled.\<close>

lemma configuration_matches_endpoints:
  "length (filter (\<lambda>c. c_id c = Id n) GENERATED_CLUSTERS) =
     MATTER_DM_CLUSTER_SERVER_ENDPOINT_COUNT n \<and>
   distinct ZCL_USING_CLUSTER_SERVER \<and> set ZCL_USING_CLUSTER_SERVER = UNIV \<and>
   MATTER_PLUGINS_INIT = map MatterPluginServerInit ZCL_USING_CLUSTER_SERVER \<and>
   list_all (\<lambda>c. list_ex (\<lambda>n. Id n = c_id c) ZCL_USING_CLUSTER_SERVER) GENERATED_CLUSTERS"
proof (intro conjI)
  show "length (filter (\<lambda>c. c_id c = Id n) GENERATED_CLUSTERS) =
     MATTER_DM_CLUSTER_SERVER_ENDPOINT_COUNT n"
    by (cases n) (simp_all add: cluster_tables)
  have "x \<in> set ZCL_USING_CLUSTER_SERVER" for x
    by (cases x) (simp_all add: ZCL_USING_CLUSTER_SERVER_def)
  then show "set ZCL_USING_CLUSTER_SERVER = UNIV" by auto
qed (simp_all add: ZCL_USING_CLUSTER_SERVER_def MATTER_PLUGINS_INIT_def cluster_tables)

end
