(* ===== verification/Matter_Features.thy ===== *)
theory Matter_Features
  imports Matter_Access Matter_Callbacks
begin

text \<open>
  The rest of the generated Matter configuration: the cluster counts and command flags of
  \<^verbatim>\<open>zap-generated/gen_config.h\<close> macro by macro, the callbacks declared in
  \<^verbatim>\<open>CodeDrivenCallback.h\<close> and \<^verbatim>\<open>PluginApplicationCallbacks.h\<close>, the weak callbacks of
  \<^verbatim>\<open>callback-stub.cpp\<close>, and the small tables of \<^verbatim>\<open>endpoint_config.h\<close>. The names are the macro names
  without their common prefix and suffix. The lemmas compare all of it with the data model of
  \<open>Matter_Config\<close> and the dispatchers of \<open>Matter_Callbacks\<close>.
\<close>

section \<open>Cluster counts\<close>

definition SERVER_ENDPOINT_COUNTS_1 :: "(string \<times> nat) list" where
  "SERVER_ENDPOINT_COUNTS_1 =
    [(''IDENTIFY'', 3), (''GROUPS'', 0), (''ON_OFF'', 0), (''LEVEL_CONTROL'', 0), (''PWM'', 0),
     (''DESCRIPTOR'', 4), (''BINDING'', 0), (''ACCESS_CONTROL'', 1), (''ACTIONS'', 0),
     (''BASIC_INFORMATION'', 1), (''OTA_SOFTWARE_UPDATE_PROVIDER'', 0),
     (''OTA_SOFTWARE_UPDATE_REQUESTOR'', 1), (''LOCALIZATION_CONFIGURATION'', 1),
     (''TIME_FORMAT_LOCALIZATION'', 0), (''UNIT_LOCALIZATION'', 0),
     (''POWER_SOURCE_CONFIGURATION'', 0), (''POWER_SOURCE'', 0), (''GENERAL_COMMISSIONING'', 1),
     (''NETWORK_COMMISSIONING'', 1), (''DIAGNOSTIC_LOGS'', 0), (''GENERAL_DIAGNOSTICS'', 1),
     (''SOFTWARE_DIAGNOSTICS'', 0), (''THREAD_NETWORK_DIAGNOSTICS'', 0),
     (''WIFI_NETWORK_DIAGNOSTICS'', 0), (''ETHERNET_NETWORK_DIAGNOSTICS'', 0),
     (''TIME_SYNCHRONIZATION'', 0), (''BRIDGED_DEVICE_BASIC_INFORMATION'', 0), (''SWITCH'', 0),
     (''ADMINISTRATOR_COMMISSIONING'', 1), (''OPERATIONAL_CREDENTIALS'', 1),
     (''GROUP_KEY_MANAGEMENT'', 1), (''FIXED_LABEL'', 0), (''USER_LABEL'', 0),
     (''PROXY_CONFIGURATION'', 0), (''PROXY_DISCOVERY'', 0), (''PROXY_VALID'', 0),
     (''BOOLEAN_STATE'', 0), (''ICD_MANAGEMENT'', 0), (''TIMER'', 0), (''OPERATIONAL_STATE_OVEN'', 0),
     (''OVEN_MODE'', 0), (''LAUNDRY_DRYER_CONTROLS'', 0), (''MODE_SELECT'', 0),
     (''LAUNDRY_WASHER_MODE'', 0), (''REFRIGERATOR_AND_TEMPERATURE_CONTROLLED_CABINET_MODE'', 0),
     (''LAUNDRY_WASHER_CONTROLS'', 0), (''RVC_RUN_MODE'', 0), (''RVC_CLEAN_MODE'', 0),
     (''TEMPERATURE_CONTROL'', 0), (''REFRIGERATOR_ALARM'', 0), (''DISHWASHER_MODE'', 0),
     (''AIR_QUALITY'', 0), (''SMOKE_CO_ALARM'', 0), (''DISHWASHER_ALARM'', 0),
     (''MICROWAVE_OVEN_MODE'', 0), (''MICROWAVE_OVEN_CONTROL'', 0), (''OPERATIONAL_STATE'', 0),
     (''OPERATIONAL_STATE_RVC'', 0), (''SCENES'', 0), (''GROUPCAST'', 0),
     (''HEPA_FILTER_MONITORING'', 0), (''ACTIVATED_CARBON_FILTER_MONITORING'', 0),
     (''WATER_TANK_LEVEL_MONITORING'', 0), (''BOOLEAN_STATE_CONFIGURATION'', 0),
     (''VALVE_CONFIGURATION_AND_CONTROL'', 0), (''ELECTRICAL_POWER_MEASUREMENT'', 0),
     (''ELECTRICAL_ENERGY_MEASUREMENT'', 0), (''WATER_HEATER_MANAGEMENT'', 0),
     (''COMMODITY_PRICE'', 0), (''MESSAGES'', 0), (''DEVICE_ENERGY_MANAGEMENT'', 0)]"

definition SERVER_ENDPOINT_COUNTS_2 :: "(string \<times> nat) list" where
  "SERVER_ENDPOINT_COUNTS_2 =
    [(''ENERGY_EVSE'', 0), (''ENERGY_PREFERENCE'', 0), (''POWER_TOPOLOGY'', 0),
     (''ENERGY_EVSE_MODE'', 0), (''WATER_HEATER_MODE'', 0), (''DEVICE_ENERGY_MANAGEMENT_MODE'', 0),
     (''ELECTRICAL_GRID_CONDITIONS'', 0), (''DOOR_LOCK'', 0), (''WINDOW_COVERING'', 0),
     (''CLOSURE_CONTROL'', 0), (''CLOSURE_DIMENSION'', 0), (''SERVICE_AREA'', 0),
     (''PUMP_CONFIGURATION_AND_CONTROL'', 0), (''THERMOSTAT'', 0), (''FAN_CONTROL'', 0),
     (''THERMOSTAT_USER_INTERFACE_CONFIGURATION'', 0), (''COLOR_CONTROL'', 0),
     (''BALLAST_CONFIGURATION'', 0), (''ILLUMINANCE_MEASUREMENT'', 0),
     (''TEMPERATURE_MEASUREMENT'', 2), (''PRESSURE_MEASUREMENT'', 0), (''FLOW_MEASUREMENT'', 0),
     (''RELATIVE_HUMIDITY_MEASUREMENT'', 1), (''OCCUPANCY_SENSING'', 0),
     (''CARBON_MONOXIDE_CONCENTRATION_MEASUREMENT'', 0),
     (''CARBON_DIOXIDE_CONCENTRATION_MEASUREMENT'', 0),
     (''NITROGEN_DIOXIDE_CONCENTRATION_MEASUREMENT'', 0), (''OZONE_CONCENTRATION_MEASUREMENT'', 0),
     (''PM2_5_CONCENTRATION_MEASUREMENT'', 0), (''FORMALDEHYDE_CONCENTRATION_MEASUREMENT'', 0),
     (''PM1_CONCENTRATION_MEASUREMENT'', 0), (''PM10_CONCENTRATION_MEASUREMENT'', 0),
     (''TVOC_CONCENTRATION_MEASUREMENT'', 0), (''RADON_CONCENTRATION_MEASUREMENT'', 0),
     (''SOIL_MEASUREMENT'', 0), (''WIFI_NETWORK_MANAGEMENT'', 0),
     (''THREAD_BORDER_ROUTER_MANAGEMENT'', 0), (''THREAD_NETWORK_DIRECTORY'', 0), (''WAKE_ON_LAN'', 0),
     (''CHANNEL'', 0), (''TARGET_NAVIGATOR'', 0), (''MEDIA_PLAYBACK'', 0), (''MEDIA_INPUT'', 0),
     (''LOW_POWER'', 0), (''KEYPAD_INPUT'', 0), (''CONTENT_LAUNCHER'', 0), (''AUDIO_OUTPUT'', 0),
     (''APPLICATION_LAUNCHER'', 0), (''APPLICATION_BASIC'', 0), (''ACCOUNT_LOGIN'', 0),
     (''CONTENT_CONTROL'', 0), (''CONTENT_APP_OBSERVER'', 0), (''ZONE_MANAGEMENT'', 0),
     (''CAMERA_AV_STREAM_MANAGEMENT'', 0), (''CAMERA_AV_SETTINGS_USER_LEVEL_MANAGEMENT'', 0),
     (''WEB_RTC_TRANSPORT_PROVIDER'', 0), (''WEB_RTC_TRANSPORT_REQUESTOR'', 0),
     (''PUSH_AV_STREAM_TRANSPORT'', 0), (''CHIME'', 0), (''COMMODITY_TARIFF'', 0),
     (''ECOSYSTEM_INFORMATION'', 0), (''COMMISSIONER_CONTROL'', 0), (''JOINT_FABRIC_DATASTORE'', 0),
     (''JOINT_FABRIC_ADMINISTRATOR'', 0), (''TLS_CERTIFICATE_MANAGEMENT'', 0),
     (''TLS_CLIENT_MANAGEMENT'', 0), (''METER_IDENTIFICATION'', 0), (''COMMODITY_METERING'', 0),
     (''UNIT_TESTING'', 0), (''FAULT_INJECTION'', 0), (''SAMPLE_MEI'', 0)]"

definition CLIENT_ENDPOINT_COUNTS_1 :: "(string \<times> nat) list" where
  "CLIENT_ENDPOINT_COUNTS_1 =
    [(''IDENTIFY'', 0), (''GROUPS'', 0), (''ON_OFF'', 0), (''LEVEL_CONTROL'', 0), (''PWM'', 0),
     (''DESCRIPTOR'', 0), (''BINDING'', 0), (''ACCESS_CONTROL'', 0), (''ACTIONS'', 0),
     (''BASIC_INFORMATION'', 0), (''OTA_SOFTWARE_UPDATE_PROVIDER'', 0),
     (''OTA_SOFTWARE_UPDATE_REQUESTOR'', 0), (''LOCALIZATION_CONFIGURATION'', 0),
     (''TIME_FORMAT_LOCALIZATION'', 0), (''UNIT_LOCALIZATION'', 0),
     (''POWER_SOURCE_CONFIGURATION'', 0), (''POWER_SOURCE'', 0), (''GENERAL_COMMISSIONING'', 0),
     (''NETWORK_COMMISSIONING'', 0), (''DIAGNOSTIC_LOGS'', 0), (''GENERAL_DIAGNOSTICS'', 0),
     (''SOFTWARE_DIAGNOSTICS'', 0), (''THREAD_NETWORK_DIAGNOSTICS'', 0),
     (''WIFI_NETWORK_DIAGNOSTICS'', 0), (''ETHERNET_NETWORK_DIAGNOSTICS'', 0),
     (''TIME_SYNCHRONIZATION'', 0), (''BRIDGED_DEVICE_BASIC_INFORMATION'', 0), (''SWITCH'', 0),
     (''ADMINISTRATOR_COMMISSIONING'', 0), (''OPERATIONAL_CREDENTIALS'', 0),
     (''GROUP_KEY_MANAGEMENT'', 0), (''FIXED_LABEL'', 0), (''USER_LABEL'', 0),
     (''PROXY_CONFIGURATION'', 0), (''PROXY_DISCOVERY'', 0), (''PROXY_VALID'', 0),
     (''BOOLEAN_STATE'', 0), (''ICD_MANAGEMENT'', 0), (''TIMER'', 0), (''OPERATIONAL_STATE_OVEN'', 0),
     (''OVEN_MODE'', 0), (''LAUNDRY_DRYER_CONTROLS'', 0), (''MODE_SELECT'', 0),
     (''LAUNDRY_WASHER_MODE'', 0), (''REFRIGERATOR_AND_TEMPERATURE_CONTROLLED_CABINET_MODE'', 0),
     (''LAUNDRY_WASHER_CONTROLS'', 0), (''RVC_RUN_MODE'', 0), (''RVC_CLEAN_MODE'', 0),
     (''TEMPERATURE_CONTROL'', 0), (''REFRIGERATOR_ALARM'', 0), (''DISHWASHER_MODE'', 0),
     (''AIR_QUALITY'', 0), (''SMOKE_CO_ALARM'', 0), (''DISHWASHER_ALARM'', 0),
     (''MICROWAVE_OVEN_MODE'', 0), (''MICROWAVE_OVEN_CONTROL'', 0), (''OPERATIONAL_STATE'', 0),
     (''OPERATIONAL_STATE_RVC'', 0), (''SCENES'', 0), (''GROUPCAST'', 0),
     (''HEPA_FILTER_MONITORING'', 0), (''ACTIVATED_CARBON_FILTER_MONITORING'', 0),
     (''WATER_TANK_LEVEL_MONITORING'', 0), (''BOOLEAN_STATE_CONFIGURATION'', 0),
     (''VALVE_CONFIGURATION_AND_CONTROL'', 0), (''ELECTRICAL_POWER_MEASUREMENT'', 0),
     (''ELECTRICAL_ENERGY_MEASUREMENT'', 0), (''WATER_HEATER_MANAGEMENT'', 0),
     (''COMMODITY_PRICE'', 0), (''MESSAGES'', 0), (''DEVICE_ENERGY_MANAGEMENT'', 0)]"

definition CLIENT_ENDPOINT_COUNTS_2 :: "(string \<times> nat) list" where
  "CLIENT_ENDPOINT_COUNTS_2 =
    [(''ENERGY_EVSE'', 0), (''ENERGY_PREFERENCE'', 0), (''POWER_TOPOLOGY'', 0),
     (''ENERGY_EVSE_MODE'', 0), (''WATER_HEATER_MODE'', 0), (''DEVICE_ENERGY_MANAGEMENT_MODE'', 0),
     (''ELECTRICAL_GRID_CONDITIONS'', 0), (''DOOR_LOCK'', 0), (''WINDOW_COVERING'', 0),
     (''CLOSURE_CONTROL'', 0), (''CLOSURE_DIMENSION'', 0), (''SERVICE_AREA'', 0),
     (''PUMP_CONFIGURATION_AND_CONTROL'', 0), (''THERMOSTAT'', 0), (''FAN_CONTROL'', 0),
     (''THERMOSTAT_USER_INTERFACE_CONFIGURATION'', 0), (''COLOR_CONTROL'', 0),
     (''BALLAST_CONFIGURATION'', 0), (''ILLUMINANCE_MEASUREMENT'', 0),
     (''TEMPERATURE_MEASUREMENT'', 0), (''PRESSURE_MEASUREMENT'', 0), (''FLOW_MEASUREMENT'', 0),
     (''RELATIVE_HUMIDITY_MEASUREMENT'', 0), (''OCCUPANCY_SENSING'', 0),
     (''CARBON_MONOXIDE_CONCENTRATION_MEASUREMENT'', 0),
     (''CARBON_DIOXIDE_CONCENTRATION_MEASUREMENT'', 0),
     (''NITROGEN_DIOXIDE_CONCENTRATION_MEASUREMENT'', 0), (''OZONE_CONCENTRATION_MEASUREMENT'', 0),
     (''PM2_5_CONCENTRATION_MEASUREMENT'', 0), (''FORMALDEHYDE_CONCENTRATION_MEASUREMENT'', 0),
     (''PM1_CONCENTRATION_MEASUREMENT'', 0), (''PM10_CONCENTRATION_MEASUREMENT'', 0),
     (''TVOC_CONCENTRATION_MEASUREMENT'', 0), (''RADON_CONCENTRATION_MEASUREMENT'', 0),
     (''SOIL_MEASUREMENT'', 0), (''WIFI_NETWORK_MANAGEMENT'', 0),
     (''THREAD_BORDER_ROUTER_MANAGEMENT'', 0), (''THREAD_NETWORK_DIRECTORY'', 0), (''WAKE_ON_LAN'', 0),
     (''CHANNEL'', 0), (''TARGET_NAVIGATOR'', 0), (''MEDIA_PLAYBACK'', 0), (''MEDIA_INPUT'', 0),
     (''LOW_POWER'', 0), (''KEYPAD_INPUT'', 0), (''CONTENT_LAUNCHER'', 0), (''AUDIO_OUTPUT'', 0),
     (''APPLICATION_LAUNCHER'', 0), (''APPLICATION_BASIC'', 0), (''ACCOUNT_LOGIN'', 0),
     (''CONTENT_CONTROL'', 0), (''CONTENT_APP_OBSERVER'', 0), (''ZONE_MANAGEMENT'', 0),
     (''CAMERA_AV_STREAM_MANAGEMENT'', 0), (''CAMERA_AV_SETTINGS_USER_LEVEL_MANAGEMENT'', 0),
     (''WEB_RTC_TRANSPORT_PROVIDER'', 0), (''WEB_RTC_TRANSPORT_REQUESTOR'', 0),
     (''PUSH_AV_STREAM_TRANSPORT'', 0), (''CHIME'', 0), (''COMMODITY_TARIFF'', 0),
     (''ECOSYSTEM_INFORMATION'', 0), (''COMMISSIONER_CONTROL'', 0), (''JOINT_FABRIC_DATASTORE'', 0),
     (''JOINT_FABRIC_ADMINISTRATOR'', 0), (''TLS_CERTIFICATE_MANAGEMENT'', 0),
     (''TLS_CLIENT_MANAGEMENT'', 0), (''METER_IDENTIFICATION'', 0), (''COMMODITY_METERING'', 0),
     (''UNIT_TESTING'', 0), (''FAULT_INJECTION'', 0), (''SAMPLE_MEI'', 0)]"

section \<open>Command flags\<close>

text \<open>The macros \<open><cluster>_ENABLE_<command>_CMD\<close> with their values.\<close>

definition CLUSTER_COMMAND_FLAGS :: "(string \<times> string \<times> nat) list" where
  "CLUSTER_COMMAND_FLAGS =
    [(''ADMINISTRATOR_COMMISSIONING'', ''OPEN_COMMISSIONING_WINDOW'', 1),
     (''ADMINISTRATOR_COMMISSIONING'', ''REVOKE_COMMISSIONING'', 1),
     (''GENERAL_COMMISSIONING'', ''ARM_FAIL_SAFE'', 1),
     (''GENERAL_COMMISSIONING'', ''SET_REGULATORY_CONFIG'', 1),
     (''GENERAL_COMMISSIONING'', ''COMMISSIONING_COMPLETE'', 1),
     (''GENERAL_DIAGNOSTICS'', ''TEST_EVENT_TRIGGER'', 1),
     (''GENERAL_DIAGNOSTICS'', ''TIME_SNAPSHOT'', 1), (''GROUP_KEY_MANAGEMENT'', ''KEY_SET_WRITE'', 1),
     (''GROUP_KEY_MANAGEMENT'', ''KEY_SET_READ'', 1),
     (''GROUP_KEY_MANAGEMENT'', ''KEY_SET_REMOVE'', 1),
     (''GROUP_KEY_MANAGEMENT'', ''KEY_SET_READ_ALL_INDICES'', 1), (''IDENTIFY'', ''IDENTIFY'', 1),
     (''IDENTIFY'', ''TRIGGER_EFFECT'', 1), (''OPERATIONAL_CREDENTIALS'', ''ATTESTATION_REQUEST'', 1),
     (''OPERATIONAL_CREDENTIALS'', ''CERTIFICATE_CHAIN_REQUEST'', 1),
     (''OPERATIONAL_CREDENTIALS'', ''CSR_REQUEST'', 1), (''OPERATIONAL_CREDENTIALS'', ''ADD_NOC'', 1),
     (''OPERATIONAL_CREDENTIALS'', ''UPDATE_NOC'', 1),
     (''OPERATIONAL_CREDENTIALS'', ''UPDATE_FABRIC_LABEL'', 1),
     (''OPERATIONAL_CREDENTIALS'', ''REMOVE_FABRIC'', 1),
     (''OPERATIONAL_CREDENTIALS'', ''ADD_TRUSTED_ROOT_CERTIFICATE'', 1),
     (''OPERATIONAL_CREDENTIALS'', ''SET_VID_VERIFICATION_STATEMENT'', 1),
     (''OPERATIONAL_CREDENTIALS'', ''SIGN_VID_VERIFICATION_REQUEST'', 1)]"

section \<open>Declared callbacks\<close>

text \<open>The declarations of the two headers in their order; a code-driven callback takes the endpoint.\<close>

definition declared_code_driven :: "(nat \<Rightarrow> callback) list" where
  "declared_code_driven =
    [MatterClusterInit Identify_Id, MatterClusterShutdown Identify_Id, MatterClusterInit Descriptor_Id,
     MatterClusterShutdown Descriptor_Id, MatterClusterInit AccessControl_Id,
     MatterClusterShutdown AccessControl_Id, MatterClusterInit BasicInformation_Id,
     MatterClusterShutdown BasicInformation_Id, MatterClusterInit LocalizationConfiguration_Id,
     MatterClusterShutdown LocalizationConfiguration_Id, MatterClusterInit GeneralCommissioning_Id,
     MatterClusterShutdown GeneralCommissioning_Id, MatterClusterInit GeneralDiagnostics_Id,
     MatterClusterShutdown GeneralDiagnostics_Id, MatterClusterInit AdministratorCommissioning_Id,
     MatterClusterShutdown AdministratorCommissioning_Id, MatterClusterInit OperationalCredentials_Id,
     MatterClusterShutdown OperationalCredentials_Id, MatterClusterInit GroupKeyManagement_Id,
     MatterClusterShutdown GroupKeyManagement_Id]"

definition declared_plugins :: "callback list" where
  "declared_plugins =
    [MatterPluginServerInit Identify_Id, MatterPluginServerInit Descriptor_Id,
     MatterPluginServerInit AccessControl_Id, MatterPluginServerInit BasicInformation_Id,
     MatterPluginServerInit OtaSoftwareUpdateRequestor_Id,
     MatterPluginServerInit LocalizationConfiguration_Id,
     MatterPluginServerInit GeneralCommissioning_Id, MatterPluginServerInit NetworkCommissioning_Id,
     MatterPluginServerInit GeneralDiagnostics_Id,
     MatterPluginServerInit AdministratorCommissioning_Id,
     MatterPluginServerInit OperationalCredentials_Id, MatterPluginServerInit GroupKeyManagement_Id,
     MatterPluginServerInit TemperatureMeasurement_Id,
     MatterPluginServerInit RelativeHumidityMeasurement_Id]"

text \<open>The weak callbacks do nothing; the linker uses one where there is no strong definition of it.\<close>

definition weak_cluster_init :: "callback \<Rightarrow> 's \<Rightarrow> 's" where
  "weak_cluster_init cb s = s"

definition linked :: "(callback \<Rightarrow> ('s \<Rightarrow> 's) option) \<Rightarrow> callback \<Rightarrow> 's \<Rightarrow> 's" where
  "linked strong cb = (case strong cb of Some f \<Rightarrow> f | None \<Rightarrow> weak_cluster_init cb)"

section \<open>Small tables of the endpoints\<close>

definition GENERATED_DEFAULTS :: "nat list" where
  "GENERATED_DEFAULTS = []"

definition GENERATED_DEFAULTS_COUNT :: nat where
  "GENERATED_DEFAULTS_COUNT = 0"

definition GENERATED_MIN_MAX_DEFAULTS :: "(nat \<times> nat \<times> nat) list" where
  "GENERATED_MIN_MAX_DEFAULTS = []"

definition GENERATED_MIN_MAX_DEFAULT_COUNT :: nat where
  "GENERATED_MIN_MAX_DEFAULT_COUNT = 0"

definition GENERATED_EVENTS :: "nat list" where
  "GENERATED_EVENTS = []"

definition GENERATED_EVENT_COUNT :: nat where
  "GENERATED_EVENT_COUNT = 0"

definition ZAP_FIXED_ENDPOINT_DATA_VERSION_COUNT :: nat where
  "ZAP_FIXED_ENDPOINT_DATA_VERSION_COUNT = 20"

definition FIXED_PROFILE_IDS :: "nat list" where
  "FIXED_PROFILE_IDS = [0x0103, 0x0103, 0x0103, 0x0103]"

text \<open>\<open>None\<close> is \<open>kInvalidEndpointId\<close>.\<close>

definition FIXED_PARENT_ENDPOINTS :: "nat option list" where
  "FIXED_PARENT_ENDPOINTS = [None, None, None, None]"

text \<open>The static assertion on the largest attribute; the limit is a setting of the SDK.\<close>

definition largest_attribute_fits :: "nat \<Rightarrow> bool" where
  "largest_attribute_fits max_element_size \<longleftrightarrow> ATTRIBUTE_LARGEST \<le> max_element_size"

section \<open>Agreement\<close>

fun macro_name :: "matter_cluster \<Rightarrow> string" where
  "macro_name AccessControl_Id = ''ACCESS_CONTROL''"
| "macro_name AdministratorCommissioning_Id = ''ADMINISTRATOR_COMMISSIONING''"
| "macro_name BasicInformation_Id = ''BASIC_INFORMATION''"
| "macro_name Descriptor_Id = ''DESCRIPTOR''"
| "macro_name GeneralCommissioning_Id = ''GENERAL_COMMISSIONING''"
| "macro_name GeneralDiagnostics_Id = ''GENERAL_DIAGNOSTICS''"
| "macro_name GroupKeyManagement_Id = ''GROUP_KEY_MANAGEMENT''"
| "macro_name Identify_Id = ''IDENTIFY''"
| "macro_name LocalizationConfiguration_Id = ''LOCALIZATION_CONFIGURATION''"
| "macro_name NetworkCommissioning_Id = ''NETWORK_COMMISSIONING''"
| "macro_name OtaSoftwareUpdateRequestor_Id = ''OTA_SOFTWARE_UPDATE_REQUESTOR''"
| "macro_name OperationalCredentials_Id = ''OPERATIONAL_CREDENTIALS''"
| "macro_name RelativeHumidityMeasurement_Id = ''RELATIVE_HUMIDITY_MEASUREMENT''"
| "macro_name TemperatureMeasurement_Id = ''TEMPERATURE_MEASUREMENT''"

definition SERVER_ENDPOINT_COUNTS :: "(string \<times> nat) list" where
  "SERVER_ENDPOINT_COUNTS = SERVER_ENDPOINT_COUNTS_1 @ SERVER_ENDPOINT_COUNTS_2"

definition CLIENT_ENDPOINT_COUNTS :: "(string \<times> nat) list" where
  "CLIENT_ENDPOINT_COUNTS = CLIENT_ENDPOINT_COUNTS_1 @ CLIENT_ENDPOINT_COUNTS_2"

lemma nonzero_server_counts:
  "filter (\<lambda>x. snd x \<noteq> 0) SERVER_ENDPOINT_COUNTS =
     map (\<lambda>c. (macro_name c, MATTER_DM_CLUSTER_SERVER_ENDPOINT_COUNT c))
       [Identify_Id, Descriptor_Id, AccessControl_Id, BasicInformation_Id, OtaSoftwareUpdateRequestor_Id,
        LocalizationConfiguration_Id, GeneralCommissioning_Id, NetworkCommissioning_Id,
        GeneralDiagnostics_Id, AdministratorCommissioning_Id, OperationalCredentials_Id,
        GroupKeyManagement_Id, TemperatureMeasurement_Id, RelativeHumidityMeasurement_Id]"
  by (simp add: SERVER_ENDPOINT_COUNTS_def SERVER_ENDPOINT_COUNTS_1_def SERVER_ENDPOINT_COUNTS_2_def)

lemma no_client_clusters: "list_all (\<lambda>x. snd x = 0) CLIENT_ENDPOINT_COUNTS"
  by (simp add: CLIENT_ENDPOINT_COUNTS_def CLIENT_ENDPOINT_COUNTS_1_def CLIENT_ENDPOINT_COUNTS_2_def)

lemma same_names: "map fst CLIENT_ENDPOINT_COUNTS = map fst SERVER_ENDPOINT_COUNTS"
  by (simp add: SERVER_ENDPOINT_COUNTS_def SERVER_ENDPOINT_COUNTS_1_def SERVER_ENDPOINT_COUNTS_2_def
      CLIENT_ENDPOINT_COUNTS_def CLIENT_ENDPOINT_COUNTS_1_def CLIENT_ENDPOINT_COUNTS_2_def)

definition flags_of :: "matter_cluster \<Rightarrow> nat" where
  "flags_of c = length (filter (\<lambda>(n, k, b). n = macro_name c \<and> b = 1) CLUSTER_COMMAND_FLAGS)"

definition accepted_count :: "matter_cluster \<Rightarrow> nat list" where
  "accepted_count c = map (\<lambda>m. length (accepted_commands m)) (filter (\<lambda>m. c_id m = Id c) GENERATED_CLUSTERS)"

lemma accepted_counts: "list_all (\<lambda>n. n = flags_of c) (accepted_count c)"
proof -
  have "list_all (\<lambda>c. list_all (\<lambda>n. n = flags_of c) (accepted_count c)) all_clusters" by code_simp
  then show ?thesis using set_all_clusters by (simp add: list_all_iff)
qed

lemma server_count_names:
  "map_of SERVER_ENDPOINT_COUNTS (macro_name c) = Some (length (filter (\<lambda>m. c_id m = Id c) GENERATED_CLUSTERS))"
proof -
  have "list_all (\<lambda>c. map_of SERVER_ENDPOINT_COUNTS (macro_name c) =
      Some (length (filter (\<lambda>m. c_id m = Id c) GENERATED_CLUSTERS))) all_clusters" by code_simp
  then show ?thesis using set_all_clusters by (simp add: list_all_iff)
qed

lemma nonzero_names: "set (map fst (filter (\<lambda>x. snd x \<noteq> 0) SERVER_ENDPOINT_COUNTS)) = range macro_name"
proof -
  have "range macro_name = macro_name ` set all_clusters" by (simp add: set_all_clusters)
  then show ?thesis
    unfolding nonzero_server_counts by (auto simp: all_clusters_def simp del: macro_name.simps)
qed

lemma callbacks_declared:
  "cb \<in> set (MatterClusterServerInitCallback ep i) \<Longrightarrow> cb \<in> (\<lambda>f. f ep) ` set declared_code_driven"
  "cb \<in> set (MatterClusterServerShutdownCallback ep i) \<Longrightarrow> cb \<in> (\<lambda>f. f ep) ` set declared_code_driven"
  by (simp_all add: MatterClusterServerInitCallback_def MatterClusterServerShutdownCallback_def
      declared_code_driven_def del: Id.simps split: if_splits)

lemma plugins_declared: "declared_plugins = MATTER_PLUGINS_INIT"
  by (simp add: declared_plugins_def MATTER_PLUGINS_INIT_def)

lemma weak_init_does_nothing:
  "(\<And>cb. strong cb = None) \<Longrightarrow> fold (linked strong) (emberAfClusterInitCallback ep i) s = s"
  by (simp add: emberAfClusterInitCallback_def linked_def weak_cluster_init_def)

lemma endpoint_arrays:
  "length FIXED_PROFILE_IDS = FIXED_ENDPOINT_COUNT" "length FIXED_PARENT_ENDPOINTS = FIXED_ENDPOINT_COUNT"
  "ZAP_FIXED_ENDPOINT_DATA_VERSION_COUNT = length GENERATED_CLUSTERS"
  "length GENERATED_DEFAULTS = GENERATED_DEFAULTS_COUNT"
  "length GENERATED_MIN_MAX_DEFAULTS = GENERATED_MIN_MAX_DEFAULT_COUNT"
  "length GENERATED_EVENTS = GENERATED_EVENT_COUNT"
  by (simp_all add: FIXED_PROFILE_IDS_def FIXED_PARENT_ENDPOINTS_def FIXED_ENDPOINT_COUNT_def
      ZAP_FIXED_ENDPOINT_DATA_VERSION_COUNT_def length_GENERATED_CLUSTERS GENERATED_DEFAULTS_def
      GENERATED_DEFAULTS_COUNT_def GENERATED_MIN_MAX_DEFAULTS_def GENERATED_MIN_MAX_DEFAULT_COUNT_def
      GENERATED_EVENTS_def GENERATED_EVENT_COUNT_def)

section \<open>Summary\<close>

text \<open>C40. The feature macros say what the data model says: for every cluster the server count is the
  number of endpoints that have it and the enabled command flags are as many as its accepted commands
  on each of them; every other server count and every client count is zero; and the data version
  counter has one slot for each cluster.\<close>

theorem features_match_model:
  "map_of SERVER_ENDPOINT_COUNTS (macro_name c) =
     Some (length (filter (\<lambda>m. c_id m = Id c) GENERATED_CLUSTERS)) \<and>
   list_all (\<lambda>n. n = flags_of c) (accepted_count c) \<and>
   set (map fst (filter (\<lambda>x. snd x \<noteq> 0) SERVER_ENDPOINT_COUNTS)) = range macro_name \<and>
   map fst CLIENT_ENDPOINT_COUNTS = map fst SERVER_ENDPOINT_COUNTS \<and>
   list_all (\<lambda>x. snd x = 0) CLIENT_ENDPOINT_COUNTS \<and>
   ZAP_FIXED_ENDPOINT_DATA_VERSION_COUNT = length GENERATED_CLUSTERS"
  by (intro conjI server_count_names accepted_counts nonzero_names same_names no_client_clusters endpoint_arrays(3))

end
