(* ===== verification/Pyfloat.thy ===== *)
theory Pyfloat
  imports Prelude Complex_Main "HOL-Library.Log_Nat"
begin

text \<open>
  Python's \<open>float\<close>: IEEE 754 binary64 with rounding to nearest, ties to even. A finite value is the
  rational it denotes, so the two zeros are one value: the code never divides by a zero, and
  prints no sign the models look at. The lemmas are the order of the values, \<open>max\<close>, \<open>min\<close> and the
  clamp built from them with NaN included, and the exactness of the rounding on doubles.
\<close>

datatype pyfloat = Fin rat | PInf | NInf | NaN

section \<open>Rounding\<close>

text \<open>The exponent of a positive rational: \<open>2 powi e \<le> x < 2 powi (e + 1)\<close>.\<close>

definition ilog2 :: "rat \<Rightarrow> int" where
  "ilog2 x =
     (case quotient_of x of (n, d) \<Rightarrow>
        let k = bitlen n - bitlen d in if 2 powi k \<le> x then k else k - 1)"

definition rne :: "rat \<Rightarrow> int" where
  "rne x =
     (let f = \<lfloor>x\<rfloor>; r = x - of_int f
      in if r < 1 / 2 then f else if r > 1 / 2 then f + 1 else if even f then f else f + 1)"

text \<open>The distance of neighbouring doubles around \<open>x\<close>; subnormals share the smallest one.\<close>

definition quantum :: "rat \<Rightarrow> rat" where
  "quantum x = 2 powi (max (ilog2 \<bar>x\<bar>) (- 1022) - 52)"

definition fl :: "rat \<Rightarrow> pyfloat" where
  "fl x =
     (if x = 0 then Fin 0
      else let v = of_int (rne (x / quantum x)) * quantum x
           in if 2 ^ 1024 \<le> v then PInf else if v \<le> - (2 ^ 1024) then NInf else Fin v)"

section \<open>Operations\<close>

fun fneg :: "pyfloat \<Rightarrow> pyfloat" where
  "fneg (Fin a) = Fin (- a)"
| "fneg PInf = NInf"
| "fneg NInf = PInf"
| "fneg NaN = NaN"

fun fadd :: "pyfloat \<Rightarrow> pyfloat \<Rightarrow> pyfloat" where
  "fadd (Fin a) (Fin b) = fl (a + b)"
| "fadd NaN y = NaN"
| "fadd x NaN = NaN"
| "fadd PInf NInf = NaN"
| "fadd NInf PInf = NaN"
| "fadd PInf y = PInf"
| "fadd NInf y = NInf"
| "fadd x PInf = PInf"
| "fadd x NInf = NInf"

definition fsub :: "pyfloat \<Rightarrow> pyfloat \<Rightarrow> pyfloat" where
  "fsub x y = fadd x (fneg y)"

text \<open>The infinity with the sign of a product with an infinity; 0 times an infinity is NaN.\<close>

definition inf_sign :: "rat \<Rightarrow> pyfloat" where
  "inf_sign a = (if a = 0 then NaN else if 0 < a then PInf else NInf)"

fun fmul :: "pyfloat \<Rightarrow> pyfloat \<Rightarrow> pyfloat" where
  "fmul (Fin a) (Fin b) = fl (a * b)"
| "fmul NaN y = NaN"
| "fmul x NaN = NaN"
| "fmul PInf PInf = PInf"
| "fmul PInf NInf = NInf"
| "fmul NInf PInf = NInf"
| "fmul NInf NInf = PInf"
| "fmul PInf (Fin a) = inf_sign a"
| "fmul NInf (Fin a) = inf_sign (- a)"
| "fmul (Fin a) PInf = inf_sign a"
| "fmul (Fin a) NInf = inf_sign (- a)"

datatype py_error =
    ZeroDivisionError | OverflowError | ValueError string | RuntimeError string | TimeoutExpired | OtherError

fun fdiv :: "pyfloat \<Rightarrow> pyfloat \<Rightarrow> py_error + pyfloat" where
  "fdiv x (Fin b) =
     (if b = 0 then Inl ZeroDivisionError
      else Inr (case x of
                  Fin a \<Rightarrow> fl (a / b)
                | PInf \<Rightarrow> inf_sign b
                | NInf \<Rightarrow> inf_sign (- b)
                | NaN \<Rightarrow> NaN))"
| "fdiv (Fin a) PInf = Inr (Fin 0)"
| "fdiv (Fin a) NInf = Inr (Fin 0)"
| "fdiv x y = Inr NaN"

fun fabs :: "pyfloat \<Rightarrow> pyfloat" where
  "fabs (Fin a) = Fin \<bar>a\<bar>"
| "fabs NaN = NaN"
| "fabs _ = PInf"

fun flt :: "pyfloat \<Rightarrow> pyfloat \<Rightarrow> bool" where
  "flt (Fin a) (Fin b) \<longleftrightarrow> a < b"
| "flt NaN y \<longleftrightarrow> False"
| "flt x NaN \<longleftrightarrow> False"
| "flt NInf y \<longleftrightarrow> y \<noteq> NInf"
| "flt x PInf \<longleftrightarrow> x \<noteq> PInf"
| "flt x y \<longleftrightarrow> False"

definition fle :: "pyfloat \<Rightarrow> pyfloat \<Rightarrow> bool" where
  "fle x y \<longleftrightarrow> flt x y \<or> x = y \<and> x \<noteq> NaN"

text \<open>\<open>math.floor\<close>, and the conversion of an integer.\<close>

fun py_floor :: "pyfloat \<Rightarrow> py_error + int" where
  "py_floor (Fin a) = Inr \<lfloor>a\<rfloor>"
| "py_floor NaN = Inl (ValueError ''cannot convert float NaN to integer'')"
| "py_floor _ = Inl OverflowError"

definition float_of_int :: "int \<Rightarrow> py_error + pyfloat" where
  "float_of_int k = (case fl (of_int k) of Fin a \<Rightarrow> Inr (Fin a) | _ \<Rightarrow> Inl OverflowError)"

text \<open>\<open>max\<close> and \<open>min\<close> of two arguments keep the first unless the second is strictly beyond it.\<close>

definition py_max :: "pyfloat \<Rightarrow> pyfloat \<Rightarrow> pyfloat" where
  "py_max a b = (if flt a b then b else a)"

definition py_min :: "pyfloat \<Rightarrow> pyfloat \<Rightarrow> pyfloat" where
  "py_min a b = (if flt b a then b else a)"

section \<open>Order\<close>

lemma flt_irrefl [simp]: "\<not> flt x x"
  by (cases x) simp_all

lemma flt_NaN [simp]: "\<not> flt x NaN" "\<not> flt NaN x"
  by (cases x; simp)+

lemma flt_trans: "flt x y \<Longrightarrow> flt y z \<Longrightarrow> flt x z"
  by (cases x; cases y; cases z) auto

lemma flt_linear: "x \<noteq> NaN \<Longrightarrow> y \<noteq> NaN \<Longrightarrow> flt x y \<or> x = y \<or> flt y x"
  by (cases x; cases y) auto

lemma not_flt_iff: "x \<noteq> NaN \<Longrightarrow> y \<noteq> NaN \<Longrightarrow> \<not> flt x y \<longleftrightarrow> fle y x"
  using flt_linear [of x y] flt_trans [of x y x] by (auto simp: fle_def)

lemma fle_Fin [simp]: "fle (Fin a) (Fin b) \<longleftrightarrow> a \<le> b"
  by (auto simp: fle_def)

lemma fle_refl: "x \<noteq> NaN \<Longrightarrow> fle x x"
  by (simp add: fle_def)

lemma fle_trans: "fle x y \<Longrightarrow> fle y z \<Longrightarrow> fle x z"
  by (auto simp: fle_def dest: flt_trans)

lemma fle_not_NaN: "fle x y \<Longrightarrow> x \<noteq> NaN \<and> y \<noteq> NaN"
  by (auto simp: fle_def)

lemma fle_NaN [simp]: "\<not> fle x NaN" "\<not> fle NaN x"
  by (auto simp: fle_def)

lemma flt_fle_trans: "flt x y \<Longrightarrow> fle y z \<Longrightarrow> flt x z"
  by (auto simp: fle_def dest: flt_trans)

text \<open>The clamp always ends inside its bounds, for a NaN argument too: then at the upper one.\<close>

lemma clamp_bounds:
  assumes "fle lo hi"
  shows "fle lo (py_max lo (py_min hi v)) \<and> fle (py_max lo (py_min hi v)) hi"
  using assms fle_not_NaN [OF assms] flt_linear [of lo "py_min hi v"] fle_refl
  by (auto simp: py_max_def py_min_def fle_def)

lemma clamp_NaN: "fle lo hi \<Longrightarrow> py_max lo (py_min hi NaN) = hi"
  using fle_not_NaN [of lo hi] by (auto simp: py_max_def py_min_def fle_def)

lemma clamp_inside: "fle lo v \<Longrightarrow> fle v hi \<Longrightarrow> py_max lo (py_min hi v) = v"
  using flt_trans [of v hi v] flt_trans [of lo v lo]
  by (auto simp: py_max_def py_min_def fle_def)

section \<open>Rounding to doubles\<close>

lemma powi_less_imp_less: "(2::rat) powi a < 2 powi b \<Longrightarrow> a < b"
  using power_int_increasing [of b a "2::rat"] by (cases "a < b") auto

lemma powi_shift: "a = b + int n \<Longrightarrow> (2::rat) powi a = 2 ^ n * 2 powi b"
  by (simp add: power_int_add)

lemma bitlen_powi:
  assumes "0 < n"
  shows "(2::rat) powi (bitlen n - 1) \<le> of_int n \<and> of_int n < (2::rat) powi bitlen n"
proof -
  have b: "1 \<le> bitlen n" using assms by (auto simp: bitlen_alt_def)
  from bitlen_bounds [OF assms] have "(of_int (2 ^ nat (bitlen n - 1)) :: rat) \<le> of_int n"
    "(of_int n :: rat) < of_int (2 ^ nat (bitlen n))"
    unfolding of_int_le_iff of_int_less_iff by auto
  with b show ?thesis by (simp add: power_int_def)
qed

lemma ilog2_bounds:
  assumes "0 < x"
  shows "2 powi ilog2 x \<le> x \<and> x < 2 powi (ilog2 x + 1)"
proof -
  obtain n d where q: "quotient_of x = (n, d)" by fastforce
  have d: "0 < d" using quotient_of_denom_pos [OF q] .
  have x: "x = of_int n / of_int d" using quotient_of_div [OF q] .
  have n: "0 < n" using assms d x by (simp add: zero_less_divide_iff)
  note bn = bitlen_powi [OF n] and bd = bitlen_powi [OF d]
  let ?k = "bitlen n - bitlen d"
  have up: "x < 2 powi (?k + 1)"
  proof -
    have "of_int n < (2::rat) powi bitlen n" using bn by simp
    also have "\<dots> = 2 powi (?k + 1) * 2 powi (bitlen d - 1)"
      by (simp flip: power_int_add)
    also have "\<dots> \<le> 2 powi (?k + 1) * of_int d"
      using bd by simp
    finally show ?thesis using d by (simp add: x divide_less_eq)
  qed
  have lo: "2 powi (?k - 1) \<le> x"
  proof -
    have "2 powi (?k - 1) * of_int d \<le> (2::rat) powi (?k - 1) * 2 powi bitlen d"
      using bd by simp
    also have "\<dots> = 2 powi (bitlen n - 1)"
      by (simp flip: power_int_add)
    also have "\<dots> \<le> of_int n" using bn by simp
    finally show ?thesis using d by (simp add: x le_divide_eq)
  qed
  from up lo show ?thesis by (auto simp: ilog2_def q Let_def)
qed

lemma ilog2_unique:
  assumes "2 powi e \<le> x" "x < 2 powi (e + 1)"
  shows "ilog2 x = e"
proof -
  have "0 < x" using assms(1) less_le_trans [of 0 "2 powi e" x] by simp
  note b = ilog2_bounds [OF this]
  from b assms have "(2::rat) powi ilog2 x < 2 powi (e + 1)" "(2::rat) powi e < 2 powi (ilog2 x + 1)"
    by auto
  then have "ilog2 x < e + 1" "e < ilog2 x + 1"
    using powi_less_imp_less by blast+
  then show ?thesis by simp
qed

lemma rne_of_int [simp]: "rne (of_int k) = k"
  by (simp add: rne_def)

lemma rne_mono: "x \<le> y \<Longrightarrow> rne x \<le> rne y"
proof -
  assume a: "x \<le> y"
  have fxy: "\<lfloor>x\<rfloor> \<le> \<lfloor>y\<rfloor>" using a by (rule floor_mono)
  have r: "\<lfloor>z\<rfloor> \<le> rne z \<and> rne z \<le> \<lfloor>z\<rfloor> + 1" for z by (simp add: rne_def Let_def)
  show ?thesis
  proof (cases "\<lfloor>x\<rfloor> = \<lfloor>y\<rfloor>")
    case True
    with a show ?thesis by (auto simp: rne_def Let_def)
  next
    case False
    with fxy have "\<lfloor>x\<rfloor> + 1 \<le> \<lfloor>y\<rfloor>" by simp
    with r [of x] r [of y] show ?thesis by linarith
  qed
qed

lemma rne_minus: "rne (- x) = - rne x"
proof (cases "x = of_int \<lfloor>x\<rfloor>")
  case True
  then show ?thesis using rne_of_int [of "\<lfloor>x\<rfloor>"] rne_of_int [of "- \<lfloor>x\<rfloor>"] by simp
next
  case False
  let ?f = "\<lfloor>x\<rfloor>"
  from False have "of_int ?f < x" using of_int_floor_le [of x] by linarith
  moreover have "x < of_int ?f + 1" by linarith
  ultimately have f: "\<lfloor>- x\<rfloor> = - ?f - 1" by (intro floor_unique) auto
  show ?thesis unfolding rne_def f Let_def by auto
qed

definition fl_val :: "rat \<Rightarrow> rat" where
  "fl_val x = of_int (rne (x / quantum x)) * quantum x"

lemma quantum_pos [simp]: "0 < quantum x"
  by (simp add: quantum_def)

lemma quantum_minus [simp]: "quantum (- x) = quantum x"
  by (simp add: quantum_def)

lemma divide_quantum: "y = m * quantum x \<Longrightarrow> y / quantum x = m"
  using quantum_pos [of x] by (simp del: quantum_pos)

lemma fl_val_minus: "fl_val (- x) = - fl_val x"
  by (simp add: fl_val_def rne_minus flip: minus_divide_left)

lemma fl_val_0 [simp]: "fl_val 0 = 0"
  using rne_of_int [of 0] by (simp add: fl_val_def)

lemma fl_val_nonneg: "0 \<le> x \<Longrightarrow> 0 \<le> fl_val x"
  using rne_mono [of 0 "x / quantum x"] rne_of_int [of 0]
  by (simp add: fl_val_def order_less_imp_le)

lemma quantum_cases:
  assumes "0 < x"
  obtains e where "- 1022 \<le> e" "quantum x = 2 powi (e - 52)" "x < 2 powi (e + 1)"
    "e = - 1022 \<or> 2 powi e \<le> x"
proof -
  let ?e = "max (ilog2 \<bar>x\<bar>) (- 1022)"
  note b = ilog2_bounds [OF assms]
  have "x < 2 powi (?e + 1)"
    using b assms power_int_increasing [of "ilog2 x + 1" "?e + 1" "2::rat"] by (auto simp: max_def)
  moreover have "?e = - 1022 \<or> 2 powi ?e \<le> x" using b assms by (auto simp: max_def)
  ultimately show ?thesis using that [of ?e] by (simp add: quantum_def)
qed

lemma fl_val_upper:
  assumes "0 < x" "quantum x = 2 powi (e - 52)" "x < 2 powi (e + 1)"
  shows "fl_val x \<le> 2 powi (e + 1)"
proof -
  have s: "2 powi (e + 1) = of_int (2 ^ 53) * (2 powi (e - 52) :: rat)"
    using powi_shift [of "e + 1" "e - 52" 53] by simp
  have "x / quantum x \<le> of_int (2 ^ 53)"
    using assms s by (simp add: divide_le_eq)
  then have "rne (x / quantum x) \<le> 2 ^ 53" using rne_mono rne_of_int by metis
  then have "(of_int (rne (x / quantum x)) :: rat) \<le> of_int (2 ^ 53)" by (simp only: of_int_le_iff)
  then show ?thesis unfolding fl_val_def s assms(2) by (intro mult_right_mono) simp_all
qed

lemma fl_val_lower:
  assumes "quantum x = 2 powi (e - 52)" "2 powi e \<le> x"
  shows "2 powi e \<le> fl_val x"
proof -
  have s: "2 powi e = of_int (2 ^ 52) * (2 powi (e - 52) :: rat)"
    using powi_shift [of e "e - 52" 52] by simp
  have "of_int (2 ^ 52) \<le> x / quantum x"
    using assms s by (simp add: le_divide_eq)
  then have "2 ^ 52 \<le> rne (x / quantum x)" using rne_mono rne_of_int by metis
  then have "of_int (2 ^ 52) \<le> (of_int (rne (x / quantum x)) :: rat)" by (simp only: of_int_le_iff)
  then show ?thesis unfolding fl_val_def s assms(1) by (intro mult_right_mono) simp_all
qed

lemma fl_val_mono_pos:
  assumes "0 < x" "x \<le> y"
  shows "fl_val x \<le> fl_val y"
proof -
  from assms have y: "0 < y" by simp
  obtain e where e: "- 1022 \<le> e" "quantum x = 2 powi (e - 52)" "x < 2 powi (e + 1)"
    "e = - 1022 \<or> 2 powi e \<le> x" using quantum_cases [OF assms(1)] .
  obtain g where g: "- 1022 \<le> g" "quantum y = 2 powi (g - 52)" "y < 2 powi (g + 1)"
    "g = - 1022 \<or> 2 powi g \<le> y" using quantum_cases [OF y] .
  consider "g = e" | "e < g" | "g < e" by linarith
  then show ?thesis
  proof cases
    case 1
    then have "x / quantum x \<le> y / quantum y" using assms e g by (simp add: divide_right_mono)
    then show ?thesis using 1 e g by (simp add: fl_val_def rne_mono)
  next
    case 2
    then have "2 powi g \<le> y" using e g by auto
    then have "2 powi g \<le> fl_val y" by (rule fl_val_lower [OF g(2)])
    moreover have "fl_val x \<le> 2 powi (e + 1)" by (rule fl_val_upper [OF assms(1) e(2,3)])
    moreover have "(2::rat) powi (e + 1) \<le> 2 powi g" using 2 by (intro power_int_increasing) auto
    ultimately show ?thesis by linarith
  next
    case 3
    then have "2 powi e \<le> x" using e g by auto
    moreover have "(2::rat) powi (g + 1) \<le> 2 powi e" using 3 by (intro power_int_increasing) auto
    ultimately show ?thesis using g assms by linarith
  qed
qed

lemma fl_val_mono: "x \<le> y \<Longrightarrow> fl_val x \<le> fl_val y"
proof -
  assume a: "x \<le> y"
  consider "0 < x" | "y < 0" | "x \<le> 0" "0 \<le> y" using a by linarith
  then show ?thesis
  proof cases
    case 1
    with a show ?thesis by (rule fl_val_mono_pos [rotated])
  next
    case 2
    then have "fl_val (- y) \<le> fl_val (- x)" using a by (intro fl_val_mono_pos) auto
    then show ?thesis by (simp add: fl_val_minus)
  next
    case 3
    then show ?thesis using fl_val_nonneg [of y] fl_val_nonneg [of "- x"] by (simp add: fl_val_minus)
  qed
qed

lemma fl_eq:
  "fl x = (if 2 ^ 1024 \<le> fl_val x then PInf else if fl_val x \<le> - (2 ^ 1024) then NInf
           else Fin (fl_val x))"
  by (simp add: fl_def fl_val_def [symmetric])

lemma fl_not_NaN [simp]: "fl x \<noteq> NaN"
  by (simp add: fl_eq)

text \<open>Rounding is monotone.\<close>

lemma fl_mono: "x \<le> y \<Longrightarrow> fle (fl x) (fl y)"
  using fl_val_mono [of x y] by (auto simp: fl_eq fle_def)

text \<open>A number with a mantissa of 53 bits that is neither too small nor too large is not rounded.\<close>

lemma fl_val_dyadic:
  assumes "x = of_int k * 2 powi j" "\<bar>k\<bar> \<le> 2 ^ 53" "- 1074 \<le> j"
  shows "fl_val x = x"
proof (cases "x = 0")
  case False
  then have k: "k \<noteq> 0" using assms by auto
  let ?e = "ilog2 \<bar>x\<bar>"
  have p: "0 < \<bar>x\<bar>" using False by simp
  have ax: "\<bar>x\<bar> = of_int \<bar>k\<bar> * 2 powi j" using assms(1) by (simp add: abs_mult)
  note b = ilog2_bounds [OF p]
  have "\<exists>m. x / quantum x = of_int m"
  proof (cases "max ?e (- 1022) - 52 \<le> j")
    case True
    let ?i = "j - (max ?e (- 1022) - 52)"
    have "(2::rat) powi j = 2 ^ nat ?i * quantum x"
      unfolding quantum_def using True by (intro powi_shift) simp
    then have "x = of_int (k * 2 ^ nat ?i) * quantum x" by (simp add: assms(1))
    then have "x / quantum x = of_int (k * 2 ^ nat ?i)" by (rule divide_quantum)
    then show ?thesis ..
  next
    case f: False
    then have gt: "j + 52 < ?e" using assms(3) by (auto simp: max_def split: if_splits)
    have "(2::rat) powi ?e \<le> of_int (2 ^ 53) * 2 powi j"
    proof -
      have "(of_int \<bar>k\<bar> :: rat) \<le> of_int (2 ^ 53)" using assms(2) by (simp only: of_int_le_iff)
      then have "\<bar>x\<bar> \<le> of_int (2 ^ 53) * 2 powi j" unfolding ax by (intro mult_right_mono) simp_all
      with b show ?thesis by linarith
    qed
    also have "\<dots> = 2 powi (j + 53)"
      using powi_shift [of "j + 53" j 53] by simp
    finally have "\<not> (2::rat) powi (j + 53) < 2 powi ?e" by simp
    then have "?e \<le> j + 53"
      using power_int_strict_increasing [of "j + 53" ?e "2::rat"] by (cases "?e \<le> j + 53") auto
    with gt have e: "?e = j + 53" by simp
    have "(2::rat) powi (j + 53) \<le> of_int \<bar>k\<bar> * 2 powi j" using b e ax by simp
    then have "of_int (2 ^ 53) * (2::rat) powi j \<le> of_int \<bar>k\<bar> * 2 powi j"
      using powi_shift [of "j + 53" j 53] by simp
    then have "(of_int (2 ^ 53) :: rat) \<le> of_int \<bar>k\<bar>" by (simp only: mult_le_cancel_right) simp
    then have "2 ^ 53 \<le> \<bar>k\<bar>" by (simp only: of_int_le_iff)
    with assms(2) have k53: "k = 2 ^ 53 \<or> k = - (2 ^ 53)" by linarith
    have q: "quantum x = 2 powi (j + 1)" using gt assms(3) e by (simp add: quantum_def max_def add.commute)
    have h: "(2::rat) powi (j + 1) = 2 * 2 powi j" by (simp add: power_int_add)
    have "of_int k * 2 powi j = of_int (k div 2) * (2 * (2::rat) powi j)" using k53 by auto
    then have "x = of_int (k div 2) * quantum x" unfolding q h using assms(1) by (rule trans [rotated])
    then have "x / quantum x = of_int (k div 2)" by (rule divide_quantum)
    then show ?thesis ..
  qed
  then obtain m where "x / quantum x = of_int m" ..
  moreover from this have "x = of_int m * quantum x"
    using quantum_pos [of x] by (metis less_irrefl nonzero_divide_eq_eq)
  ultimately show ?thesis by (simp add: fl_val_def)
qed simp

lemma fl_dyadic:
  assumes "\<bar>k\<bar> \<le> 2 ^ 53" "- 1074 \<le> j" "\<bar>of_int k * 2 powi j\<bar> < (2 ^ 1024 :: rat)"
  shows "fl (of_int k * 2 powi j) = Fin (of_int k * 2 powi j)"
  using fl_val_dyadic [OF refl assms(1,2)] assms(3) by (auto simp: fl_eq abs_less_iff)

lemma fl_of_int: "\<bar>k\<bar> \<le> 2 ^ 53 \<Longrightarrow> fl (of_int k) = Fin (of_int k)"
proof -
  assume k: "\<bar>k\<bar> \<le> 2 ^ 53"
  then have "(of_int \<bar>k\<bar> :: rat) \<le> of_int (2 ^ 53)" by (simp only: of_int_le_iff)
  also have "\<dots> < 2 ^ 1024" by simp
  finally show ?thesis using fl_dyadic [OF k, of 0] by simp
qed

lemma fl_numeral [simp]:
  "(numeral n :: int) \<le> 2 ^ 53 \<Longrightarrow> fl (numeral n) = Fin (numeral n)"
  "(numeral n :: int) \<le> 2 ^ 53 \<Longrightarrow> fl (- numeral n) = Fin (- numeral n)"
  "fl 0 = Fin 0" "fl 1 = Fin 1" "fl (- 1) = Fin (- 1)"
  using fl_of_int [of "numeral n"] fl_of_int [of "- numeral n"] fl_of_int [of 0] fl_of_int [of 1]
    fl_of_int [of "- 1"]
  by simp_all

text \<open>Adding, subtracting and multiplying by a fraction below one keep the order of the operands.\<close>

lemma fadd_mono_Fin: "a \<le> b \<Longrightarrow> fle (fadd (Fin a) (Fin c)) (fadd (Fin b) (Fin c))"
  by (simp add: fl_mono)

lemma fmul_le:
  assumes "0 \<le> m" "m \<le> 1" "0 \<le> w" "fl w = Fin w"
  shows "fle (Fin 0) (fmul (Fin m) (Fin w)) \<and> fle (fmul (Fin m) (Fin w)) (Fin w)"
proof -
  have "m * w \<le> w" using mult_right_mono [OF assms(2,3)] by simp
  moreover have "0 \<le> m * w" using assms by simp
  ultimately show ?thesis using fl_mono [of 0 "m * w"] fl_mono [of "m * w" w] assms(4) by simp
qed

end
