(* ===== verification/Pystring.thy ===== *)
theory Pystring
  imports Main
begin

text \<open>
  The string operations the host programs use, on strings whose characters have code points below 256:
  decimal numerals, and Python's \<open>strip\<close>, \<open>splitlines\<close>, \<open>split\<close> with a bound of one, and \<open>in\<close> for a
  single character. The lemmas are the round trip of integers through their numerals and the facts on
  takes and drops that the parsers of the other theories share.
\<close>

section \<open>Numerals\<close>

definition is_digit :: "char \<Rightarrow> bool" where
  "is_digit c \<longleftrightarrow> 48 \<le> (of_char c :: nat) \<and> (of_char c :: nat) \<le> 57"

definition digit_val :: "char \<Rightarrow> nat" where
  "digit_val c = of_char c - 48"

definition dec_val :: "string \<Rightarrow> nat" where
  "dec_val s = foldl (\<lambda>v c. 10 * v + digit_val c) 0 s"

definition digit_char :: "nat \<Rightarrow> char" where
  "digit_char d = char_of (48 + d)"

fun show_nat :: "nat \<Rightarrow> string" where
  "show_nat n = (if n < 10 then [digit_char n] else show_nat (n div 10) @ [digit_char (n mod 10)])"

declare show_nat.simps [simp del]

definition show_int :: "int \<Rightarrow> string" where
  "show_int k = (if k < 0 then CHR ''-'' # show_nat (nat (- k)) else show_nat (nat k))"

lemma digit_char_simps [simp]:
  "d < 10 \<Longrightarrow> is_digit (digit_char d)" "d < 10 \<Longrightarrow> digit_val (digit_char d) = d"
  by (simp_all add: is_digit_def digit_val_def digit_char_def)

lemma dec_val_simps [simp]:
  "dec_val [] = 0" "dec_val (s @ [c]) = 10 * dec_val s + digit_val c"
  by (simp_all add: dec_val_def)

lemma dec_val_Cons: "dec_val (c # cs) = 10 ^ length cs * digit_val c + dec_val cs"
  by (induction cs rule: rev_induct) (simp_all add: dec_val_simps(2) [of "_ # _", simplified] dec_val_def algebra_simps)

lemma show_nat_digits: "c \<in> set (show_nat n) \<Longrightarrow> is_digit c"
proof (induction n rule: show_nat.induct)
  case (1 n)
  then show ?case by (cases "n < 10") (auto simp: show_nat.simps [of n])
qed

lemma show_nat_nonempty [simp]: "show_nat n \<noteq> []"
  by (simp add: show_nat.simps [of n])

lemma dec_val_show_nat [simp]: "dec_val (show_nat n) = n"
proof (induction n rule: show_nat.induct)
  case (1 n)
  show ?case
  proof (cases "n < 10")
    case True
    with dec_val_simps(2) [of "[]" "digit_char n"] show ?thesis by (simp add: show_nat.simps [of n])
  next
    case False
    with 1 show ?thesis by (simp add: show_nat.simps [of n])
  qed
qed

lemma length_show_nat: "n < 10 ^ k \<Longrightarrow> 0 < k \<Longrightarrow> length (show_nat n) \<le> k"
proof (induction n arbitrary: k rule: show_nat.induct)
  case (1 n)
  show ?case
  proof (cases "n < 10")
    case True
    with 1 show ?thesis by (simp add: show_nat.simps [of n])
  next
    case False
    with 1(2,3) obtain j where j: "k = Suc j" "0 < j" by (cases k; cases "k - 1") auto
    with 1(2) have "n div 10 < 10 ^ j" by (simp add: div_less_iff_less_mult mult.commute)
    with 1(1) [OF False this j(2)] False j show ?thesis by (simp add: show_nat.simps [of n])
  qed
qed

lemma takeWhile_digits [simp]:
  "(case post of [] \<Rightarrow> True | c # _ \<Rightarrow> \<not> is_digit c) \<Longrightarrow> takeWhile is_digit (show_nat n @ post) = show_nat n"
  "(case post of [] \<Rightarrow> True | c # _ \<Rightarrow> \<not> is_digit c) \<Longrightarrow> dropWhile is_digit (show_nat n @ post) = post"
  by (cases post; simp add: show_nat_digits takeWhile_append2 dropWhile_append2)+

section \<open>Python strings\<close>

text \<open>The white space of \<open>strip\<close> and of \<open>\s\<close> in a regular expression, below code point 256.\<close>

definition is_space :: "char \<Rightarrow> bool" where
  "is_space c \<longleftrightarrow> (let k = (of_char c :: nat) in
     9 \<le> k \<and> k \<le> 13 \<or> 28 \<le> k \<and> k \<le> 32 \<or> k = 133 \<or> k = 160)"

definition is_line_break :: "char \<Rightarrow> bool" where
  "is_line_break c \<longleftrightarrow> (let k = (of_char c :: nat) in
     10 \<le> k \<and> k \<le> 13 \<or> 28 \<le> k \<and> k \<le> 30 \<or> k = 133)"

definition strip_of :: "(char \<Rightarrow> bool) \<Rightarrow> string \<Rightarrow> string" where
  "strip_of p s = rev (dropWhile p (rev (dropWhile p s)))"

definition strip :: "string \<Rightarrow> string" where
  "strip s = strip_of is_space s"

text \<open>The lines of a text, without their ends; a line end at the end of the text starts no line.\<close>

fun splitlines_acc :: "string \<Rightarrow> string \<Rightarrow> string list" where
  "splitlines_acc acc [] = (if acc = [] then [] else [rev acc])"
| "splitlines_acc acc (c # cs) =
     (if is_line_break c
      then rev acc # (if of_char c = (13 :: nat) \<and> cs \<noteq> [] \<and> of_char (hd cs) = (10 :: nat)
                      then splitlines_acc [] (tl cs)
                      else splitlines_acc [] cs)
      else splitlines_acc (c # acc) cs)"

definition splitlines :: "string \<Rightarrow> string list" where
  "splitlines s = splitlines_acc [] s"

text \<open>\<open>before c s\<close> is \<open>s.split(c, 1)[0]\<close>, \<open>after c s\<close> is \<open>s.split(c, 1)[1]\<close> where \<open>c\<close> is in \<open>s\<close>.\<close>

definition before :: "char \<Rightarrow> string \<Rightarrow> string" where
  "before c s = takeWhile (\<lambda>d. d \<noteq> c) s"

definition after :: "char \<Rightarrow> string \<Rightarrow> string" where
  "after c s = drop 1 (dropWhile (\<lambda>d. d \<noteq> c) s)"

lemma before_append [simp]: "c \<notin> set s \<Longrightarrow> before c (s @ c # t) = s"
  unfolding before_def by (induction s) auto

lemma before_none [simp]: "c \<notin> set s \<Longrightarrow> before c s = s"
  by (auto simp: before_def takeWhile_eq_all_conv)

lemma after_append [simp]: "c \<notin> set s \<Longrightarrow> after c (s @ c # t) = t"
  unfolding after_def by (induction s) auto

lemma dropWhile_all_append: "\<forall>x \<in> set xs. p x \<Longrightarrow> dropWhile p (xs @ ys) = dropWhile p ys"
  by (induction xs) auto

lemma dropWhile_stops: "ys = [] \<or> \<not> p (hd ys) \<Longrightarrow> dropWhile p ys = ys"
  by (cases ys) auto

text \<open>Stripping removes a padding of stripped characters around a text that neither starts nor ends
  with one.\<close>

lemma strip_of_padded:
  assumes "\<forall>c \<in> set a. p c" "\<forall>c \<in> set b. p c" "s = [] \<or> \<not> p (hd s) \<and> \<not> p (last s)"
  shows "strip_of p (a @ s @ b) = s"
proof (cases "s = []")
  case True
  from assms(1,2) have "\<forall>c \<in> set (a @ b). p c" by auto
  then have "dropWhile p (a @ b) = []" by (simp only: dropWhile_eq_Nil_conv)
  with True have "dropWhile p (a @ s @ b) = []" by (simp only: append.simps)
  with True show ?thesis by (simp only: strip_of_def rev.simps dropWhile.simps)
next
  case False
  with assms(3) have "dropWhile p (s @ b) = s @ b" by (cases s) simp_all
  then have "dropWhile p (a @ s @ b) = s @ b" using assms(1) by (simp add: dropWhile_all_append)
  moreover have "dropWhile p (rev s) = rev s"
    using False assms(3) by (intro dropWhile_stops) (simp add: hd_rev)
  ultimately show ?thesis using assms(2) by (simp add: strip_of_def dropWhile_all_append)
qed

lemma splitlines_acc_line:
  "\<forall>c \<in> set l. \<not> is_line_break c \<Longrightarrow>
   splitlines_acc acc (l @ t) = splitlines_acc (rev l @ acc) t"
  by (induction l arbitrary: acc) auto

lemma splitlines_Cons:
  assumes "\<forall>c \<in> set l. \<not> is_line_break c"
  shows "splitlines (l @ CHR 0x0A # t) = l # splitlines t"
  using assms by (simp add: splitlines_def splitlines_acc_line is_line_break_def)

lemma splitlines_join:
  assumes "\<forall>l \<in> set ls. \<forall>c \<in> set l. \<not> is_line_break c"
  shows "splitlines (concat (map (\<lambda>l. l @ ''\<newline>'') ls)) = ls"
  using assms
proof (induction ls)
  case Nil
  then show ?case by (simp add: splitlines_def)
next
  case (Cons l ls)
  then show ?case using splitlines_Cons [of l "concat (map (\<lambda>l. l @ ''\<newline>'') ls)"] by simp
qed

end
