(* ===== verification/Host_Env.thy ===== *)
theory Host_Env
  imports Pyfloat Pystring
begin

text \<open>
  The reader of \<^verbatim>\<open>host.env\<close>, \<open>_load_host_env_defaults\<close> of \<^verbatim>\<open>host/models/utils.py\<close>: it takes the
  required settings from the lines of the file and stores them in the environment of the process. The
  file system is a parameter: the resolved path and the text of the file there, if there is one. The
  lemmas say what a line sets, that the last setting wins, and when the load fails.
\<close>

type_synonym settings = "string \<rightharpoonup> string"

definition REQUIRED_HOST_ENV_KEYS :: "string list" where
  "REQUIRED_HOST_ENV_KEYS = [''REDIS_PORT'']"

definition is_quote :: "char \<Rightarrow> bool" where
  "is_quote c \<longleftrightarrow> c = CHR 0x27 \<or> c = CHR 0x22"

text \<open>The body of the loop: the setting a line makes, if it makes one.\<close>

definition env_line :: "string \<Rightarrow> (string \<times> string) option" where
  "env_line raw =
     (let line = strip raw in
      if line = [] \<or> hd line = CHR ''#'' \<or> CHR ''='' \<notin> set line then None
      else let key = strip (before (CHR ''='') line) in
           if key \<notin> set REQUIRED_HOST_ENV_KEYS then None
           else let value = strip_of is_quote (strip (before (CHR ''#'') (after (CHR ''='') line))) in
                if value \<noteq> [] then Some (key, value) else None)"

primrec env_lines :: "string list \<Rightarrow> settings \<Rightarrow> settings" where
  "env_lines [] values = values"
| "env_lines (l # ls) values =
     env_lines ls (case env_line l of None \<Rightarrow> values | Some (k, v) \<Rightarrow> values(k \<mapsto> v))"

definition missing_keys :: "settings \<Rightarrow> string list" where
  "missing_keys values = filter (\<lambda>k. values k = None) REQUIRED_HOST_ENV_KEYS"

primrec join_comma :: "string list \<Rightarrow> string" where
  "join_comma [] = []"
| "join_comma (k # ks) = k @ (if ks = [] then [] else '', '' @ join_comma ks)"

definition load_host_env_defaults ::
  "string \<Rightarrow> string option \<Rightarrow> settings \<Rightarrow> py_error + settings" where
  "load_host_env_defaults path content environ =
     (case content of
        None \<Rightarrow> Inl (RuntimeError (''host.env not found: '' @ path))
      | Some text \<Rightarrow>
          let values = env_lines (splitlines text) Map.empty
          in if missing_keys values \<noteq> []
             then Inl (RuntimeError (path @ '': missing required setting(s): ''
                         @ join_comma (missing_keys values)))
             else Inr (environ ++ values))"

section \<open>Lemmas\<close>

lemma env_lines_append: "env_lines (xs @ ys) m = env_lines ys (env_lines xs m)"
  by (induction xs arbitrary: m) simp_all

lemma env_line_required: "env_line l = Some (k, v) \<Longrightarrow> k = ''REDIS_PORT'' \<and> v \<noteq> []"
  by (auto simp: env_line_def Let_def REQUIRED_HOST_ENV_KEYS_def split: if_splits)

lemma env_lines_dom: "dom m \<subseteq> {''REDIS_PORT''} \<Longrightarrow> dom (env_lines ls m) \<subseteq> {''REDIS_PORT''}"
proof (induction ls arbitrary: m)
  case Nil
  then show ?case by simp
next
  case (Cons l ls)
  have "dom (case env_line l of None \<Rightarrow> m | Some (k, v) \<Rightarrow> m(k \<mapsto> v)) \<subseteq> {''REDIS_PORT''}"
    using Cons.prems env_line_required [of l] by (auto split: option.split)
  with Cons.IH show ?case by simp
qed

lemma env_lines_silent: "\<forall>l \<in> set ls. env_line l = None \<Longrightarrow> env_lines ls m = m"
  by (induction ls) auto

text \<open>A line \<open>KEY = "value" # comment\<close> with any white space and any quotes around the value.\<close>

definition setting_line :: "string \<Rightarrow> string \<Rightarrow> string \<Rightarrow> string \<Rightarrow> string \<Rightarrow> string" where
  "setting_line sp1 sp2 q v rest = ''REDIS_PORT'' @ sp1 @ ''='' @ sp2 @ q @ v @ q @ rest"

definition plain_value :: "string \<Rightarrow> bool" where
  "plain_value v \<longleftrightarrow>
     v \<noteq> [] \<and> CHR ''#'' \<notin> set v \<and> \<not> is_space (hd v) \<and> \<not> is_space (last v) \<and>
     \<not> is_quote (hd v) \<and> \<not> is_quote (last v)"

text \<open>What may follow the value: nothing, or white space and a comment.\<close>

definition comment_tail :: "string \<Rightarrow> bool" where
  "comment_tail rest \<longleftrightarrow>
     rest = [] \<or> (hd rest = CHR '' '' \<and> (\<exists>t. dropWhile is_space rest = CHR ''#'' # t) \<and> \<not> is_space (last rest))"

lemma space_classes: "is_space c \<Longrightarrow> c \<noteq> CHR ''='' \<and> c \<noteq> CHR ''#'' \<and> \<not> is_quote c"
  by (auto simp: is_space_def is_quote_def)

lemma before_comment:
  assumes "comment_tail rest" "CHR ''#'' \<notin> set s"
  obtains sp where "before (CHR ''#'') (s @ rest) = s @ sp" "\<forall>c \<in> set sp. is_space c"
proof (cases "rest = []")
  case True
  with assms(2) that [of "[]"] show ?thesis by simp
next
  case False
  with assms(1) obtain t where t: "dropWhile is_space rest = CHR ''#'' # t"
    by (auto simp: comment_tail_def)
  define sp where "sp = takeWhile is_space rest"
  have r: "rest = sp @ CHR ''#'' # t"
    using takeWhile_dropWhile_id [of is_space rest] by (simp add: sp_def t)
  have sp: "\<forall>c \<in> set sp. is_space c" by (auto simp: sp_def dest: set_takeWhileD)
  then have "CHR ''#'' \<notin> set (s @ sp)" using assms(2) space_classes by auto
  then have "before (CHR ''#'') ((s @ sp) @ CHR ''#'' # t) = s @ sp" by (rule before_append)
  with that [of sp] sp show ?thesis by (simp add: r)
qed

lemma strip_none: "s \<noteq> [] \<Longrightarrow> \<not> is_space (hd s) \<Longrightarrow> \<not> is_space (last s) \<Longrightarrow> strip s = s"
  using strip_of_padded [of "[]" is_space "[]" s] by (simp add: strip_def)

lemma quotes_not_space: "is_quote c \<Longrightarrow> \<not> is_space c \<and> c \<noteq> CHR ''#''"
  by (auto simp: is_quote_def is_space_def)

lemma env_line_setting:
  assumes sp: "\<forall>c \<in> set sp1. is_space c" "\<forall>c \<in> set sp2. is_space c" and q: "\<forall>c \<in> set q. is_quote c"
    and v: "plain_value v" and rest: "comment_tail rest"
  shows "env_line (setting_line sp1 sp2 q v rest) = Some (''REDIS_PORT'', v)"
proof -
  let ?l = "setting_line sp1 sp2 q v rest"
  let ?qv = "q @ v @ q"
  have vq: "?qv \<noteq> []" "\<not> is_space (hd ?qv)" "\<not> is_space (last ?qv)" "CHR ''#'' \<notin> set ?qv"
    using v q quotes_not_space
    by (auto simp: plain_value_def hd_append last_append)
  have last_l: "last ?l = last (?qv @ rest)" using vq(1) by (auto simp: setting_line_def last_append)
  have "strip ?l = ?l"
  proof (rule strip_none)
    show "?l \<noteq> []" by (simp add: setting_line_def)
    show "\<not> is_space (hd ?l)" by (simp add: setting_line_def is_space_def)
    show "\<not> is_space (last ?l)"
      unfolding last_l using rest vq(1,3) by (cases "rest = []") (auto simp: comment_tail_def last_append)
  qed
  moreover have "hd ?l \<noteq> CHR ''#''" "?l \<noteq> []" by (simp_all add: setting_line_def)
  moreover have l: "?l = (''REDIS_PORT'' @ sp1) @ CHR ''='' # (sp2 @ ?qv @ rest)"
    by (simp add: setting_line_def)
  have ne: "CHR ''='' \<notin> set (''REDIS_PORT'' @ sp1)" using sp(1) space_classes by auto
  have b: "before (CHR ''='') ?l = ''REDIS_PORT'' @ sp1" unfolding l using ne by (rule before_append)
  have a: "after (CHR ''='') ?l = sp2 @ ?qv @ rest" unfolding l using ne by (rule after_append)
  have key: "strip (''REDIS_PORT'' @ sp1) = ''REDIS_PORT''"
    using strip_of_padded [of "[]" is_space sp1 "''REDIS_PORT''"] sp(1)
    by (simp add: strip_def is_space_def)
  obtain sp3 where sp3: "before (CHR ''#'') ((sp2 @ ?qv) @ rest) = (sp2 @ ?qv) @ sp3"
      "\<forall>c \<in> set sp3. is_space c"
    by (rule before_comment [OF rest, of "sp2 @ ?qv"]) (use vq(4) sp(2) space_classes in auto)
  have "strip (sp2 @ ?qv @ sp3) = ?qv"
    unfolding strip_def by (rule strip_of_padded) (use sp(2) sp3(2) vq in auto)
  moreover have "strip_of is_quote ?qv = v"
    by (rule strip_of_padded) (use q v in \<open>auto simp: plain_value_def\<close>)
  moreover have "CHR ''='' \<in> set ?l" by (simp add: setting_line_def)
  moreover have "v \<noteq> []" using v by (simp add: plain_value_def)
  ultimately show ?thesis
    using b a key sp3(1) by (simp add: env_line_def Let_def REQUIRED_HOST_ENV_KEYS_def)
qed

text \<open>The load as one expression: the last setting of the file wins.\<close>

definition file_settings :: "string \<Rightarrow> string list" where
  "file_settings text = map snd (List.map_filter env_line (splitlines text))"

lemma env_lines_last:
  "env_lines ls m =
     (if List.map_filter env_line ls = [] then m
      else m(''REDIS_PORT'' \<mapsto> snd (last (List.map_filter env_line ls))))"
proof (induction ls rule: rev_induct)
  case Nil
  then show ?case by (simp add: List.map_filter_def)
next
  case (snoc l ls)
  show ?case
  proof (cases "env_line l")
    case None
    with snoc show ?thesis by (simp add: env_lines_append List.map_filter_def)
  next
    case (Some kv)
    then have "fst kv = ''REDIS_PORT''" using env_line_required [of l "fst kv" "snd kv"] by simp
    with Some snoc show ?thesis
      by (cases kv) (auto simp: env_lines_append List.map_filter_def)
  qed
qed

lemma load_host_env_eq:
  "load_host_env_defaults path (Some text) environ =
     (if file_settings text = []
      then Inl (RuntimeError (path @ '': missing required setting(s): REDIS_PORT''))
      else Inr (environ(''REDIS_PORT'' \<mapsto> last (file_settings text))))"
  by (auto simp: load_host_env_defaults_def env_lines_last file_settings_def missing_keys_def
      REQUIRED_HOST_ENV_KEYS_def last_map)

section \<open>Properties\<close>

text \<open>C40. What a line of \<^verbatim>\<open>host.env\<close> sets is what the process gets: in a file where some line sets
  \<open>REDIS_PORT\<close>, with any white space around the equals sign, any quotes around the value and any
  comment after it, and no later line sets it, the environment has exactly that value, the other
  variables keep theirs, and no other line matters.\<close>

theorem host_env_setting_read:
  assumes "\<forall>c \<in> set sp1. is_space c" "\<forall>c \<in> set sp2. is_space c" "\<forall>c \<in> set q. is_quote c"
    and "plain_value v" "comment_tail rest"
    and "\<forall>l \<in> set ls1 \<union> {setting_line sp1 sp2 q v rest} \<union> set ls2. \<forall>c \<in> set l. \<not> is_line_break c"
    and "\<forall>l \<in> set ls2. env_line l = None"
  shows "load_host_env_defaults path
      (Some (concat (map (\<lambda>l. l @ ''\<newline>'') (ls1 @ [setting_line sp1 sp2 q v rest] @ ls2)))) environ =
    Inr (environ(''REDIS_PORT'' \<mapsto> v))"
proof -
  let ?s = "setting_line sp1 sp2 q v rest"
  have l: "splitlines (concat (map (\<lambda>l. l @ ''\<newline>'') (ls1 @ [?s] @ ls2))) = ls1 @ [?s] @ ls2"
    by (rule splitlines_join) (use assms(6) in auto)
  have "List.map_filter env_line ls2 = []"
    using assms(7) by (induction ls2) (simp_all add: List.map_filter_def)
  then have "file_settings (concat (map (\<lambda>l. l @ ''\<newline>'') (ls1 @ [?s] @ ls2))) =
      map snd (List.map_filter env_line ls1) @ [v]"
    unfolding file_settings_def l
    using env_line_setting [OF assms(1-5)] by (simp add: List.map_filter_def)
  then show ?thesis by (simp only: load_host_env_eq) simp
qed

theorem host_env_setting_read_witness:
  "load_host_env_defaults ''host.env''
     (Some (concat (map (\<lambda>l. l @ ''\<newline>'')
        [''# Telemetry stack ports'', ''REDIS_PORT='' @ [CHR 0x22] @ ''6379'' @ [CHR 0x22] @ '' # shared'', ''POSTGRES_PORT=5433'']))) Map.empty =
   Inr [''REDIS_PORT'' \<mapsto> ''6379'']"
proof -
  let ?ls1 = "[''# Telemetry stack ports'']" and ?ls2 = "[''POSTGRES_PORT=5433'']"
  have v: "plain_value ''6379''" by (simp add: plain_value_def is_space_def is_quote_def)
  have c: "comment_tail '' # shared''" by (simp add: comment_tail_def is_space_def)
  have q: "\<forall>c \<in> set [CHR 0x22]. is_quote c" by (simp add: is_quote_def)
  have b: "\<forall>l \<in> set ?ls1 \<union> {setting_line [] [] [CHR 0x22] ''6379'' '' # shared''} \<union> set ?ls2.
      \<forall>c \<in> set l. \<not> is_line_break c"
    by (simp add: setting_line_def is_line_break_def)
  have n: "\<forall>l \<in> set ?ls2. env_line l = None"
    by (simp add: env_line_def strip_def strip_of_def is_space_def before_def REQUIRED_HOST_ENV_KEYS_def)
  show ?thesis
    using host_env_setting_read [OF _ _ q v c b n, of "''host.env''" Map.empty]
    by (simp add: setting_line_def)
qed

end
