(* ===== verification/Control.thy ===== *)
theory Control
  imports Pyfloat
begin

text \<open>
  The host's configuration checks and PI controller (\<^verbatim>\<open>host/models/utils.py\<close>,
  \<^verbatim>\<open>host/models/control.py\<close>). Numbers are the binary64 floats of \<open>Pyfloat\<close>, every operation
  rounded in the order the code performs it; a raised exception is an \<open>Inl\<close> value. The lemmas bound
  the effort and the integral term whatever the readings are, state the anti-windup rule on every
  branch, and show where a NaN goes.
\<close>

section \<open>Configuration\<close>

record control_tuning =
  kp :: pyfloat
  ki_per_hour :: pyfloat
  kff :: pyfloat
  integral_limit :: pyfloat
  integral_dt_max_s :: pyfloat
  ambient_filter_alpha :: pyfloat
  internal_filter_alpha :: pyfloat
  window_s :: pyfloat
  effort_deadband :: pyfloat
  actuator_tick_s :: pyfloat
  heat_min_on_s :: pyfloat
  cool_min_on_s :: pyfloat
  reverse_idle_s :: pyfloat
  command_stale_timeout_s :: pyfloat

text \<open>The fields of \<open>Config\<close> the control loop uses; the paths and the Redis address are left out.\<close>

record config =
  node_sensor :: int
  node_plug_heat :: int
  node_plug_cool :: int
  ep_ambient :: int
  ep_internal :: int
  ep_gravity :: int
  setpoint_c :: pyfloat
  ambient_offset_c :: pyfloat
  internal_offset_c :: pyfloat
  sg_offset :: pyfloat
  period_s :: pyfloat
  control :: control_tuning

text \<open>\<open>raise_if\<close> is the statement \<open>if cond: raise ValueError(msg)\<close> before the rest.\<close>

definition raise_if :: "bool \<Rightarrow> string \<Rightarrow> py_error + unit \<Rightarrow> py_error + unit" where
  "raise_if b msg k = (if b then Inl (ValueError msg) else k)"

definition validate :: "control_tuning \<Rightarrow> pyfloat \<Rightarrow> py_error + unit" where
  "validate c period =
     (raise_if (flt (integral_limit c) (Fin 0)) ''control.integral_limit must be >= 0'' (
      raise_if (fle (integral_dt_max_s c) (Fin 0)) ''control.integral_dt_max_s must be > 0'' (
      raise_if (\<not> (flt (Fin 0) (ambient_filter_alpha c) \<and> fle (ambient_filter_alpha c) (Fin 1)))
        ''control.ambient_filter_alpha must be in (0, 1]'' (
      raise_if (\<not> (flt (Fin 0) (internal_filter_alpha c) \<and> fle (internal_filter_alpha c) (Fin 1)))
        ''control.internal_filter_alpha must be in (0, 1]'' (
      raise_if (fle (window_s c) (Fin 0)) ''control.window_s must be > 0'' (
      raise_if (fle (actuator_tick_s c) (Fin 0)) ''control.actuator_tick_s must be > 0'' (
      raise_if (\<not> (fle (Fin 0) (effort_deadband c) \<and> flt (effort_deadband c) (Fin 1)))
        ''control.effort_deadband must be in [0, 1)'' (
      raise_if (flt (heat_min_on_s c) (Fin 0)) ''control.heat_min_on_s must be >= 0'' (
      raise_if (flt (cool_min_on_s c) (Fin 0)) ''control.cool_min_on_s must be >= 0'' (
      raise_if (flt (reverse_idle_s c) (Fin 0)) ''control.reverse_idle_s must be >= 0'' (
      raise_if (flt (command_stale_timeout_s c) (Fin 0))
        ''control.command_stale_timeout_s must be >= 0'' (
      raise_if (flt (window_s c) (heat_min_on_s c))
        ''control.heat_min_on_s must be <= control.window_s'' (
      raise_if (flt (window_s c) (cool_min_on_s c))
        ''control.cool_min_on_s must be <= control.window_s'' (
      raise_if (flt (command_stale_timeout_s c) period)
        ''control.command_stale_timeout_s must be >= period_s'' (
      Inr ())))))))))))))))"

text \<open>The checks of \<open>Config.load\<close> on the values it has read, in its order.\<close>

definition positive_endpoint :: "int \<Rightarrow> string \<Rightarrow> py_error + unit \<Rightarrow> py_error + unit" where
  "positive_endpoint ep msg k = raise_if (ep \<le> 0) msg k"

definition load_checks :: "config \<Rightarrow> py_error + unit" where
  "load_checks cfg =
     raise_if (fle (period_s cfg) (Fin 0)) ''period_s must be > 0''
       (case validate (control cfg) (period_s cfg) of
          Inl e \<Rightarrow> Inl e
        | Inr u \<Rightarrow>
            positive_endpoint (ep_ambient cfg) ''endpoints.ambient must be a positive integer'' (
            positive_endpoint (ep_internal cfg) ''endpoints.internal must be a positive integer'' (
            positive_endpoint (ep_gravity cfg) ''endpoints.gravity must be a positive integer''
              (Inr ()))))"

section \<open>PI controller\<close>

record control_decision =
  effort :: pyfloat
  error_c :: pyfloat
  p_term :: pyfloat
  i_term :: pyfloat
  feedforward_term :: pyfloat

record pi_state =
  integral :: pyfloat
  last_update :: "pyfloat option"

definition pi_init :: pi_state where
  "pi_init = \<lparr>integral = Fin 0, last_update = None\<rparr>"

definition clamp :: "pyfloat \<Rightarrow> pyfloat \<Rightarrow> pyfloat \<Rightarrow> pyfloat" where
  "clamp value low high = py_max low (py_min high value)"

definition update_dt :: "config \<Rightarrow> pyfloat \<Rightarrow> pi_state \<Rightarrow> pyfloat" where
  "update_dt cfg now s =
     (case last_update s of
        None \<Rightarrow> period_s cfg
      | Some l \<Rightarrow> clamp (fsub now l) (Fin 0) (integral_dt_max_s (control cfg)))"

text \<open>\<open>dt_s / 3600.0\<close>; the divisor is not zero, so the division raises nothing.\<close>

definition hours :: "pyfloat \<Rightarrow> pyfloat" where
  "hours dt = (case fdiv dt (Fin 3600) of Inr h \<Rightarrow> h | Inl _ \<Rightarrow> NaN)"

definition pi_update ::
  "config \<Rightarrow> pyfloat \<Rightarrow> pyfloat \<Rightarrow> pyfloat \<Rightarrow> pi_state \<Rightarrow> pi_state \<times> control_decision" where
  "pi_update cfg internal_c ambient_c now s =
     (let t = control cfg;
          dt_s = update_dt cfg now s;
          err = fsub (setpoint_c cfg) internal_c;
          p = fmul (kp t) err;
          ff = fmul (kff t) (fsub (setpoint_c cfg) ambient_c);
          candidate_i = clamp (fadd (integral s) (fmul (fmul (ki_per_hour t) err) (hours dt_s)))
                          (fneg (integral_limit t)) (integral_limit t);
          candidate_raw = fadd (fadd p candidate_i) ff;
          driving = (flt (Fin 1) candidate_raw \<and> flt (Fin 0) err) \<or>
                    (flt candidate_raw (Fin (- 1)) \<and> flt err (Fin 0));
          i = (if driving then integral s else candidate_i)
      in (\<lparr>integral = i, last_update = Some now\<rparr>,
          \<lparr>effort = clamp (fadd (fadd p i) ff) (Fin (- 1)) (Fin 1), error_c = err, p_term = p,
           i_term = i, feedforward_term = ff\<rparr>))"

section \<open>Lemmas\<close>

lemma raise_if_ok [simp]: "raise_if b msg k = Inr u \<longleftrightarrow> \<not> b \<and> k = Inr u"
  by (auto simp: raise_if_def)

lemma hours_Fin [simp]: "hours (Fin a) = fl (a / 3600)"
  by (simp add: hours_def)

lemma fneg_le: "fle (Fin 0) x \<Longrightarrow> fle (fneg x) x"
  by (cases x) (auto simp: fle_def)

lemma fle_fneg_0: "fle (Fin 0) x \<Longrightarrow> fle (fneg x) (Fin 0)"
  by (cases x) (auto simp: fle_def)

lemma clamp_between: "fle lo hi \<Longrightarrow> fle lo (clamp v lo hi) \<and> fle (clamp v lo hi) hi"
  unfolding clamp_def by (rule clamp_bounds)

definition integral_ok :: "config \<Rightarrow> pi_state \<Rightarrow> bool" where
  "integral_ok cfg s \<longleftrightarrow>
     fle (fneg (integral_limit (control cfg))) (integral s) \<and>
     fle (integral s) (integral_limit (control cfg))"

lemma integral_ok_init: "fle (Fin 0) (integral_limit (control cfg)) \<Longrightarrow> integral_ok cfg pi_init"
  by (simp add: integral_ok_def pi_init_def fle_fneg_0)

lemma pi_update_integral_ok:
  "fle (Fin 0) (integral_limit (control cfg)) \<Longrightarrow> integral_ok cfg s \<Longrightarrow>
   integral_ok cfg (fst (pi_update cfg x a now s))"
  using clamp_between [OF fneg_le, of "integral_limit (control cfg)"]
  by (auto simp: integral_ok_def pi_update_def Let_def)

text \<open>One step of the controller in any environment.\<close>

definition pi_step :: "config \<Rightarrow> pi_state \<Rightarrow> pi_state \<Rightarrow> bool" where
  "pi_step cfg s t \<longleftrightarrow> (\<exists>x a now. t = fst (pi_update cfg x a now s))"

interpretation pi_bounded: step_invariant "pi_step cfg"
  "\<lambda>s. fle (Fin 0) (integral_limit (control cfg)) \<longrightarrow> integral_ok cfg s"
  by unfold_locales (auto simp: pi_step_def intro: pi_update_integral_ok)

lemma pi_steps_integral_ok:
  "(pi_step cfg)\<^sup>*\<^sup>* s t \<Longrightarrow> fle (Fin 0) (integral_limit (control cfg)) \<Longrightarrow> integral_ok cfg s \<Longrightarrow>
   integral_ok cfg t"
  using pi_bounded.steps_keep [of cfg s t] by blast

lemma pi_update_effort:
  "fle (Fin (- 1)) (effort (snd (pi_update cfg x a now s))) \<and>
   fle (effort (snd (pi_update cfg x a now s))) (Fin 1)"
  using clamp_between [of "Fin (- 1)" "Fin 1"] by (simp add: pi_update_def Let_def)

text \<open>The increment of the integral term, before the clamp.\<close>

definition i_step :: "config \<Rightarrow> pyfloat \<Rightarrow> pyfloat \<Rightarrow> pi_state \<Rightarrow> pyfloat" where
  "i_step cfg x now s =
     fmul (fmul (ki_per_hour (control cfg)) (fsub (setpoint_c cfg) x)) (hours (update_dt cfg now s))"

definition i_candidate :: "config \<Rightarrow> pyfloat \<Rightarrow> pyfloat \<Rightarrow> pi_state \<Rightarrow> pyfloat" where
  "i_candidate cfg x now s =
     clamp (fadd (integral s) (i_step cfg x now s))
       (fneg (integral_limit (control cfg))) (integral_limit (control cfg))"

definition raw_effort :: "config \<Rightarrow> pyfloat \<Rightarrow> pyfloat \<Rightarrow> pyfloat \<Rightarrow> pyfloat" where
  "raw_effort cfg x a i =
     fadd (fadd (fmul (kp (control cfg)) (fsub (setpoint_c cfg) x)) i)
       (fmul (kff (control cfg)) (fsub (setpoint_c cfg) a))"

definition saturating :: "config \<Rightarrow> pyfloat \<Rightarrow> pyfloat \<Rightarrow> pyfloat \<Rightarrow> bool" where
  "saturating cfg x a i \<longleftrightarrow>
     (flt (Fin 1) (raw_effort cfg x a i) \<and> flt (Fin 0) (fsub (setpoint_c cfg) x)) \<or>
     (flt (raw_effort cfg x a i) (Fin (- 1)) \<and> flt (fsub (setpoint_c cfg) x) (Fin 0))"

lemma pi_update_eq:
  "integral (fst (pi_update cfg x a now s)) =
     (if saturating cfg x a (i_candidate cfg x now s) then integral s else i_candidate cfg x now s)"
  "effort (snd (pi_update cfg x a now s)) =
     clamp (raw_effort cfg x a (integral (fst (pi_update cfg x a now s)))) (Fin (- 1)) (Fin 1)"
  by (simp_all add: pi_update_def i_candidate_def i_step_def raw_effort_def saturating_def Let_def)

lemma clamp_ge: "fle lo v \<Longrightarrow> fle v u \<Longrightarrow> fle v hi \<Longrightarrow> fle v (clamp u lo hi)"
proof -
  assume a: "fle lo v" "fle v u" "fle v hi"
  define m where "m = py_min hi u"
  have m: "fle v m" using a by (simp add: m_def py_min_def)
  have "fle v lo" if "\<not> flt lo m"
    using that m a(1) not_flt_iff [of lo m] fle_not_NaN [of lo v] fle_not_NaN [of v m] fle_trans
    by blast
  with m show ?thesis by (auto simp: clamp_def py_max_def m_def)
qed

lemma clamp_le: "fle v hi \<Longrightarrow> fle u v \<Longrightarrow> fle lo v \<Longrightarrow> fle (clamp u lo hi) v"
proof -
  assume a: "fle v hi" "fle u v" "fle lo v"
  then have n: "u \<noteq> NaN" "hi \<noteq> NaN" using fle_not_NaN [of u v] fle_not_NaN [of v hi] by auto
  have "fle u hi" using a fle_trans by blast
  then have "\<not> flt hi u" using flt_fle_trans [of hi u hi] by auto
  then have "py_min hi u = u \<or> py_min hi u = hi \<and> u = hi"
    using flt_linear [of u hi] n by (auto simp: py_min_def)
  with a show ?thesis by (auto simp: clamp_def py_max_def)
qed

text \<open>Adding a number that is not negative to a double does not make it smaller.\<close>

lemma fadd_ge: "fl i = Fin i \<Longrightarrow> fle (Fin 0) d \<Longrightarrow> fle (Fin i) (fadd (Fin i) d)"
proof (cases d)
  case (Fin x)
  assume "fl i = Fin i" "fle (Fin 0) d"
  with Fin fl_mono [of i "i + x"] show ?thesis by simp
qed (auto simp: fle_def)

lemma fadd_le: "fl i = Fin i \<Longrightarrow> fle d (Fin 0) \<Longrightarrow> fle (fadd (Fin i) d) (Fin i)"
proof (cases d)
  case (Fin x)
  assume "fl i = Fin i" "fle d (Fin 0)"
  with Fin fl_mono [of "i + x" i] show ?thesis by simp
qed (auto simp: fle_def)

lemma load_checks_validate: "load_checks cfg = Inr () \<Longrightarrow> validate (control cfg) (period_s cfg) = Inr ()"
  by (auto simp: load_checks_def split: sum.splits)

lemma load_checks_limit:
  "load_checks cfg = Inr () \<Longrightarrow> integral_limit (control cfg) \<noteq> NaN \<Longrightarrow>
   fle (Fin 0) (integral_limit (control cfg))"
  using load_checks_validate [of cfg] not_flt_iff [of "integral_limit (control cfg)" "Fin 0"]
  by (simp add: validate_def)

section \<open>Demonstration configuration\<close>

definition demo_tuning :: control_tuning where
  "demo_tuning =
     \<lparr>kp = Fin 1, ki_per_hour = Fin 1, kff = Fin 0, integral_limit = Fin 8,
      integral_dt_max_s = Fin 3600, ambient_filter_alpha = Fin 1, internal_filter_alpha = Fin 1,
      window_s = Fin 1800, effort_deadband = Fin (1 / 4), actuator_tick_s = Fin 1,
      heat_min_on_s = Fin 600, cool_min_on_s = Fin 600, reverse_idle_s = Fin 10,
      command_stale_timeout_s = Fin 3600\<rparr>"

definition demo_config :: config where
  "demo_config =
     \<lparr>node_sensor = 1, node_plug_heat = 11, node_plug_cool = 12, ep_ambient = 1, ep_internal = 2,
      ep_gravity = 3, setpoint_c = Fin 20, ambient_offset_c = Fin 0, internal_offset_c = Fin 0,
      sg_offset = Fin 0, period_s = Fin 3600, control = demo_tuning\<rparr>"

lemma demo_config_loads: "load_checks demo_config = Inr ()"
  by (simp add: load_checks_def validate_def raise_if_def positive_endpoint_def demo_config_def
      demo_tuning_def fle_def)

section \<open>Properties\<close>

text \<open>C21. Under a configuration the checks accept and whose integral limit is a number, the effort is
  between -1 and 1 and the integral term within its limit after every update, for any readings and
  times, NaN and infinities included.\<close>

theorem effort_and_integral_bounded:
  assumes "load_checks cfg = Inr ()" "integral_limit (control cfg) \<noteq> NaN"
    "(pi_step cfg)\<^sup>*\<^sup>* pi_init s"
  shows "fle (Fin (- 1)) (effort (snd (pi_update cfg x a now s))) \<and>
    fle (effort (snd (pi_update cfg x a now s))) (Fin 1) \<and>
    fle (fneg (integral_limit (control cfg))) (integral (fst (pi_update cfg x a now s))) \<and>
    fle (integral (fst (pi_update cfg x a now s))) (integral_limit (control cfg))"
proof -
  note lim = load_checks_limit [OF assms(1,2)]
  have "integral_ok cfg s"
    by (rule pi_steps_integral_ok [OF assms(3) lim integral_ok_init [OF lim]])
  from pi_update_integral_ok [OF lim this, of x a now] pi_update_effort [of cfg x a now s]
  show ?thesis by (simp add: integral_ok_def)
qed

theorem effort_and_integral_bounded_witness:
  "fle (Fin (- 1)) (effort (snd (pi_update demo_config (Fin 18) PInf NaN pi_init))) \<and>
   fle (integral (fst (pi_update demo_config (Fin 18) PInf NaN pi_init))) (Fin 8)"
  using effort_and_integral_bounded [OF demo_config_loads, of pi_init "Fin 18" PInf NaN]
  by (simp add: demo_config_def demo_tuning_def)

text \<open>C22. Anti-windup on every branch. While the raw effort is beyond its range on the side of the
  error, the integral term does not move; otherwise it moves to the clamped candidate, never against
  the sign of its increment. The effort is the clamped sum of the three terms with the integral term
  that was kept.\<close>

theorem antiwindup_correct:
  assumes "integral s = Fin i" "fl i = Fin i" "integral_ok cfg s"
  shows "(saturating cfg x a (i_candidate cfg x now s) \<longrightarrow>
            integral (fst (pi_update cfg x a now s)) = integral s) \<and>
    (\<not> saturating cfg x a (i_candidate cfg x now s) \<longrightarrow>
       integral (fst (pi_update cfg x a now s)) = i_candidate cfg x now s) \<and>
    (fle (Fin 0) (i_step cfg x now s) \<longrightarrow>
       fle (integral s) (integral (fst (pi_update cfg x a now s)))) \<and>
    (fle (i_step cfg x now s) (Fin 0) \<longrightarrow>
       fle (integral (fst (pi_update cfg x a now s))) (integral s)) \<and>
    effort (snd (pi_update cfg x a now s)) =
      clamp (raw_effort cfg x a (integral (fst (pi_update cfg x a now s)))) (Fin (- 1)) (Fin 1)"
proof -
  have up: "fle (Fin i) (i_candidate cfg x now s)" if "fle (Fin 0) (i_step cfg x now s)"
    unfolding i_candidate_def assms(1)
    using assms that by (intro clamp_ge fadd_ge) (auto simp: integral_ok_def)
  have down: "fle (i_candidate cfg x now s) (Fin i)" if "fle (i_step cfg x now s) (Fin 0)"
    unfolding i_candidate_def assms(1)
    using assms that by (intro clamp_le fadd_le) (auto simp: integral_ok_def)
  have e: "effort (snd (pi_update cfg x a now s)) =
      clamp (raw_effort cfg x a (integral (fst (pi_update cfg x a now s)))) (Fin (- 1)) (Fin 1)"
    by (rule pi_update_eq)
  show ?thesis
  proof (intro conjI impI)
    show "fle (integral s) (integral (fst (pi_update cfg x a now s)))"
      if "fle (Fin 0) (i_step cfg x now s)"
      using up [OF that] by (simp add: pi_update_eq(1) assms(1))
    show "fle (integral (fst (pi_update cfg x a now s))) (integral s)"
      if "fle (i_step cfg x now s) (Fin 0)"
      using down [OF that] by (simp add: pi_update_eq(1) assms(1))
  qed (simp_all add: pi_update_eq(1) e)
qed

theorem antiwindup_correct_witness:
  "effort (snd (pi_update demo_config (Fin 18) (Fin 20) (Fin 5) pi_init)) = Fin 1 \<and>
   integral (fst (pi_update demo_config (Fin 18) (Fin 20) (Fin 5) pi_init)) = Fin 0 \<and>
   i_candidate demo_config (Fin 18) (Fin 5) pi_init = Fin 2"
proof -
  have ok: "integral_ok demo_config pi_init"
    by (rule integral_ok_init) (simp add: demo_config_def demo_tuning_def)
  have c: "i_candidate demo_config (Fin 18) (Fin 5) pi_init = Fin 2"
    by (simp add: i_candidate_def i_step_def update_dt_def demo_config_def demo_tuning_def
        pi_init_def fsub_def clamp_def py_max_def py_min_def)
  have s: "saturating demo_config (Fin 18) (Fin 20) (Fin 2)"
    by (simp add: saturating_def raw_effort_def demo_config_def demo_tuning_def fsub_def)
  have i: "integral pi_init = Fin 0" by (simp add: pi_init_def)
  from antiwindup_correct [OF i _ ok, of "Fin 18" "Fin 20" "Fin 5"] c s i
  have "integral (fst (pi_update demo_config (Fin 18) (Fin 20) (Fin 5) pi_init)) = Fin 0"
    and "effort (snd (pi_update demo_config (Fin 18) (Fin 20) (Fin 5) pi_init)) =
      clamp (raw_effort demo_config (Fin 18) (Fin 20) (Fin 0)) (Fin (- 1)) (Fin 1)"
    by simp_all
  with c show ?thesis
    by (simp add: raw_effort_def demo_config_def demo_tuning_def fsub_def clamp_def py_max_def py_min_def)
qed

text \<open>The controller on its own: with a NaN set point, which the checks accept, its effort is full heating
  whatever it reads. (The loop of \<open>Control_Loop\<close> raises before it uses that effort.)\<close>

lemma nan_setpoint_full_effort:
  "\<exists>cfg. load_checks cfg = Inr () \<and> setpoint_c cfg = NaN \<and>
     (\<forall>x a now s. effort (snd (pi_update cfg x a now s)) = Fin 1)"
proof (intro exI conjI allI)
  let ?cfg = "demo_config\<lparr>setpoint_c := NaN\<rparr>"
  have v: "load_checks (cfg\<lparr>setpoint_c := y\<rparr>) = load_checks cfg" for cfg y
    by (simp add: load_checks_def split: sum.split)
  show "load_checks ?cfg = Inr ()" unfolding v by (rule demo_config_loads)
  show "setpoint_c ?cfg = NaN" by simp
  fix x a now s
  have n: "fadd y NaN = NaN" "fmul y NaN = NaN" for y by (cases y; simp)+
  have "raw_effort ?cfg x a i = NaN" for i by (simp add: raw_effort_def fsub_def n)
  then show "effort (snd (pi_update ?cfg x a now s)) = Fin 1"
    by (simp add: pi_update_eq(2) clamp_def clamp_NaN)
qed

end
