(* ===== verification/Actuator.thy ===== *)
theory Actuator
  imports Control
begin

text \<open>
  The time-proportional actuator (class \<open>TimeProportionalActuator\<close> of
  \<^verbatim>\<open>host/models/control.py\<close>): it turns the effort into ON and OFF commands for the plugs of the
  heater and the cooler. The plugs are physical: \<open>plug\<close> says which are on. A command is answered by
  the environment: it succeeds, it fails without effect, it fails although it took effect (a timeout
  after the plug had switched), or it raises an exception \<open>_switch\<close> does not catch. The lemmas are the
  interlock of the two plugs in every environment, the reversal lockout, and what a failed command
  leaves behind.
\<close>

section \<open>Commands\<close>

datatype act = HEAT | COOL | IDLE

datatype outcome = Done | Failed_no_effect | Failed_applied | Uncaught

record chip =
  plug :: "int \<Rightarrow> bool"
  commands :: "(int \<times> bool) list"

text \<open>\<open>env\<close> answers the \<open>n\<close>-th command. An uncaught exception may come before or after the effect;
  it is the second argument of \<open>env\<close>.\<close>

type_synonym chip_env = "nat \<Rightarrow> outcome \<times> bool"

definition set_plug :: "chip_env \<Rightarrow> int \<Rightarrow> bool \<Rightarrow> chip \<Rightarrow> outcome \<times> chip" where
  "set_plug env node b c =
     (case env (length (commands c)) of
        (out, applied) \<Rightarrow>
          (out,
           c\<lparr>commands := commands c @ [(node, b)],
             plug := (if out = Done \<or> out = Failed_applied \<or> out = Uncaught \<and> applied
                      then (plug c)(node := b) else plug c)\<rparr>))"

datatype switched = Switched bool | Raised

text \<open>The loop over the nodes that must be off: \<open>off_failed\<close> is accumulated.\<close>

fun switch_off :: "chip_env \<Rightarrow> int list \<Rightarrow> int list \<Rightarrow> bool \<Rightarrow> chip \<Rightarrow> switched \<times> chip" where
  "switch_off env wanted [] off_failed c = (Switched (\<not> off_failed), c)"
| "switch_off env wanted (node # nodes) off_failed c =
     (if node \<in> set wanted then switch_off env wanted nodes off_failed c
      else case set_plug env node False c of
             (Uncaught, c') \<Rightarrow> (Raised, c')
           | (Done, c') \<Rightarrow> switch_off env wanted nodes off_failed c'
           | (_, c') \<Rightarrow> switch_off env wanted nodes True c')"

fun switch_on :: "chip_env \<Rightarrow> int list \<Rightarrow> chip \<Rightarrow> switched \<times> chip" where
  "switch_on env [] c = (Switched True, c)"
| "switch_on env (node # nodes) c =
     (case set_plug env node True c of
        (Uncaught, c') \<Rightarrow> (Raised, c')
      | (Done, c') \<Rightarrow> switch_on env nodes c'
      | (_, c') \<Rightarrow> (Switched False, c'))"

definition wanted_nodes :: "config \<Rightarrow> act \<Rightarrow> int list" where
  "wanted_nodes cfg a =
     (case a of HEAT \<Rightarrow> [node_plug_heat cfg] | COOL \<Rightarrow> [node_plug_cool cfg] | IDLE \<Rightarrow> [])"

definition switch :: "config \<Rightarrow> chip_env \<Rightarrow> act \<Rightarrow> chip \<Rightarrow> switched \<times> chip" where
  "switch cfg env a c =
     (case switch_off env (wanted_nodes cfg a) [node_plug_heat cfg, node_plug_cool cfg] False c of
        (Switched True, c') \<Rightarrow> switch_on env (wanted_nodes cfg a) c'
      | (r, c') \<Rightarrow> (r, c'))"

section \<open>State and plan\<close>

record actuator =
  a_effort :: pyfloat
  last_effort_update :: "pyfloat option"
  window_start :: "pyfloat option"
  a_action :: act
  last_active_direction :: "act option"
  idle_since :: "pyfloat option"

definition actuator_init :: actuator where
  "actuator_init =
     \<lparr>a_effort = Fin 0, last_effort_update = None, window_start = None, a_action = IDLE,
      last_active_direction = None, idle_since = None\<rparr>"

record actuator_plan =
  requested_action :: act
  plan_effort :: pyfloat
  duty_cycle :: pyfloat
  active_s :: pyfloat
  plan_window_s :: pyfloat
  reason :: string

definition idle_plan :: "config \<Rightarrow> pyfloat \<Rightarrow> pyfloat \<Rightarrow> pyfloat \<Rightarrow> string \<Rightarrow> actuator_plan" where
  "idle_plan cfg e duty active why =
     \<lparr>requested_action = IDLE, plan_effort = e, duty_cycle = duty, active_s = active,
      plan_window_s = window_s (control cfg), reason = why\<rparr>"

text \<open>A transition: the action and the plan that asked for it.\<close>

definition initialize ::
  "config \<Rightarrow> chip_env \<Rightarrow> pyfloat \<Rightarrow> actuator \<Rightarrow> chip \<Rightarrow>
   (py_error + actuator \<times> act \<times> actuator_plan) \<times> chip" where
  "initialize cfg env now s c =
     (case switch cfg env IDLE c of
        (Switched True, c') \<Rightarrow>
          (Inr (s\<lparr>window_start := Some now, idle_since := Some now\<rparr>,
                IDLE, idle_plan cfg (Fin 0) (Fin 0) (Fin 0) ''startup''), c')
      | (Switched False, c') \<Rightarrow>
          (Inl (RuntimeError ''failed to force actuators to IDLE at startup''), c')
      | (Raised, c') \<Rightarrow> (Inl OtherError, c'))"

definition set_effort :: "config \<Rightarrow> pyfloat \<Rightarrow> pyfloat \<Rightarrow> actuator \<Rightarrow> actuator" where
  "set_effort cfg e now s =
     (let e' = py_max (Fin (- 1)) (py_min (Fin 1) e);
          was_stale = (case last_effort_update s of
                         None \<Rightarrow> True
                       | Some l \<Rightarrow> flt (command_stale_timeout_s (control cfg)) (fsub now l))
      in s\<lparr>window_start := (if was_stale then Some now else window_start s),
           a_effort := e', last_effort_update := Some now\<rparr>)"

text \<open>\<open>math.floor(elapsed / window_s) * window_s\<close>.\<close>

definition whole_windows :: "pyfloat \<Rightarrow> pyfloat \<Rightarrow> py_error + pyfloat" where
  "whole_windows elapsed w =
     (case fdiv elapsed w of
        Inl e \<Rightarrow> Inl e
      | Inr q \<Rightarrow>
          (case py_floor q of
             Inl e \<Rightarrow> Inl e
           | Inr k \<Rightarrow> (case float_of_int k of Inl e \<Rightarrow> Inl e | Inr f \<Rightarrow> Inr (fmul f w))))"

definition advance_window :: "config \<Rightarrow> pyfloat \<Rightarrow> actuator \<Rightarrow> py_error + actuator" where
  "advance_window cfg now s =
     (case window_start s of
        None \<Rightarrow> Inr (s\<lparr>window_start := Some now\<rparr>)
      | Some ws \<Rightarrow>
          let elapsed = fsub now ws
          in if fle (window_s (control cfg)) elapsed
             then (case whole_windows elapsed (window_s (control cfg)) of
                     Inl e \<Rightarrow> Inl e
                   | Inr k \<Rightarrow> Inr (s\<lparr>window_start := Some (fadd ws k)\<rparr>))
             else Inr s)"

text \<open>The lockout test for a request \<open>r\<close> that is HEAT or COOL.\<close>

definition reverse_locked :: "config \<Rightarrow> pyfloat \<Rightarrow> act \<Rightarrow> actuator \<Rightarrow> bool" where
  "reverse_locked cfg now r s \<longleftrightarrow>
     (a_action s = HEAT \<or> a_action s = COOL) \<and> r \<noteq> a_action s \<or>
     (case (last_active_direction s, idle_since s) of
        (Some d, Some t) \<Rightarrow> r \<noteq> d \<and> flt (fsub now t) (reverse_idle_s (control cfg))
      | _ \<Rightarrow> False)"

text \<open>The part of \<open>plan\<close> after the window has advanced. The window start is set there (the code
  asserts it); the branch for \<open>None\<close> is never taken.\<close>

definition plan_body :: "config \<Rightarrow> pyfloat \<Rightarrow> actuator \<Rightarrow> actuator_plan" where
  "plan_body cfg now s =
     (let t = control cfg in
      case last_effort_update s of
        None \<Rightarrow> idle_plan cfg (Fin 0) (Fin 0) (Fin 0) ''no-command''
      | Some l \<Rightarrow>
          if flt (command_stale_timeout_s t) (fsub now l)
          then idle_plan cfg (a_effort s) (Fin 0) (Fin 0) ''stale-command''
          else
            let magnitude = fabs (a_effort s) in
            if fle magnitude (effort_deadband t)
            then idle_plan cfg (a_effort s) (Fin 0) (Fin 0) ''deadband''
            else
              let direction = (if flt (Fin 0) (a_effort s) then HEAT else COOL);
                  active = fmul magnitude (window_s t);
                  min_on_s = (if direction = HEAT then heat_min_on_s t else cool_min_on_s t)
              in if flt active min_on_s
                 then idle_plan cfg (a_effort s) magnitude active ''below-min-pulse''
                 else
                   let elapsed = fsub now (case window_start s of Some ws \<Rightarrow> ws | None \<Rightarrow> now);
                       requested = (if flt elapsed active then direction else IDLE);
                       why = (if requested \<noteq> IDLE then ''duty-on'' else ''duty-off'');
                       locked = (requested \<noteq> IDLE \<and> reverse_locked cfg now requested s)
                   in \<lparr>requested_action = (if locked then IDLE else requested),
                       plan_effort = a_effort s, duty_cycle = magnitude, active_s = active,
                       plan_window_s = window_s t,
                       reason = (if locked then ''reverse-lockout'' else why)\<rparr>)"

definition plan :: "config \<Rightarrow> pyfloat \<Rightarrow> actuator \<Rightarrow> py_error + actuator \<times> actuator_plan" where
  "plan cfg now s =
     (case advance_window cfg now s of
        Inl e \<Rightarrow> Inl e
      | Inr s' \<Rightarrow> Inr (s', plan_body cfg now s'))"

section \<open>Tick\<close>

definition is_active :: "act \<Rightarrow> bool" where
  "is_active a \<longleftrightarrow> a = HEAT \<or> a = COOL"

text \<open>The bookkeeping of \<open>tick\<close> after a successful switch to \<open>wanted\<close>.\<close>

definition record_switch :: "pyfloat \<Rightarrow> act \<Rightarrow> actuator \<Rightarrow> actuator" where
  "record_switch now wanted s =
     (let previous = a_action s;
          s1 = (if is_active previous \<and> wanted \<noteq> previous
                then s\<lparr>last_active_direction := Some previous,
                       idle_since := (if wanted = IDLE then Some now else None)\<rparr>
                else if previous = IDLE \<and> is_active wanted then s\<lparr>idle_since := None\<rparr>
                else s)
      in s1\<lparr>a_action := wanted\<rparr>)"

text \<open>The result is the transition, if any: the action and its plan. The state of an exception is the
  one the code leaves behind.\<close>

type_synonym transition = "(act \<times> actuator_plan) option"

definition tick ::
  "config \<Rightarrow> chip_env \<Rightarrow> pyfloat \<Rightarrow> actuator \<Rightarrow> chip \<Rightarrow> (py_error + transition) \<times> actuator \<times> chip"
where
  "tick cfg env now s c =
     (case plan cfg now s of
        Inl e \<Rightarrow> (Inl e, s, c)
      | Inr (s1, p) \<Rightarrow>
          let wanted = requested_action p in
          if wanted = a_action s1 then (Inr None, s1, c)
          else (case switch cfg env wanted c of
                  (Raised, c') \<Rightarrow> (Inl OtherError, s1, c')
                | (Switched False, c') \<Rightarrow> (Inr None, s1, c')
                | (Switched True, c') \<Rightarrow>
                    (Inr (Some (wanted, p)), record_switch now wanted s1, c')))"

definition force_idle ::
  "config \<Rightarrow> chip_env \<Rightarrow> pyfloat \<Rightarrow> string \<Rightarrow> actuator \<Rightarrow> chip \<Rightarrow>
   (py_error + transition) \<times> actuator \<times> chip" where
  "force_idle cfg env now why s c =
     (if a_action s = IDLE then (Inr None, s, c)
      else (case switch cfg env IDLE c of
              (Raised, c') \<Rightarrow> (Inl OtherError, s, c')
            | (Switched False, c') \<Rightarrow> (Inr None, s, c')
            | (Switched True, c') \<Rightarrow>
                (Inr (Some (IDLE, idle_plan cfg (a_effort s) (Fin 0) (Fin 0) why)),
                 s\<lparr>last_active_direction := Some (a_action s), idle_since := Some now,
                   a_action := IDLE\<rparr>, c')))"

section \<open>What a switch does to the plugs\<close>

definition clean_outcome :: "outcome \<times> bool \<Rightarrow> bool" where
  "clean_outcome r \<longleftrightarrow> fst r \<noteq> Failed_applied \<and> \<not> (fst r = Uncaught \<and> snd r)"

text \<open>An environment where a command that fails has no effect.\<close>

definition clean :: "chip_env \<Rightarrow> bool" where
  "clean env \<longleftrightarrow> (\<forall>n. clean_outcome (env n))"

definition both_off :: "config \<Rightarrow> chip \<Rightarrow> bool" where
  "both_off cfg c \<longleftrightarrow> \<not> plug c (node_plug_heat cfg) \<and> \<not> plug c (node_plug_cool cfg)"

definition interlocked :: "config \<Rightarrow> chip \<Rightarrow> bool" where
  "interlocked cfg c \<longleftrightarrow> \<not> (plug c (node_plug_heat cfg) \<and> plug c (node_plug_cool cfg))"

lemma set_plug_cases:
  "set_plug env node b c = (out, c') \<Longrightarrow>
   (plug c' = (plug c)(node := b) \<or> plug c' = plug c) \<and> (out = Done \<longrightarrow> plug c' node = b) \<and>
   (clean env \<longrightarrow> out \<noteq> Done \<longrightarrow> plug c' = plug c)"
proof -
  assume a: "set_plug env node b c = (out, c')"
  obtain o2 ap where e: "env (length (commands c)) = (o2, ap)" by fastforce
  have cl: "o2 \<noteq> Failed_applied \<and> \<not> (o2 = Uncaught \<and> ap)" if "clean env"
  proof -
    from that have "clean_outcome (env (length (commands c)))" by (simp only: clean_def)
    then show ?thesis by (simp add: clean_outcome_def e)
  qed
  show ?thesis
  proof (cases "o2 = Done \<or> o2 = Failed_applied \<or> o2 = Uncaught \<and> ap")
    case True
    with a have r: "out = o2" "plug c' = (plug c)(node := b)" by (auto simp: set_plug_def e)
    with True cl show ?thesis by simp blast
  next
    case False
    with a have "out = o2" "plug c' = plug c" by (auto simp: set_plug_def e)
    with False show ?thesis by simp
  qed
qed

text \<open>Plugs are only switched off, and the wanted ones keep their state.\<close>

definition only_off :: "int list \<Rightarrow> chip \<Rightarrow> chip \<Rightarrow> bool" where
  "only_off w c c' \<longleftrightarrow>
     (\<forall>n. plug c' n \<longrightarrow> plug c n) \<and> (\<forall>n. n \<in> set w \<longrightarrow> plug c' n = plug c n)"

lemma only_off_refl [simp]: "only_off w c c"
  by (simp add: only_off_def)

lemma only_off_trans: "only_off w c c1 \<Longrightarrow> only_off w c1 c2 \<Longrightarrow> only_off w c c2"
  unfolding only_off_def by blast

lemma set_plug_only_off:
  "set_plug env n False c = (out, c') \<Longrightarrow> n \<notin> set w \<Longrightarrow> only_off w c c'"
  using set_plug_cases [of env n False c out c'] unfolding only_off_def by (auto split: if_splits)

lemma switch_off_frame:
  "switch_off env w ns f c = (r, c') \<Longrightarrow>
   only_off w c c' \<and> (r = Switched True \<longrightarrow> \<not> f \<and> (\<forall>n \<in> set ns. n \<in> set w \<or> \<not> plug c' n))"
proof (induction ns arbitrary: f c)
  case Nil
  then show ?case by auto
next
  case (Cons n ns)
  show ?case
  proof (cases "n \<in> set w")
    case True
    with Cons.prems have "switch_off env w ns f c = (r, c')" by simp
    from Cons.IH [OF this] True show ?thesis by simp
  next
    case False
    obtain out c1 where s: "set_plug env n False c = (out, c1)" by fastforce
    have frame: "only_off w c c1" by (rule set_plug_only_off [OF s False])
    show ?thesis
    proof (cases "out = Uncaught")
      case True
      with Cons.prems False s have "r = Raised" "c' = c1" by simp_all
      with frame show ?thesis by simp
    next
      case caught: False
      then have "switch_off env w ns (f \<or> out \<noteq> Done) c1 = (r, c')"
        using Cons.prems False s by (cases out) simp_all
      note ih = Cons.IH [OF this]
      have "only_off w c c'" using frame ih only_off_trans by blast
      moreover have "\<not> plug c' n" if "r = Switched True"
      proof -
        have "\<not> plug c1 n" using ih that set_plug_cases [OF s] by auto
        with ih show ?thesis unfolding only_off_def by blast
      qed
      ultimately show ?thesis using ih by auto
    qed
  qed
qed

lemma switch_IDLE:
  assumes "switch cfg env IDLE c = (r, c')"
  shows "only_off [] c c' \<and> (r = Switched True \<longrightarrow> both_off cfg c')"
proof -
  have "switch_off env [] [node_plug_heat cfg, node_plug_cool cfg] False c = (r, c')"
    using assms by (auto simp: switch_def wanted_nodes_def split: prod.splits switched.splits bool.splits)
  from switch_off_frame [OF this] show ?thesis by (simp add: both_off_def)
qed

lemma switch_one:
  assumes "wanted_nodes cfg a = [on]"
    "{node_plug_heat cfg, node_plug_cool cfg} = {on, off}" "on \<noteq> off"
    "switch cfg env a c = (r, c')"
  shows "(plug c' off \<longrightarrow> plug c off) \<and> (plug c' on \<longrightarrow> plug c on \<or> \<not> plug c' off) \<and>
    (r = Switched True \<longrightarrow> plug c' on \<and> \<not> plug c' off) \<and>
    (clean env \<longrightarrow> r \<noteq> Switched True \<longrightarrow> (\<forall>n. plug c' n \<longrightarrow> plug c n))"
proof -
  obtain r1 c1 where o: "switch_off env [on] [node_plug_heat cfg, node_plug_cool cfg] False c = (r1, c1)"
    by fastforce
  note f = switch_off_frame [OF o]
  show ?thesis
  proof (cases "r1 = Switched True")
    case False
    then have "c' = c1" "r = r1"
      using assms(1,4) o by (auto simp: switch_def split: switched.splits bool.splits)
    with f False show ?thesis unfolding only_off_def by simp
  next
    case True
    have off: "\<not> plug c1 off"
    proof -
      have "off \<in> set [node_plug_heat cfg, node_plug_cool cfg]" using assms(2) by auto
      with f True assms(3) show ?thesis by auto
    qed
    obtain out c2 where p: "set_plug env on True c1 = (out, c2)" by fastforce
    note sp = set_plug_cases [OF p]
    have rc: "c' = c2" "r = Switched True \<longleftrightarrow> out = Done"
      using assms(1,4) o True p by (auto simp: switch_def split: outcome.splits)
    have "plug c2 off = plug c1 off" using sp assms(3) by auto
    with off have "\<not> plug c' off" by (simp add: rc)
    moreover have "r = Switched True \<Longrightarrow> plug c' on" using sp rc by simp
    moreover have "plug c' n \<Longrightarrow> plug c n" if "clean env" "r \<noteq> Switched True" for n
      using sp rc that f unfolding only_off_def by simp
    ultimately show ?thesis by blast
  qed
qed

lemma wanted_active:
  assumes "is_active a" "node_plug_heat cfg \<noteq> node_plug_cool cfg"
  obtains on off where "wanted_nodes cfg a = [on]" "on \<noteq> off"
    "{node_plug_heat cfg, node_plug_cool cfg} = {on, off}"
    "on = (if a = HEAT then node_plug_heat cfg else node_plug_cool cfg)"
    "off = (if a = HEAT then node_plug_cool cfg else node_plug_heat cfg)"
  using assms that [of "node_plug_heat cfg" "node_plug_cool cfg"]
    that [of "node_plug_cool cfg" "node_plug_heat cfg"]
  by (cases a) (auto simp: is_active_def wanted_nodes_def)

section \<open>Requests of the plan\<close>

lemma advance_window_frame:
  "advance_window cfg now s = Inr s' \<Longrightarrow> \<exists>ws. s' = s\<lparr>window_start := ws\<rparr>"
  unfolding advance_window_def
  by (auto simp: Let_def split: option.splits if_splits sum.splits) (metis actuator.surjective actuator.update_convs(3))+

lemma plan_frame:
  assumes "plan cfg now s = Inr (s', p)"
  obtains ws where "s' = s\<lparr>window_start := ws\<rparr>" "p = plan_body cfg now s'"
  using assms advance_window_frame [of cfg now s s'] by (auto simp: plan_def split: sum.splits)

definition command_stale :: "config \<Rightarrow> pyfloat \<Rightarrow> actuator \<Rightarrow> bool" where
  "command_stale cfg now s \<longleftrightarrow>
     (case last_effort_update s of
        None \<Rightarrow> True
      | Some l \<Rightarrow> flt (command_stale_timeout_s (control cfg)) (fsub now l))"

definition effort_direction :: "actuator \<Rightarrow> act" where
  "effort_direction s = (if flt (Fin 0) (a_effort s) then HEAT else COOL)"

lemma plan_body_active:
  assumes "is_active (requested_action (plan_body cfg now s))"
  shows "\<not> command_stale cfg now s \<and>
    requested_action (plan_body cfg now s) = effort_direction s \<and>
    \<not> fle (fabs (a_effort s)) (effort_deadband (control cfg)) \<and>
    active_s (plan_body cfg now s) = fmul (fabs (a_effort s)) (window_s (control cfg)) \<and>
    flt (fsub now (case window_start s of Some ws \<Rightarrow> ws | None \<Rightarrow> now))
      (active_s (plan_body cfg now s)) \<and>
    \<not> reverse_locked cfg now (effort_direction s) s"
  using assms
  by (auto simp: plan_body_def idle_plan_def is_active_def command_stale_def effort_direction_def
      Let_def split: option.splits if_splits)

lemma plan_body_no_reversal:
  "is_active (a_action s) \<Longrightarrow> is_active (requested_action (plan_body cfg now s)) \<Longrightarrow>
   requested_action (plan_body cfg now s) = a_action s"
  using plan_body_active [of cfg now s] by (auto simp: reverse_locked_def is_active_def)

lemma plan_body_stale:
  "command_stale cfg now s \<Longrightarrow> requested_action (plan_body cfg now s) = IDLE"
  using plan_body_active [of cfg now s]
  by (cases "requested_action (plan_body cfg now s)") (auto simp: is_active_def)

section \<open>Reachable states\<close>

inductive act_step ::
  "config \<Rightarrow> (chip_env \<Rightarrow> bool) \<Rightarrow> actuator \<times> chip \<Rightarrow> actuator \<times> chip \<Rightarrow> bool"
  for cfg ok where
  do_set_effort: "act_step cfg ok (s, c) (set_effort cfg e now s, c)"
| do_plan: "plan cfg now s = Inr (s', p) \<Longrightarrow> act_step cfg ok (s, c) (s', c)"
| do_tick: "ok env \<Longrightarrow> tick cfg env now s c = (r, s', c') \<Longrightarrow> act_step cfg ok (s, c) (s', c')"
| do_force_idle: "ok env \<Longrightarrow> force_idle cfg env now why s c = (r, s', c') \<Longrightarrow>
    act_step cfg ok (s, c) (s', c')"

inductive act_reach :: "config \<Rightarrow> (chip_env \<Rightarrow> bool) \<Rightarrow> actuator \<times> chip \<Rightarrow> bool" for cfg ok where
  act_start: "ok env \<Longrightarrow> initialize cfg env now actuator_init c0 = (Inr (s, tr), c) \<Longrightarrow>
    act_reach cfg ok (s, c)"
| act_next: "act_reach cfg ok x \<Longrightarrow> act_step cfg ok x y \<Longrightarrow> act_reach cfg ok y"

text \<open>What the last switch left: the plug opposite to the action is off, and the lockout has its time.\<close>

definition books_ok :: "actuator \<Rightarrow> bool" where
  "books_ok s \<longleftrightarrow>
     last_active_direction s \<noteq> Some IDLE \<and>
     (a_action s = IDLE \<and> last_active_direction s \<noteq> None \<longrightarrow> idle_since s \<noteq> None)"

definition effort_ok :: "actuator \<Rightarrow> bool" where
  "effort_ok s \<longleftrightarrow> fle (Fin (- 1)) (a_effort s) \<and> fle (a_effort s) (Fin 1)"

definition plugs_ok :: "config \<Rightarrow> actuator \<Rightarrow> chip \<Rightarrow> bool" where
  "plugs_ok cfg s c \<longleftrightarrow>
     interlocked cfg c \<and>
     (a_action s = HEAT \<longrightarrow> \<not> plug c (node_plug_cool cfg)) \<and>
     (a_action s = COOL \<longrightarrow> \<not> plug c (node_plug_heat cfg))"

definition idle_off :: "config \<Rightarrow> actuator \<Rightarrow> chip \<Rightarrow> bool" where
  "idle_off cfg s c \<longleftrightarrow> (a_action s = IDLE \<longrightarrow> both_off cfg c)"

lemma record_switch_simps [simp]:
  "a_action (record_switch now w s) = w" "a_effort (record_switch now w s) = a_effort s"
  by (simp_all add: record_switch_def Let_def)

lemma record_switch_books:
  "books_ok s \<Longrightarrow> w \<noteq> a_action s \<Longrightarrow> books_ok (record_switch now w s)"
  by (cases "a_action s"; cases w) (auto simp: books_ok_def record_switch_def is_active_def)

text \<open>A tick is a plan followed by nothing, by a failed switch, or by a recorded one.\<close>

lemma tick_cases:
  assumes "tick cfg env now s c = (r, s', c')"
  obtains (raised) e where "r = Inl e" "s' = s" "c' = c"
  | (planned) s1 p where "plan cfg now s = Inr (s1, p)" "s' = s1" "c' = c"
      "requested_action p = a_action s" "r = Inr None"
  | (failed) s1 p q where "plan cfg now s = Inr (s1, p)" "s' = s1" "requested_action p \<noteq> a_action s"
      "switch cfg env (requested_action p) c = (q, c')" "q \<noteq> Switched True"
      "r = Inr None \<or> r = Inl OtherError"
  | (recorded) s1 p where "plan cfg now s = Inr (s1, p)" "requested_action p \<noteq> a_action s"
      "switch cfg env (requested_action p) c = (Switched True, c')"
      "s' = record_switch now (requested_action p) s1"
      "r = Inr (Some (requested_action p, p))"
proof (cases "plan cfg now s")
  case (Inl e)
  with assms show ?thesis by (intro raised) (auto simp: tick_def)
next
  case (Inr sp)
  then obtain s1 p where pl: "plan cfg now s = Inr (s1, p)" by (cases sp) auto
  then have act: "a_action s1 = a_action s" by (elim plan_frame) simp
  show ?thesis
  proof (cases "requested_action p = a_action s")
    case True
    with assms pl act show ?thesis by (intro planned [of s1 p]) (auto simp: tick_def)
  next
    case ne: False
    obtain q c2 where sw: "switch cfg env (requested_action p) c = (q, c2)" by fastforce
    show ?thesis
    proof (cases "q = Switched True")
      case True
      with assms pl act ne sw show ?thesis by (intro recorded [of s1 p]) (auto simp: tick_def Let_def)
    next
      case False
      with assms pl act ne sw show ?thesis
        by (intro failed [of s1 p q])
          (auto simp: tick_def Let_def split: switched.splits bool.splits)
    qed
  qed
qed

lemma force_idle_cases:
  assumes "force_idle cfg env now why s c = (r, s', c')"
  obtains (skip) "a_action s = IDLE" "s' = s" "c' = c"
  | (failed) q where "a_action s \<noteq> IDLE" "s' = s" "switch cfg env IDLE c = (q, c')"
      "q \<noteq> Switched True"
  | (recorded) "a_action s \<noteq> IDLE" "switch cfg env IDLE c = (Switched True, c')"
      "s' = s\<lparr>last_active_direction := Some (a_action s), idle_since := Some now, a_action := IDLE\<rparr>"
proof (cases "a_action s = IDLE")
  case True
  with assms show ?thesis by (intro skip) (auto simp: force_idle_def)
next
  case ne: False
  obtain q c2 where sw: "switch cfg env IDLE c = (q, c2)" by fastforce
  with assms ne show ?thesis
    by (cases "q = Switched True")
      (auto simp: force_idle_def split: switched.splits bool.splits intro: failed recorded)
qed

section \<open>Invariants\<close>

lemma switch_interlocked:
  assumes "node_plug_heat cfg \<noteq> node_plug_cool cfg" "interlocked cfg c"
    "switch cfg env a c = (r, c')"
  shows "interlocked cfg c'"
proof (cases "is_active a")
  case True
  from True assms(1) obtain on off where w: "wanted_nodes cfg a = [on]" "on \<noteq> off"
    "{node_plug_heat cfg, node_plug_cool cfg} = {on, off}" by (rule wanted_active)
  note so = switch_one [OF w(1,3,2) assms(3)]
  have "\<not> (plug c on \<and> plug c off)" using assms(2) w(3) by (auto simp: interlocked_def doubleton_eq_iff)
  with so have "\<not> (plug c' on \<and> plug c' off)" by blast
  with w(3) show ?thesis by (auto simp: interlocked_def doubleton_eq_iff)
next
  case False
  then have "a = IDLE" by (cases a) (auto simp: is_active_def)
  with assms switch_IDLE [of cfg env c r c'] show ?thesis
    by (auto simp: interlocked_def only_off_def)
qed

lemma switch_done_plugs:
  assumes "node_plug_heat cfg \<noteq> node_plug_cool cfg" "switch cfg env a c = (Switched True, c')"
  shows "plug c' (node_plug_heat cfg) = (a = HEAT) \<and> plug c' (node_plug_cool cfg) = (a = COOL)"
proof (cases "is_active a")
  case True
  from True assms(1) obtain on off where w: "wanted_nodes cfg a = [on]" "on \<noteq> off"
    "{node_plug_heat cfg, node_plug_cool cfg} = {on, off}"
    "on = (if a = HEAT then node_plug_heat cfg else node_plug_cool cfg)"
    "off = (if a = HEAT then node_plug_cool cfg else node_plug_heat cfg)" by (rule wanted_active)
  from switch_one [OF w(1,3,2) assms(2)] True show ?thesis
    unfolding w(4,5) by (cases a) (auto simp: is_active_def)
next
  case False
  then have "a = IDLE" by (cases a) (auto simp: is_active_def)
  with assms switch_IDLE [of cfg env c "Switched True" c'] show ?thesis
    by (auto simp: both_off_def)
qed

text \<open>A switch that does not complete: with the action known, it leaves the plugs as the books say.\<close>

lemma switch_failed_plugs:
  assumes "node_plug_heat cfg \<noteq> node_plug_cool cfg" "plugs_ok cfg s c"
    "switch cfg env a c = (r, c')" "is_active (a_action s) \<longrightarrow> a = IDLE"
  shows "plugs_ok cfg s c'"
proof (cases "a = IDLE")
  case True
  with assms(2,3) switch_IDLE [of cfg env c r c'] show ?thesis
    by (auto simp: plugs_ok_def interlocked_def only_off_def)
next
  case False
  with assms(4) have "a_action s = IDLE" by (cases "a_action s") (auto simp: is_active_def)
  with switch_interlocked [OF assms(1) _ assms(3)] assms(2) show ?thesis
    by (simp add: plugs_ok_def)
qed

lemma plugs_ok_cong: "a_action t = a_action s \<Longrightarrow> plugs_ok cfg t c = plugs_ok cfg s c"
  by (simp add: plugs_ok_def)

lemma plugs_ok_switched:
  "node_plug_heat cfg \<noteq> node_plug_cool cfg \<Longrightarrow> switch cfg env (a_action t) c = (Switched True, c') \<Longrightarrow>
   plugs_ok cfg t c'"
  using switch_done_plugs [of cfg env "a_action t" c c'] by (auto simp: plugs_ok_def interlocked_def)

lemma plan_request:
  assumes "plan cfg now s = Inr (s1, p)" "requested_action p \<noteq> a_action s"
  shows "is_active (a_action s) \<longrightarrow> requested_action p = IDLE"
proof
  assume act: "is_active (a_action s)"
  from assms(1) obtain ws where w: "s1 = s\<lparr>window_start := ws\<rparr>" "p = plan_body cfg now s1"
    by (rule plan_frame)
  with plan_body_no_reversal [of s1 cfg now] act assms(2) show "requested_action p = IDLE"
    by (cases "requested_action p") (auto simp: is_active_def)
qed

lemma act_step_plugs_ok:
  assumes "node_plug_heat cfg \<noteq> node_plug_cool cfg" "act_step cfg ok (s, c) (s', c')" "plugs_ok cfg s c"
  shows "plugs_ok cfg s' c'"
  using assms(2)
proof (cases rule: act_step.cases)
  case (do_set_effort e now)
  with assms(3) show ?thesis by (simp add: plugs_ok_def set_effort_def Let_def)
next
  case (do_plan now p)
  with assms(3) show ?thesis by (auto elim!: plan_frame simp: plugs_ok_def)
next
  case (do_tick env now r)
  from do_tick(2) show ?thesis
  proof (cases rule: tick_cases)
    case (raised e)
    with assms(3) show ?thesis by simp
  next
    case (planned s1 p)
    with assms(3) show ?thesis by (auto elim!: plan_frame simp: plugs_ok_def)
  next
    case (failed s1 p q)
    have "plugs_ok cfg s c'"
      using switch_failed_plugs [OF assms(1,3) failed(4)] plan_request [OF failed(1,3)] by blast
    with failed(1,2) show ?thesis by (auto elim!: plan_frame simp: plugs_ok_def)
  next
    case (recorded s1 p)
    then show ?thesis by (auto intro: plugs_ok_switched [OF assms(1)])
  qed
next
  case (do_force_idle env now why r)
  from do_force_idle(2) show ?thesis
  proof (cases rule: force_idle_cases)
    case skip
    with assms(3) show ?thesis by simp
  next
    case (failed q)
    with switch_failed_plugs [OF assms(1,3) failed(3)] show ?thesis by simp
  next
    case recorded
    then show ?thesis by (auto intro: plugs_ok_switched [OF assms(1)])
  qed
qed

lemma tick_idle_off:
  assumes ne: "node_plug_heat cfg \<noteq> node_plug_cool cfg" and clean: "clean env"
    and t: "tick cfg env now s c = (r, s', c')" and inv: "idle_off cfg s c"
  shows "idle_off cfg s' c'"
  using t
proof (cases rule: tick_cases)
  case (raised e)
  with inv show ?thesis by simp
next
  case (planned s1 p)
  with inv show ?thesis by (auto elim!: plan_frame simp: idle_off_def)
next
  case (failed s1 p q)
  have a: "a_action s' = a_action s" using failed(1,2) by (auto elim!: plan_frame)
  show ?thesis
  proof (cases "a_action s = IDLE")
    case True
    with failed(3) have act: "is_active (requested_action p)"
      by (cases "requested_action p") (auto simp: is_active_def)
    from act ne obtain on off where w: "wanted_nodes cfg (requested_action p) = [on]" "on \<noteq> off"
      "{node_plug_heat cfg, node_plug_cool cfg} = {on, off}" by (rule wanted_active)
    from switch_one [OF w(1,3,2) failed(4)] failed(5) clean
    have "\<forall>n. plug c' n \<longrightarrow> plug c n" by blast
    with inv True a show ?thesis by (auto simp: idle_off_def both_off_def)
  next
    case False
    with a show ?thesis by (simp add: idle_off_def)
  qed
next
  case (recorded s1 p)
  with switch_done_plugs [OF ne recorded(3)] show ?thesis
    by (auto simp: idle_off_def both_off_def)
qed

lemma act_step_idle_off:
  assumes "node_plug_heat cfg \<noteq> node_plug_cool cfg" "act_step cfg clean (s, c) (s', c')"
    "idle_off cfg s c"
  shows "idle_off cfg s' c'"
  using assms(2)
proof (cases rule: act_step.cases)
  case (do_set_effort e now)
  with assms(3) show ?thesis by (simp add: idle_off_def set_effort_def Let_def)
next
  case (do_plan now p)
  with assms(3) show ?thesis by (auto elim!: plan_frame simp: idle_off_def)
next
  case (do_tick env now r)
  from tick_idle_off [OF assms(1) do_tick(1,2) assms(3)] show ?thesis .
next
  case (do_force_idle env now why r)
  from do_force_idle(2) show ?thesis
  proof (cases rule: force_idle_cases)
    case skip
    with assms(3) show ?thesis by simp
  next
    case (failed q)
    then show ?thesis by (simp add: idle_off_def)
  next
    case recorded
    with switch_done_plugs [OF assms(1) recorded(2)] show ?thesis
      by (auto simp: idle_off_def both_off_def)
  qed
qed

lemma act_step_books:
  assumes "act_step cfg ok (s, c) (s', c')" "books_ok s"
  shows "books_ok s'"
  using assms(1)
proof (cases rule: act_step.cases)
  case (do_set_effort e now)
  with assms(2) show ?thesis by (simp add: books_ok_def set_effort_def Let_def)
next
  case (do_plan now p)
  with assms(2) show ?thesis by (auto elim!: plan_frame simp: books_ok_def)
next
  case (do_tick env now r)
  from do_tick(2) show ?thesis
  proof (cases rule: tick_cases)
    case (recorded s1 p)
    from recorded(1) obtain ws where w: "s1 = s\<lparr>window_start := ws\<rparr>" by (rule plan_frame)
    with assms(2) have "books_ok s1" by (simp add: books_ok_def)
    moreover have "requested_action p \<noteq> a_action s1" using recorded(2) w by simp
    ultimately show ?thesis unfolding recorded(4) by (rule record_switch_books)
  qed (use assms(2) in \<open>auto elim!: plan_frame simp: books_ok_def\<close>)
next
  case (do_force_idle env now why r)
  from do_force_idle(2) show ?thesis
    by (cases rule: force_idle_cases) (use assms(2) in \<open>auto simp: books_ok_def\<close>)
qed

lemma act_step_effort_ok:
  assumes "act_step cfg ok (s, c) (s', c')" "effort_ok s"
  shows "effort_ok s'"
  using assms(1)
proof (cases rule: act_step.cases)
  case (do_set_effort e now)
  then show ?thesis
    using clamp_bounds [of "Fin (- 1)" "Fin 1" e] by (simp add: effort_ok_def set_effort_def Let_def)
next
  case (do_plan now p)
  with assms(2) show ?thesis by (auto elim!: plan_frame simp: effort_ok_def)
next
  case (do_tick env now r)
  from do_tick(2) show ?thesis
    by (cases rule: tick_cases) (use assms(2) in \<open>auto elim!: plan_frame simp: effort_ok_def\<close>)
next
  case (do_force_idle env now why r)
  from do_force_idle(2) show ?thesis
    by (cases rule: force_idle_cases) (use assms(2) in \<open>auto simp: effort_ok_def\<close>)
qed

definition act_inv :: "config \<Rightarrow> actuator \<times> chip \<Rightarrow> bool" where
  "act_inv cfg x \<longleftrightarrow>
     (node_plug_heat cfg \<noteq> node_plug_cool cfg \<longrightarrow> plugs_ok cfg (fst x) (snd x)) \<and>
     books_ok (fst x) \<and> effort_ok (fst x)"

definition act_inv_clean :: "config \<Rightarrow> actuator \<times> chip \<Rightarrow> bool" where
  "act_inv_clean cfg x \<longleftrightarrow>
     (node_plug_heat cfg \<noteq> node_plug_cool cfg \<longrightarrow> idle_off cfg (fst x) (snd x))"

interpretation act_inv: step_invariant "act_step cfg ok" "act_inv cfg"
proof
  fix x y assume "act_step cfg ok x y" "act_inv cfg x"
  then show "act_inv cfg y"
    using act_step_plugs_ok [of cfg ok "fst x" "snd x" "fst y" "snd y"]
      act_step_books [of cfg ok "fst x" "snd x" "fst y" "snd y"]
      act_step_effort_ok [of cfg ok "fst x" "snd x" "fst y" "snd y"]
    by (simp add: act_inv_def)
qed

interpretation act_inv_clean: step_invariant "act_step cfg clean" "act_inv_clean cfg"
proof
  fix x y assume "act_step cfg clean x y" "act_inv_clean cfg x"
  then show "act_inv_clean cfg y"
    using act_step_idle_off [of cfg "fst x" "snd x" "fst y" "snd y"]
    by (simp add: act_inv_clean_def)
qed

lemma initialize_ok:
  assumes "initialize cfg env now actuator_init c0 = (Inr (s, tr), c)"
  shows "act_inv cfg (s, c) \<and> act_inv_clean cfg (s, c)"
proof -
  obtain q c1 where sw: "switch cfg env IDLE c0 = (q, c1)" by fastforce
  with assms have "q = Switched True" "c1 = c"
    "s = actuator_init\<lparr>window_start := Some now, idle_since := Some now\<rparr>"
    by (auto simp: initialize_def split: switched.splits bool.splits)
  with switch_IDLE [OF sw] show ?thesis
    by (auto simp: act_inv_def act_inv_clean_def plugs_ok_def books_ok_def effort_ok_def idle_off_def
        interlocked_def both_off_def actuator_init_def)
qed

lemma act_reach_inv: "act_reach cfg ok x \<Longrightarrow> act_inv cfg x"
proof (induction rule: act_reach.induct)
  case (act_start env now c0 s tr c)
  then show ?case using initialize_ok by blast
next
  case (act_next x y)
  then show ?case using act_inv.step_keeps by blast
qed

lemma act_reach_inv_clean: "act_reach cfg clean x \<Longrightarrow> act_inv_clean cfg x"
proof (induction rule: act_reach.induct)
  case (act_start env now c0 s tr c)
  then show ?case using initialize_ok by blast
next
  case (act_next x y)
  then show ?case using act_inv_clean.step_keeps by blast
qed

lemma act_reach_mono: "act_reach cfg ok x \<Longrightarrow> (\<And>e. ok e \<Longrightarrow> ok' e) \<Longrightarrow> act_reach cfg ok' x"
proof (induction rule: act_reach.induct)
  case (act_start env now c0 s tr c)
  then show ?case using act_reach.act_start by blast
next
  case (act_next x y)
  from act_next.hyps(2) act_next.prems have "act_step cfg ok' x y"
    by (cases rule: act_step.cases) (auto intro: act_step.intros)
  with act_next show ?case by (blast intro: act_reach.act_next)
qed

text \<open>A tick without a fresh effort: the plan raises, or the actuator is idle; the plugs are off when
  it was heating or cooling, and stay off otherwise.\<close>

lemma stale_tick:
  assumes "command_stale cfg now s" "fst (switch cfg env IDLE c) = Switched True"
    "tick cfg env now s c = (r, s', c')"
  shows "(\<exists>e. plan cfg now s = Inl e \<and> r = Inl e \<and> s' = s \<and> c' = c) \<or>
    a_action s' = IDLE \<and> (if a_action s = IDLE then c' = c else both_off cfg c')"
proof (cases "plan cfg now s")
  case (Inl e)
  with assms(3) show ?thesis by (simp add: tick_def)
next
  case (Inr sp)
  then obtain s1 p where pl: "plan cfg now s = Inr (s1, p)" by (cases sp) auto
  then obtain ws where w: "s1 = s\<lparr>window_start := ws\<rparr>" "p = plan_body cfg now s1" by (rule plan_frame)
  have req: "requested_action p = IDLE"
    using assms(1) w plan_body_stale [of cfg now s1] by (simp add: command_stale_def)
  show ?thesis
  proof (cases "a_action s = IDLE")
    case True
    with assms(3) pl req w show ?thesis by (auto simp: tick_def)
  next
    case False
    obtain c2 where sw: "switch cfg env IDLE c = (Switched True, c2)"
      using assms(2) by (metis prod.collapse)
    with assms(3) pl req w False switch_IDLE [OF sw] show ?thesis
      by (auto simp: tick_def both_off_def)
  qed
qed

lemma stale_tick_idle:
  assumes "command_stale cfg now s" "idle_off cfg s c" "fst (switch cfg env IDLE c) = Switched True"
    "tick cfg env now s c = (r, s', c')"
  shows "(\<exists>e. plan cfg now s = Inl e \<and> r = Inl e \<and> s' = s \<and> c' = c) \<or> a_action s' = IDLE \<and> both_off cfg c'"
  using stale_tick [OF assms(1,3,4)] assms(2) by (auto simp: idle_off_def split: if_splits)

text \<open>A tick keeps the effort and its time.\<close>

lemma tick_keeps_effort:
  "tick cfg env now s c = (r, s', c') \<Longrightarrow>
   last_effort_update s' = last_effort_update s \<and> a_effort s' = a_effort s"
  by (erule tick_cases) (auto elim!: plan_frame simp: record_switch_def Let_def)

text \<open>Commands that are all answered.\<close>

lemma switch_IDLE_done:
  assumes "\<forall>n \<ge> length (commands c). fst (env n) = Done"
  shows "fst (switch cfg env IDLE c) = Switched True"
proof -
  have "fst (switch_off env [] ns False c) = Switched True" for ns
    using assms
  proof (induction ns arbitrary: c)
    case Nil
    then show ?case by simp
  next
    case (Cons n ns)
    obtain o1 ap where o: "env (length (commands c)) = (o1, ap)" by fastforce
    have "fst (env (length (commands c))) = Done" using Cons.prems by blast
    with o have "o1 = Done" by simp
    with o obtain c1 where s: "set_plug env n False c = (Done, c1)" "commands c1 = commands c @ [(n, False)]"
      by (simp add: set_plug_def)
    then have "\<forall>m \<ge> length (commands c1). fst (env m) = Done" using Cons.prems by simp
    from Cons.IH [OF this] s show ?case by simp
  qed
  then obtain c1 where "switch_off env [] [node_plug_heat cfg, node_plug_cool cfg] False c = (Switched True, c1)"
    by (metis prod.collapse)
  then show ?thesis by (simp add: switch_def wanted_nodes_def del: switch_off.simps)
qed

text \<open>A tick or a \<open>force_idle\<close> at time \<open>now\<close> that ends heating or cooling, and a step of an idle
  stretch.\<close>

definition goes_idle ::
  "config \<Rightarrow> chip_env \<Rightarrow> pyfloat \<Rightarrow> actuator \<times> chip \<Rightarrow> actuator \<times> chip \<Rightarrow> bool" where
  "goes_idle cfg env now x y \<longleftrightarrow>
     is_active (a_action (fst x)) \<and> a_action (fst y) = IDLE \<and>
     (snd (tick cfg env now (fst x) (snd x)) = y \<or>
      (\<exists>why. snd (force_idle cfg env now why (fst x) (snd x)) = y))"

definition idle_step ::
  "config \<Rightarrow> (chip_env \<Rightarrow> bool) \<Rightarrow> actuator \<times> chip \<Rightarrow> actuator \<times> chip \<Rightarrow> bool" where
  "idle_step cfg ok x y \<longleftrightarrow> act_step cfg ok x y \<and> a_action (fst y) = IDLE"

definition idle_for :: "act \<Rightarrow> pyfloat \<Rightarrow> actuator \<times> chip \<Rightarrow> bool" where
  "idle_for d t x \<longleftrightarrow>
     a_action (fst x) = IDLE \<and> last_active_direction (fst x) = Some d \<and> idle_since (fst x) = Some t"

lemma is_active_not_IDLE [simp]: "\<not> is_active IDLE" "is_active a \<Longrightarrow> a \<noteq> IDLE"
  by (auto simp: is_active_def)

lemma goes_idle_books:
  assumes "goes_idle cfg env now x y"
  shows "idle_for (a_action (fst x)) now y"
proof -
  obtain s c s' c' where xy: "x = (s, c)" "y = (s', c')" by fastforce
  have act: "is_active (a_action s)" and idle: "a_action s' = IDLE"
    using assms by (simp_all add: goes_idle_def xy)
  have ne: "a_action s \<noteq> IDLE" using act by auto
  consider r where "tick cfg env now s c = (r, s', c')"
    | r why where "force_idle cfg env now why s c = (r, s', c')"
    using assms by (auto simp: goes_idle_def xy) (metis prod.collapse)+
  then show ?thesis
  proof cases
    case 1
    then show ?thesis
    proof (cases rule: tick_cases)
      case (recorded s1 p)
      then show ?thesis using act idle
        by (auto elim!: plan_frame simp: idle_for_def record_switch_def xy)
    qed (use ne idle in \<open>auto elim!: plan_frame\<close>)
  next
    case 2
    then show ?thesis
      by (cases rule: force_idle_cases) (use ne idle in \<open>auto simp: idle_for_def xy\<close>)
  qed
qed

lemma idle_step_keeps:
  assumes "idle_step cfg ok x y" "idle_for d t x"
  shows "idle_for d t y"
proof -
  obtain s c s' c' where xy: "x = (s, c)" "y = (s', c')" by fastforce
  have st: "act_step cfg ok (s, c) (s', c')" and idle: "a_action s' = IDLE"
    using assms(1) by (simp_all add: idle_step_def xy)
  have inv: "a_action s = IDLE" "last_active_direction s = Some d" "idle_since s = Some t"
    using assms(2) by (simp_all add: idle_for_def xy)
  from st show ?thesis
  proof (cases rule: act_step.cases)
    case (do_set_effort e now)
    with inv show ?thesis by (simp add: idle_for_def set_effort_def Let_def xy)
  next
    case (do_plan now p)
    with inv show ?thesis by (auto elim!: plan_frame simp: idle_for_def xy)
  next
    case (do_tick env now r)
    from do_tick(2) show ?thesis
      by (cases rule: tick_cases) (use inv idle in \<open>auto elim!: plan_frame simp: idle_for_def xy\<close>)
  next
    case (do_force_idle env now why r)
    with inv show ?thesis by (simp add: force_idle_def idle_for_def xy)
  qed
qed

interpretation idle_stretch: step_invariant "idle_step cfg ok" "idle_for d t"
  by unfold_locales (rule idle_step_keeps)

section \<open>Demonstration runs\<close>

text \<open>A run that starts at 0, asks for full heat and ticks once; \<open>env\<close> answers its five commands.\<close>

definition demo_chip :: chip where
  "demo_chip = \<lparr>plug = (\<lambda>n. False), commands = []\<rparr>"

definition all_done :: chip_env where
  "all_done n = (Done, False)"

text \<open>The fourth command, the ON of the heater, times out after the plug has switched.\<close>

definition lost_on :: chip_env where
  "lost_on n = (if n = 3 then Failed_applied else Done, False)"

definition demo_started :: actuator where
  "demo_started = actuator_init\<lparr>window_start := Some (Fin 0), idle_since := Some (Fin 0)\<rparr>"

definition demo_asked :: actuator where
  "demo_asked = demo_started\<lparr>a_effort := Fin 1, last_effort_update := Some (Fin 0)\<rparr>"

definition demo_idle_chip :: chip where
  "demo_idle_chip = \<lparr>plug = (\<lambda>n. False), commands = [(11, False), (12, False)]\<rparr>"

definition demo_startup_plan :: actuator_plan where
  "demo_startup_plan = idle_plan demo_config (Fin 0) (Fin 0) (Fin 0) ''startup''"

lemmas act_run_simps =
  demo_chip_def demo_started_def demo_asked_def demo_idle_chip_def actuator_init_def
  demo_config_def demo_tuning_def switch_def wanted_nodes_def set_plug_def fle_def fsub_def

lemma demo_initialize:
  "initialize demo_config all_done (Fin 0) actuator_init demo_chip =
     (Inr (demo_started, IDLE, demo_startup_plan), demo_idle_chip)"
  "initialize demo_config lost_on (Fin 0) actuator_init demo_chip =
     (Inr (demo_started, IDLE, demo_startup_plan), demo_idle_chip)"
  by (simp_all add: initialize_def act_run_simps all_done_def lost_on_def demo_startup_plan_def fun_eq_iff)

lemma demo_set_effort: "set_effort demo_config (Fin 1) (Fin 0) demo_started = demo_asked"
  by (simp add: set_effort_def py_max_def py_min_def act_run_simps)

lemma demo_plan:
  "plan demo_config (Fin 0) demo_asked =
     Inr (demo_asked, \<lparr>requested_action = HEAT, plan_effort = Fin 1, duty_cycle = Fin 1,
        active_s = Fin 1800, plan_window_s = Fin 1800, reason = ''duty-on''\<rparr>)"
  by (simp add: plan_def advance_window_def plan_body_def reverse_locked_def act_run_simps Let_def)

lemma demo_asked_reach: "ok all_done \<or> ok lost_on \<Longrightarrow> act_reach demo_config ok (demo_asked, demo_idle_chip)"
  using act_next [OF act_start [OF _ demo_initialize(1)] do_set_effort [of demo_config ok demo_started
        demo_idle_chip "Fin 1" "Fin 0"], unfolded demo_set_effort]
    act_next [OF act_start [OF _ demo_initialize(2)] do_set_effort [of demo_config ok demo_started
        demo_idle_chip "Fin 1" "Fin 0"], unfolded demo_set_effort] by blast

definition demo_heating :: actuator where
  "demo_heating = demo_asked\<lparr>a_action := HEAT, idle_since := None\<rparr>"

definition demo_hot_chip :: chip where
  "demo_hot_chip = \<lparr>plug = (\<lambda>n. False)(11 := True),
     commands = [(11, False), (12, False), (12, False), (11, True)]\<rparr>"

lemma demo_switch:
  "switch demo_config all_done HEAT demo_idle_chip = (Switched True, demo_hot_chip)"
  "switch demo_config lost_on HEAT demo_idle_chip = (Switched False, demo_hot_chip)"
  by (simp_all add: act_run_simps all_done_def lost_on_def demo_hot_chip_def fun_eq_iff)

lemma demo_asked_idle [simp]: "a_action demo_asked = IDLE"
  by (simp add: act_run_simps)

lemma demo_heating_eq: "record_switch (Fin 0) HEAT demo_asked = demo_heating"
  by (simp add: record_switch_def is_active_def demo_heating_def demo_asked_def demo_started_def
      actuator_init_def)

lemma demo_tick:
  "\<exists>p. tick demo_config all_done (Fin 0) demo_asked demo_idle_chip =
     (Inr (Some (HEAT, p)), demo_heating, demo_hot_chip)"
  by (simp add: tick_def demo_plan demo_switch demo_heating_eq)

lemma demo_tick_lost:
  "tick demo_config lost_on (Fin 0) demo_asked demo_idle_chip = (Inr None, demo_asked, demo_hot_chip)"
  by (simp add: tick_def demo_plan demo_switch)

text \<open>The run goes on: at 1800 s the effort asks for cooling, the tick goes idle, and ten seconds later
  the lockout is over.\<close>

definition demo_reversing :: actuator where
  "demo_reversing = demo_heating\<lparr>a_effort := Fin (- 1), last_effort_update := Some (Fin 1800)\<rparr>"

definition demo_waiting :: actuator where
  "demo_waiting = demo_reversing\<lparr>window_start := Some (Fin 1800), a_action := IDLE,
     last_active_direction := Some HEAT, idle_since := Some (Fin 1800)\<rparr>"

definition demo_off_chip :: chip where
  "demo_off_chip = snd (switch demo_config all_done IDLE demo_hot_chip)"

lemmas demo_reversal_simps =
  demo_waiting_def demo_reversing_def demo_heating_def act_run_simps all_done_def Let_def

lemma demo_set_effort_reversing: "set_effort demo_config (Fin (- 1)) (Fin 1800) demo_heating = demo_reversing"
  by (simp add: set_effort_def py_max_def py_min_def demo_reversal_simps)

lemma demo_plan_reversing:
  "\<exists>p. plan demo_config (Fin 1800) demo_reversing =
     Inr (demo_reversing\<lparr>window_start := Some (Fin 1800)\<rparr>, p) \<and> requested_action p = IDLE"
  by (simp add: plan_def advance_window_def whole_windows_def float_of_int_def plan_body_def
      reverse_locked_def demo_reversal_simps)

lemma demo_plan_waiting:
  "\<exists>p. plan demo_config (Fin 1810) demo_waiting = Inr (demo_waiting, p) \<and> requested_action p = COOL"
  by (simp add: plan_def advance_window_def plan_body_def reverse_locked_def demo_reversal_simps)

lemma demo_tick_reversing:
  "\<exists>p. tick demo_config all_done (Fin 1800) demo_reversing demo_hot_chip =
     (Inr (Some (IDLE, p)), demo_waiting, demo_off_chip)"
proof -
  obtain p where p: "plan demo_config (Fin 1800) demo_reversing =
      Inr (demo_reversing\<lparr>window_start := Some (Fin 1800)\<rparr>, p)" "requested_action p = IDLE"
    using demo_plan_reversing by blast
  have sw: "switch demo_config all_done IDLE demo_hot_chip = (Switched True, demo_off_chip)"
    by (simp add: demo_off_chip_def act_run_simps all_done_def)
  have r: "record_switch (Fin 1800) IDLE (demo_reversing\<lparr>window_start := Some (Fin 1800)\<rparr>) = demo_waiting"
    by (simp add: record_switch_def is_active_def demo_waiting_def demo_reversing_def demo_heating_def)
  show ?thesis
    by (simp add: tick_def p sw r) (simp add: demo_reversing_def demo_heating_def)
qed

lemma demo_tick_waiting:
  "\<exists>p s c. tick demo_config all_done (Fin 1810) demo_waiting demo_off_chip = (Inr (Some (COOL, p)), s, c)"
proof -
  obtain p where p: "plan demo_config (Fin 1810) demo_waiting = Inr (demo_waiting, p)"
    "requested_action p = COOL" using demo_plan_waiting by blast
  obtain c where sw: "switch demo_config all_done COOL demo_off_chip = (Switched True, c)"
    by (auto simp: act_run_simps all_done_def)
  have "a_action demo_waiting = IDLE" by (simp add: demo_waiting_def)
  then show ?thesis by (simp add: tick_def p sw)
qed

lemma demo_reversing_reach:
  "act_reach demo_config (\<lambda>env. True) (demo_reversing, demo_hot_chip)"
  "act_reach demo_config (\<lambda>env. True) (demo_waiting, demo_off_chip)"
proof -
  obtain p q where t: "tick demo_config all_done (Fin 0) demo_asked demo_idle_chip =
      (Inr (Some (HEAT, p)), demo_heating, demo_hot_chip)"
    "tick demo_config all_done (Fin 1800) demo_reversing demo_hot_chip =
      (Inr (Some (IDLE, q)), demo_waiting, demo_off_chip)"
    using demo_tick demo_tick_reversing by blast
  have "act_reach demo_config (\<lambda>env. True) (demo_heating, demo_hot_chip)"
    by (rule act_next [OF demo_asked_reach do_tick [OF _ t(1)]]) simp_all
  from act_next [OF this do_set_effort [of demo_config "\<lambda>env. True" demo_heating demo_hot_chip
        "Fin (- 1)" "Fin 1800"]]
  show r: "act_reach demo_config (\<lambda>env. True) (demo_reversing, demo_hot_chip)"
    by (simp add: demo_set_effort_reversing)
  show "act_reach demo_config (\<lambda>env. True) (demo_waiting, demo_off_chip)"
    by (rule act_next [OF r do_tick [OF _ t(2)]]) simp
qed

section \<open>Properties\<close>

text \<open>C3. The interlock: with two different plugs, heater and cooler are never on together, whatever
  commands fail, time out after they took effect or raise, at any times and efforts; and the plug
  opposite to the recorded action is off.\<close>

theorem plugs_never_both_on:
  assumes "node_plug_heat cfg \<noteq> node_plug_cool cfg" "act_reach cfg ok (s, c)"
  shows "\<not> (plug c (node_plug_heat cfg) \<and> plug c (node_plug_cool cfg)) \<and>
    (a_action s = HEAT \<longrightarrow> \<not> plug c (node_plug_cool cfg)) \<and>
    (a_action s = COOL \<longrightarrow> \<not> plug c (node_plug_heat cfg))"
  using act_reach_inv [OF assms(2)] assms(1)
  by (simp add: act_inv_def plugs_ok_def interlocked_def)

theorem plugs_never_both_on_witness:
  "\<exists>s c. act_reach demo_config (\<lambda>env. True) (s, c) \<and> a_action s = HEAT \<and> plug c 11 \<and> \<not> plug c 12"
proof -
  obtain p where t: "tick demo_config all_done (Fin 0) demo_asked demo_idle_chip =
      (Inr (Some (HEAT, p)), demo_heating, demo_hot_chip)" using demo_tick by blast
  have r: "act_reach demo_config (\<lambda>env. True) (demo_heating, demo_hot_chip)"
    by (rule act_next [OF demo_asked_reach do_tick [OF _ t]]) simp_all
  have ne: "node_plug_heat demo_config \<noteq> node_plug_cool demo_config" by (simp add: demo_config_def)
  from plugs_never_both_on [OF ne r] have "\<not> plug demo_hot_chip 12"
    by (simp add: demo_heating_def demo_config_def)
  with r show ?thesis
    by (intro exI [of _ demo_heating] exI [of _ demo_hot_chip])
      (simp add: demo_heating_def demo_hot_chip_def)
qed

text \<open>C17. Losing the controller. A tick with no effort for longer than the timeout, whose OFF commands
  succeed, raises in its plan and changes nothing, or ends idle. It ends with both plugs off when the
  action was to heat or cool, whatever failed before; and from the idle action too where no failed
  command ever took effect. From the idle action it sends no command, so after a lost ON it does not
  switch the plug off.\<close>

theorem stale_command_switches_off:
  assumes "node_plug_heat cfg \<noteq> node_plug_cool cfg" "act_reach cfg ok (s, c)"
    "command_stale cfg now s" "fst (switch cfg env IDLE c) = Switched True"
    "tick cfg env now s c = (r, s', c')"
  shows "(\<exists>e. plan cfg now s = Inl e \<and> r = Inl e \<and> s' = s \<and> c' = c) \<or>
    a_action s' = IDLE \<and>
    (a_action s \<noteq> IDLE \<or> (\<forall>e. ok e \<longrightarrow> clean e) \<longrightarrow> both_off cfg c') \<and>
    (a_action s = IDLE \<longrightarrow> c' = c)"
proof -
  have "idle_off cfg s c" if "\<forall>e. ok e \<longrightarrow> clean e"
    using act_reach_inv_clean [OF act_reach_mono [OF assms(2)]] that assms(1)
    by (simp add: act_inv_clean_def)
  with stale_tick [OF assms(3-5)] show ?thesis by (auto simp: idle_off_def split: if_splits)
qed

theorem stale_command_switches_off_witness:
  "\<exists>s c r s' c'. act_reach demo_config (\<lambda>env. True) (s, c) \<and> plug c 11 \<and>
     tick demo_config all_done (Fin 7200) s c = (r, s', c') \<and> a_action s' = IDLE \<and>
     \<not> plug c' 11 \<and> \<not> plug c' 12"
proof -
  obtain p where t: "tick demo_config all_done (Fin 0) demo_asked demo_idle_chip =
      (Inr (Some (HEAT, p)), demo_heating, demo_hot_chip)" using demo_tick by blast
  have r: "act_reach demo_config (\<lambda>env. True) (demo_heating, demo_hot_chip)"
    by (rule act_next [OF demo_asked_reach do_tick [OF _ t]]) simp_all
  have ne: "node_plug_heat demo_config \<noteq> node_plug_cool demo_config" by (simp add: demo_config_def)
  have st: "command_stale demo_config (Fin 7200) demo_heating"
    by (simp add: command_stale_def demo_heating_def act_run_simps)
  have pl: "\<exists>sp. plan demo_config (Fin 7200) demo_heating = Inr sp"
    by (simp add: plan_def advance_window_def whole_windows_def float_of_int_def demo_heating_def
        act_run_simps Let_def)
  have sw: "fst (switch demo_config all_done IDLE demo_hot_chip) = Switched True"
    by (simp add: act_run_simps all_done_def)
  obtain r' s' c' where t2: "tick demo_config all_done (Fin 7200) demo_heating demo_hot_chip = (r', s', c')"
    by (cases "tick demo_config all_done (Fin 7200) demo_heating demo_hot_chip") auto
  have "a_action s' = IDLE \<and> both_off demo_config c'"
    using pl stale_command_switches_off [OF ne r st sw t2] by (auto simp: demo_heating_def)
  with r t2 show ?thesis
    by (auto simp: both_off_def demo_config_def demo_hot_chip_def intro!: exI)
qed

text \<open>C14. No direct reversal: the actuator switches to heating or cooling only from the idle action,
  in the direction of the effort. When that is not the direction it last left, at the time \<open>t\<close> of the
  tick or \<open>force_idle\<close> that ended it, and the action was idle in every state since, then the
  configured idle time has passed since \<open>t\<close>.\<close>

theorem reversal_passes_idle:
  assumes "act_reach cfg ok (s, c)" "tick cfg env now s c = (Inr (Some (a, p)), s', c')" "is_active a"
  shows "a_action s = IDLE \<and> a_action s' = a \<and> a = effort_direction s \<and>
    (\<forall>x y e t. goes_idle cfg e t x y \<and> (idle_step cfg ok)\<^sup>*\<^sup>* y (s, c) \<and> a \<noteq> a_action (fst x) \<longrightarrow>
      \<not> flt (fsub now t) (reverse_idle_s (control cfg))) \<and>
    (last_active_direction s = None \<or> last_active_direction s = Some a \<or>
     (\<exists>t. idle_since s = Some t \<and> \<not> flt (fsub now t) (reverse_idle_s (control cfg))))"
  using assms(2)
proof (cases rule: tick_cases)
  case (recorded s1 q)
  then have q: "requested_action q = a" by simp
  from recorded(1) obtain ws where w: "s1 = s\<lparr>window_start := ws\<rparr>" "q = plan_body cfg now s1"
    by (rule plan_frame)
  have act: "is_active (requested_action (plan_body cfg now s1))" using assms(3) q w(2) by simp
  note pb = plan_body_active [OF act]
  have a: "a = effort_direction s" using pb q w by (simp add: effort_direction_def)
  have idle: "a_action s = IDLE"
    using plan_request [OF recorded(1,2)] assms(3) q
    by (cases "a_action s") (auto simp: is_active_def)
  have books: "books_ok s" using act_reach_inv [OF assms(1)] by (simp add: act_inv_def)
  have open_lock: "\<not> reverse_locked cfg now a s"
    using pb a w by (simp add: effort_direction_def reverse_locked_def)
  have "\<not> flt (fsub now t) (reverse_idle_s (control cfg))"
    if "goes_idle cfg e t x y" "(idle_step cfg ok)\<^sup>*\<^sup>* y (s, c)" "a \<noteq> a_action (fst x)" for x y e t
    using idle_stretch.steps_keep [OF that(2) goes_idle_books [OF that(1)]] open_lock that(3)
    by (auto simp: idle_for_def reverse_locked_def)
  with books open_lock idle a recorded(4) q show ?thesis
    by (auto simp: books_ok_def reverse_locked_def split: option.splits)
qed simp_all

theorem reversal_passes_idle_witness:
  "\<exists>p s c. goes_idle demo_config all_done (Fin 1800) (demo_reversing, demo_hot_chip)
       (demo_waiting, demo_off_chip) \<and>
     tick demo_config all_done (Fin 1810) demo_waiting demo_off_chip = (Inr (Some (COOL, p)), s, c) \<and>
     a_action demo_reversing = HEAT \<and> a_action s = COOL \<and>
     \<not> flt (fsub (Fin 1810) (Fin 1800)) (reverse_idle_s (control demo_config))"
proof -
  obtain p s c where t: "tick demo_config all_done (Fin 1810) demo_waiting demo_off_chip =
      (Inr (Some (COOL, p)), s, c)" using demo_tick_waiting by blast
  have h: "a_action demo_reversing = HEAT" by (simp add: demo_reversing_def demo_heating_def)
  have g: "goes_idle demo_config all_done (Fin 1800) (demo_reversing, demo_hot_chip)
      (demo_waiting, demo_off_chip)"
    using demo_tick_reversing h by (auto simp: goes_idle_def is_active_def demo_waiting_def)
  have act: "is_active COOL" by (simp add: is_active_def)
  note r = reversal_passes_idle [OF demo_reversing_reach(2) t act]
  from r have all: "\<forall>x y e t. goes_idle demo_config e t x y \<and>
      (idle_step demo_config (\<lambda>env. True))\<^sup>*\<^sup>* y (demo_waiting, demo_off_chip) \<and> COOL \<noteq> a_action (fst x) \<longrightarrow>
      \<not> flt (fsub (Fin 1810) t) (reverse_idle_s (control demo_config))" by blast
  have "\<not> flt (fsub (Fin 1810) (Fin 1800)) (reverse_idle_s (control demo_config))"
    using all [rule_format, of all_done "Fin 1800" "(demo_reversing, demo_hot_chip)"
        "(demo_waiting, demo_off_chip)"] g h by simp
  with r g h t show ?thesis by blast
qed

text \<open>C24. What a request to heat or cool means: the effort is fresh and beyond the deadband, its sign
  is the direction, the pulse is not longer than the window, and the window has not yet used it up.\<close>

theorem request_justified:
  assumes "act_reach cfg ok (s, c)" "plan cfg now s = Inr (s', p)" "is_active (requested_action p)"
    "fle (Fin 0) (effort_deadband (control cfg))"
    "window_s (control cfg) = Fin w" "fl w = Fin w" "0 \<le> w"
  shows "\<not> command_stale cfg now s \<and>
    (if requested_action p = HEAT then flt (Fin 0) (a_effort s) else flt (a_effort s) (Fin 0)) \<and>
    flt (effort_deadband (control cfg)) (fabs (a_effort s)) \<and>
    active_s p = fmul (fabs (a_effort s)) (Fin w) \<and> fle (active_s p) (Fin w)"
proof -
  from assms(2) obtain ws where wd: "s' = s\<lparr>window_start := ws\<rparr>" "p = plan_body cfg now s'"
    by (rule plan_frame)
  have act: "is_active (requested_action (plan_body cfg now s'))" using assms(3) wd(2) by simp
  note pb = plan_body_active [OF act]
  have "effort_ok s" using act_reach_inv [OF assms(1)] by (simp add: act_inv_def)
  then obtain e where e: "a_effort s = Fin e" "- 1 \<le> e" "e \<le> 1"
    by (cases "a_effort s") (auto simp: effort_ok_def fle_def)
  have db: "flt (effort_deadband (control cfg)) (fabs (a_effort s))"
    using pb wd not_flt_iff [of "effort_deadband (control cfg)" "fabs (a_effort s)"]
      fle_not_NaN [OF assms(4)] e(1) by auto
  then have "e \<noteq> 0" using assms(4) e(1) flt_fle_trans [of "effort_deadband (control cfg)" "Fin 0" "effort_deadband (control cfg)"]
    by auto
  moreover have "fle (fmul (Fin \<bar>e\<bar>) (Fin w)) (Fin w)"
    using fmul_le [of "\<bar>e\<bar>" w] e assms(6,7) by auto
  ultimately show ?thesis
    using pb wd e db assms(5) by (auto simp: effort_direction_def command_stale_def)
qed

theorem request_justified_witness:
  "\<exists>p. plan demo_config (Fin 0) demo_asked = Inr (demo_asked, p) \<and> requested_action p = HEAT \<and>
     flt (Fin 0) (a_effort demo_asked) \<and> fle (active_s p) (Fin 1800)"
proof -
  have r: "act_reach demo_config (\<lambda>env. True) (demo_asked, demo_idle_chip)"
    by (rule demo_asked_reach) simp
  from request_justified [OF r demo_plan, of 1800] show ?thesis
    by (simp add: demo_plan is_active_def) (simp add: demo_config_def demo_tuning_def)
qed

text \<open>C39. A failed command can leave the heater on for good. When the ON command times out after the
  plug has switched, the action stays idle; in an idle state a tick without a fresh effort sends no
  command, and the shutdown's \<open>force_idle\<close> sends none either.\<close>

theorem idle_action_sends_nothing:
  assumes "a_action s = IDLE" "command_stale cfg now s"
  shows "snd (snd (tick cfg env now s c)) = c \<and> force_idle cfg env now why s c = (Inr None, s, c)"
proof
  show "force_idle cfg env now why s c = (Inr None, s, c)" using assms by (simp add: force_idle_def)
  obtain r s' c' where t: "tick cfg env now s c = (r, s', c')" by (cases "tick cfg env now s c") auto
  then have "c' = c"
  proof (cases rule: tick_cases)
    case (failed s1 p q)
    from failed(1) obtain ws where w: "s1 = s\<lparr>window_start := ws\<rparr>" "p = plan_body cfg now s1"
      by (rule plan_frame)
    with assms plan_body_stale [of cfg now s1] failed(3) show ?thesis by (simp add: command_stale_def)
  next
    case (recorded s1 p)
    from recorded(1) obtain ws where w: "s1 = s\<lparr>window_start := ws\<rparr>" "p = plan_body cfg now s1"
      by (rule plan_frame)
    with assms plan_body_stale [of cfg now s1] recorded(2) show ?thesis by (simp add: command_stale_def)
  qed
  with t show "snd (snd (tick cfg env now s c)) = c" by simp
qed

theorem idle_action_sends_nothing_witness:
  "\<exists>s c. act_reach demo_config (\<lambda>env. True) (s, c) \<and> a_action s = IDLE \<and> plug c 11 \<and>
     snd (snd (tick demo_config all_done (Fin 7200) s c)) = c \<and>
     force_idle demo_config all_done (Fin 7201) ''shutdown'' s c = (Inr None, s, c)"
proof -
  have r: "act_reach demo_config (\<lambda>env. True) (demo_asked, demo_hot_chip)"
    by (rule act_next [OF demo_asked_reach do_tick [OF _ demo_tick_lost]]) simp_all
  have st: "command_stale demo_config (Fin 7200) demo_asked"
    "command_stale demo_config (Fin 7201) demo_asked"
    by (simp_all add: command_stale_def act_run_simps)
  have h: "plug demo_hot_chip 11" by (simp add: demo_hot_chip_def)
  from idle_action_sends_nothing [OF demo_asked_idle st(1), of all_done demo_hot_chip]
    idle_action_sends_nothing [OF demo_asked_idle st(2), of all_done demo_hot_chip "''shutdown''"]
  show ?thesis
    by (intro exI [of _ demo_asked] exI [of _ demo_hot_chip]) (simp add: r h)
qed

end
