(* ===== verification/Chip_Tool.thy ===== *)
theory Chip_Tool
  imports Actuator Pystring
begin

text \<open>
  The host's adapter around the command line tool \<^verbatim>\<open>chip-tool\<close>, class \<open>ChipTool\<close> of
  \<^verbatim>\<open>host/models/utils.py\<close>, and the reader of \<^verbatim>\<open>host.env\<close> beside it. The tool itself is a
  parameter: \<open>spawn\<close> says what running a command line gives. The lemmas are the round trip of an
  attribute value through the tool's output, the errors of a reading without a value, the way a
  result becomes the outcome of a plug command in \<open>Actuator\<close>, and the settings read from the file.
\<close>

section \<open>Running the tool\<close>

text \<open>What \<open>subprocess.run\<close> does: it returns a finished process with its return code, output and
  error output, it raises \<open>TimeoutExpired\<close>, or it raises something else (no such program).\<close>

datatype proc = Completed int string string | Timed_out | Spawn_raised

record tool_config =
  chip_tool :: string
  storage_dir :: string
  chip_timeout_s :: int

definition join_with :: "string \<Rightarrow> string list \<Rightarrow> string" where
  "join_with sep ws = (case ws of [] \<Rightarrow> [] | w # ws' \<Rightarrow> w @ concat (map (\<lambda>x. sep @ x) ws'))"

definition error_tail :: "string \<Rightarrow> string" where
  "error_tail stderr = (let ls = splitlines (strip stderr) in if ls = [] then ''?'' else last ls)"

definition chip_run ::
  "tool_config \<Rightarrow> (string list \<Rightarrow> int \<Rightarrow> proc) \<Rightarrow> string list \<Rightarrow> py_error + string" where
  "chip_run cfg spawn args =
     (case spawn (chip_tool cfg # args @ [''--storage-directory'', storage_dir cfg]) (chip_timeout_s cfg) of
        Timed_out \<Rightarrow> Inl TimeoutExpired
      | Spawn_raised \<Rightarrow> Inl OtherError
      | Completed rc out err \<Rightarrow>
          if rc \<noteq> 0
          then Inl (RuntimeError (''chip-tool '' @ join_with '' '' args @ '' rc='' @ show_int rc @ '': ''
                      @ error_tail err))
          else Inr out)"

section \<open>Reading an attribute\<close>

definition MEASURED_TAG :: string where
  "MEASURED_TAG = ''MeasuredValue:''"

text \<open>A match of \<open>MEASURED_RE\<close> at the start of the text: its group and the rest of the text. The
  character classes of the expression are disjoint, so the greedy match is the only one.\<close>

definition measured_match :: "string \<Rightarrow> (string \<times> string) option" where
  "measured_match s =
     (if take (length MEASURED_TAG) s = MEASURED_TAG
      then let r = dropWhile is_space (drop (length MEASURED_TAG) s);
               sign = (if r \<noteq> [] \<and> hd r = CHR ''-'' then ''-'' else []);
               ds = drop (length sign) r
           in if takeWhile is_digit ds = [] then None
              else Some (sign @ takeWhile is_digit ds, dropWhile is_digit ds)
      else None)"

lemma measured_match_shorter: "measured_match s = Some (g, t) \<Longrightarrow> length t < length s"
proof -
  assume a: "measured_match s = Some (g, t)"
  define r where "r = dropWhile is_space (drop (length MEASURED_TAG) s)"
  define sign where "sign = (if r \<noteq> [] \<and> hd r = CHR ''-'' then ''-'' else [])"
  have t: "t = dropWhile is_digit (drop (length sign) r)" and "take (length MEASURED_TAG) s = MEASURED_TAG"
    using a by (auto simp only: measured_match_def Let_def r_def [symmetric] sign_def [symmetric]
        option.inject prod.inject split: if_splits)
  then have n: "s \<noteq> []" by (auto simp: MEASURED_TAG_def)
  have "length t \<le> length r"
    unfolding t by (rule le_trans [OF length_dropWhile_le]) simp
  also have "\<dots> \<le> length s - length MEASURED_TAG"
    unfolding r_def by (rule le_trans [OF length_dropWhile_le]) simp
  also have "\<dots> < length s" using n by (simp add: MEASURED_TAG_def)
  finally show ?thesis .
qed

text \<open>\<open>MEASURED_RE.findall\<close>: the matches from left to right, each one starting behind the last.\<close>

function measured_findall :: "string \<Rightarrow> string list" where
  "measured_findall [] = []"
| "measured_findall (c # cs) =
     (case measured_match (c # cs) of
        None \<Rightarrow> measured_findall cs
      | Some (g, rest) \<Rightarrow> g # measured_findall rest)"
  by pat_completeness auto
termination by (relation "measure length") (auto dest: measured_match_shorter)

text \<open>\<open>int\<close> on a match: a sign and digits. More than 4300 digits are a \<open>ValueError\<close> of the
  interpreter (its text is shortened here).\<close>

definition int_of_match :: "string \<Rightarrow> py_error + int" where
  "int_of_match s =
     (let neg = (s \<noteq> [] \<and> hd s = CHR ''-''); ds = (if neg then tl s else s)
      in if 4300 < length ds
         then Inl (ValueError ''Exceeds the limit (4300 digits) for integer string conversion'')
         else Inr (if neg then - int (dec_val ds) else int (dec_val ds)))"

definition chip_read ::
  "tool_config \<Rightarrow> (string list \<Rightarrow> int \<Rightarrow> proc) \<Rightarrow> string \<Rightarrow> int \<Rightarrow> int \<Rightarrow> py_error + int" where
  "chip_read cfg spawn cluster node ep =
     (case chip_run cfg spawn [cluster, ''read'', ''measured-value'', show_int node, show_int ep] of
        Inl e \<Rightarrow> Inl e
      | Inr output \<Rightarrow>
          let matches = measured_findall output
          in if matches = []
             then Inl (RuntimeError (''no MeasuredValue in output for '' @ show_int node @ ''/'' @ show_int ep))
             else int_of_match (last matches))"

definition read_temp_centi ::
  "tool_config \<Rightarrow> (string list \<Rightarrow> int \<Rightarrow> proc) \<Rightarrow> int \<Rightarrow> int \<Rightarrow> py_error + int" where
  "read_temp_centi cfg spawn node ep = chip_read cfg spawn ''temperaturemeasurement'' node ep"

definition read_gravity_milli ::
  "tool_config \<Rightarrow> (string list \<Rightarrow> int \<Rightarrow> proc) \<Rightarrow> int \<Rightarrow> int \<Rightarrow> py_error + int" where
  "read_gravity_milli cfg spawn node ep = chip_read cfg spawn ''relativehumiditymeasurement'' node ep"

definition chip_set_plug ::
  "tool_config \<Rightarrow> (string list \<Rightarrow> int \<Rightarrow> proc) \<Rightarrow> int \<Rightarrow> bool \<Rightarrow> py_error + unit" where
  "chip_set_plug cfg spawn node on =
     (case chip_run cfg spawn [''onoff'', if on then ''on'' else ''off'', show_int node, ''1''] of
        Inl e \<Rightarrow> Inl e
      | Inr _ \<Rightarrow> Inr ())"

section \<open>Lemmas on readings\<close>

lemma length_tag [simp]: "length MEASURED_TAG = 14"
  by (simp add: MEASURED_TAG_def)

lemma tag_M: "0 < i \<Longrightarrow> i < 14 \<Longrightarrow> MEASURED_TAG ! i \<noteq> CHR ''M''"
proof -
  assume "0 < i" "i < 14"
  then have "MEASURED_TAG ! i \<in> set (tl MEASURED_TAG)"
    using nth_tl [of "i - 1" MEASURED_TAG] nth_mem [of "i - 1" "tl MEASURED_TAG"] by simp
  moreover have "CHR ''M'' \<notin> set (tl MEASURED_TAG)" by (simp add: MEASURED_TAG_def)
  ultimately show ?thesis by metis
qed

lemma M_classes [simp]: "\<not> is_space (CHR ''M'')" "\<not> is_digit (CHR ''M'')"
  by (simp_all add: is_space_def is_digit_def)

lemma dropWhile_M: "\<not> p (CHR ''M'') \<Longrightarrow> dropWhile p (s @ CHR ''M'' # t) = dropWhile p s @ CHR ''M'' # t"
  by (induction s) auto

lemma takeWhile_M: "\<not> p (CHR ''M'') \<Longrightarrow> takeWhile p (s @ CHR ''M'' # t) = takeWhile p s"
  by (induction s) auto

text \<open>A match does not run into the letter that starts another tag.\<close>

lemma measured_match_before_M:
  assumes "s \<noteq> []"
  shows "measured_match (s @ CHR ''M'' # t) =
    map_option (\<lambda>(g, rest). (g, rest @ CHR ''M'' # t)) (measured_match s)"
proof (cases "length s < 14")
  case True
  have "(s @ CHR ''M'' # t) ! length s = CHR ''M''" by simp
  then have "take 14 (s @ CHR ''M'' # t) ! length s = CHR ''M''" by (simp only: nth_take [OF True])
  then have "take 14 (s @ CHR ''M'' # t) \<noteq> MEASURED_TAG"
    using tag_M [of "length s"] True assms by auto
  moreover have "take 14 s \<noteq> MEASURED_TAG"
  proof
    assume "take 14 s = MEASURED_TAG"
    then have "length (take 14 s) = 14" by simp
    with True show False by simp
  qed
  ultimately show ?thesis by (simp add: measured_match_def)
next
  case False
  define r where "r = dropWhile is_space (drop 14 s)"
  have r: "dropWhile is_space (drop 14 s @ CHR ''M'' # t) = r @ CHR ''M'' # t"
    by (simp add: r_def dropWhile_M)
  show ?thesis
  proof (cases r)
    case Nil
    with r False show ?thesis
      by (simp add: measured_match_def Let_def r_def [symmetric] del: dropWhile_eq_Nil_conv)
  next
    case (Cons c r')
    with r False show ?thesis
      by (auto simp: measured_match_def Let_def r_def [symmetric] dropWhile_M takeWhile_M)
  qed
qed

lemma measured_findall_before_M:
  "measured_findall (s @ CHR ''M'' # t) = measured_findall s @ measured_findall (CHR ''M'' # t)"
proof (induction s rule: measured_findall.induct)
  case 1
  then show ?case by simp
next
  case (2 c cs)
  have m: "measured_match (c # cs @ CHR ''M'' # t) =
      map_option (\<lambda>(g, rest). (g, rest @ CHR ''M'' # t)) (measured_match (c # cs))"
    using measured_match_before_M [of "c # cs" t] by simp
  show ?case
  proof (cases "measured_match (c # cs)")
    case None
    with 2(1) m show ?thesis by simp
  next
    case (Some gr)
    then obtain g rest where "measured_match (c # cs) = Some (g, rest)" by (cases gr) simp
    with 2(2) m show ?thesis by simp
  qed
qed

lemma show_int_cases:
  obtains (neg) "k < 0" "show_int k = ''-'' @ show_nat (nat (- k))"
  | (nonneg) "0 \<le> k" "show_int k = show_nat (nat k)"
  by (cases "k < 0") (auto simp: show_int_def)

lemma show_nat_hd: "is_digit (hd (show_nat n))"
  using show_nat_digits [of "hd (show_nat n)" n] by simp

lemma digit_classes: "is_digit c \<Longrightarrow> \<not> is_space c \<and> c \<noteq> CHR ''-''"
  by (auto simp: is_digit_def is_space_def Let_def)

text \<open>The tag, white space and a numeral that no digit follows are one match.\<close>

lemma measured_match_value:
  assumes sp: "\<forall>c \<in> set sp. is_space c" and post: "case post of [] \<Rightarrow> True | c # _ \<Rightarrow> \<not> is_digit c"
  shows "measured_match (MEASURED_TAG @ sp @ show_int k @ post) = Some (show_int k, post)"
proof -
  have minus: "\<not> is_space (CHR ''-'')" by (simp add: is_space_def)
  have n: "\<not> is_space (hd (show_nat n))" "hd (show_nat n) \<noteq> CHR ''-''" for n
    using digit_classes [OF show_nat_hd [of n]] by simp_all
  show ?thesis
  proof (cases rule: show_int_cases [of k])
    case neg
    have "dropWhile is_space (sp @ show_int k @ post) = ''-'' @ show_nat (nat (- k)) @ post"
      using sp minus by (simp add: neg dropWhile_all_append)
    with post show ?thesis by (simp add: measured_match_def neg Let_def)
  next
    case nonneg
    have "dropWhile is_space (show_nat (nat k) @ post) = show_nat (nat k) @ post"
      using n(1) [of "nat k"] by (intro dropWhile_stops) simp
    then have "dropWhile is_space (sp @ show_int k @ post) = show_nat (nat k) @ post"
      using sp by (simp add: nonneg dropWhile_all_append)
    with post n(2) [of "nat k"] show ?thesis by (simp add: measured_match_def nonneg Let_def)
  qed
qed

lemma measured_findall_value:
  assumes "\<forall>c \<in> set sp. is_space c" "case post of [] \<Rightarrow> True | c # _ \<Rightarrow> \<not> is_digit c"
  shows "measured_findall (pre @ MEASURED_TAG @ sp @ show_int k @ post) =
    measured_findall pre @ show_int k # measured_findall post"
proof -
  obtain t where t: "MEASURED_TAG @ sp @ show_int k @ post = CHR ''M'' # t"
    by (simp add: MEASURED_TAG_def)
  have "measured_findall (CHR ''M'' # t) = show_int k # measured_findall post"
    using measured_match_value [OF assms, of k] by (simp add: t)
  then show ?thesis unfolding t by (simp add: measured_findall_before_M)
qed

lemma int_of_match_show:
  assumes "length (show_nat (nat \<bar>k\<bar>)) \<le> 4300"
  shows "int_of_match (show_int k) = Inr k"
proof (cases rule: show_int_cases [of k])
  case neg
  with assms show ?thesis by (simp add: int_of_match_def)
next
  case nonneg
  then have "hd (show_nat (nat k)) \<noteq> CHR ''-''" using digit_classes [OF show_nat_hd] by blast
  with nonneg assms show ?thesis by (simp add: int_of_match_def)
qed

lemma show_nat_short:
  assumes "\<bar>k\<bar> < 100000"
  shows "length (show_nat (nat \<bar>k\<bar>)) \<le> 4300"
proof -
  have "nat \<bar>k\<bar> < 10 ^ 5" using assms by (simp add: nat_less_iff)
  from length_show_nat [OF this] show ?thesis by simp
qed

text \<open>An output that no digit follows the tag in has no reading.\<close>

lemma measured_match_null: "measured_match (MEASURED_TAG @ '' null'' @ t) = None"
  by (simp add: measured_match_def Let_def is_space_def is_digit_def)

lemma measured_match_no_M: "c \<noteq> CHR ''M'' \<Longrightarrow> measured_match (c # cs) = None"
  by (simp add: measured_match_def MEASURED_TAG_def)

lemma measured_findall_null:
  assumes "measured_findall post = []"
  shows "measured_findall (tl MEASURED_TAG @ '' null'' @ post) = []"
  using assms by (simp add: MEASURED_TAG_def measured_match_no_M)

section \<open>Plug commands\<close>

text \<open>The outcome of a plug command for \<open>Actuator\<close>: \<open>applied\<close> says whether a command that did not
  report success took effect.\<close>

definition plug_outcome :: "proc \<Rightarrow> bool \<Rightarrow> outcome \<times> bool" where
  "plug_outcome p applied =
     (case p of
        Completed rc out err \<Rightarrow>
          (if rc = 0 then Done else if applied then Failed_applied else Failed_no_effect, applied)
      | Timed_out \<Rightarrow> (if applied then Failed_applied else Failed_no_effect, applied)
      | Spawn_raised \<Rightarrow> (Uncaught, applied))"

text \<open>The branches of \<open>_switch\<close> are the exceptions of \<open>set_plug\<close>: success goes on, \<open>RuntimeError\<close> and
  \<open>TimeoutExpired\<close> are caught, anything else is not.\<close>

lemma plug_outcome_refines:
  assumes "\<And>args. spawn args (chip_timeout_s cfg) = p"
  shows "chip_set_plug cfg spawn node on = Inr () \<longleftrightarrow> fst (plug_outcome p applied) = Done"
    "(\<exists>m. chip_set_plug cfg spawn node on = Inl (RuntimeError m)) \<or>
       chip_set_plug cfg spawn node on = Inl TimeoutExpired \<longleftrightarrow>
     fst (plug_outcome p applied) = Failed_no_effect \<or> fst (plug_outcome p applied) = Failed_applied"
    "chip_set_plug cfg spawn node on = Inl OtherError \<longleftrightarrow> fst (plug_outcome p applied) = Uncaught"
  using assms by (simp_all add: chip_set_plug_def chip_run_def plug_outcome_def split: proc.split)

lemma chip_read_output:
  assumes "spawn (chip_tool tc # [cluster, ''read'', ''measured-value'', show_int node, show_int ep] @
      [''--storage-directory'', storage_dir tc]) (chip_timeout_s tc) = Completed 0 output err"
  shows "chip_read tc spawn cluster node ep =
    (if measured_findall output = []
     then Inl (RuntimeError (''no MeasuredValue in output for '' @ show_int node @ ''/'' @ show_int ep))
     else int_of_match (last (measured_findall output)))"
  using assms by (simp add: chip_read_def chip_run_def)

text \<open>A null attribute has no reading: nothing in the output is taken for a number.\<close>

lemma chip_reading_null:
  assumes "measured_findall pre = []" "measured_findall post = []"
  shows "measured_findall (pre @ MEASURED_TAG @ '' null'' @ post) = []"
proof -
  have "measured_findall (CHR ''M'' # tl MEASURED_TAG @ '' null'' @ post) = []"
    using measured_match_null [of post] measured_findall_null [OF assms(2)] by (simp add: MEASURED_TAG_def)
  then show ?thesis
    using measured_findall_before_M [of pre "tl MEASURED_TAG @ '' null'' @ post"] assms(1)
    by (simp add: MEASURED_TAG_def)
qed

section \<open>Properties\<close>

text \<open>A published value is read back: when the tool succeeds and prints a measured value with any
  text around it, no later value and no digit right after it, the reading is exactly that value, with
  its sign, whatever other values the text before it reports.\<close>

theorem chip_reading_roundtrip:
  assumes "spawn (chip_tool tc # [cluster, ''read'', ''measured-value'', show_int node, show_int ep] @
      [''--storage-directory'', storage_dir tc]) (chip_timeout_s tc) =
      Completed 0 (pre @ MEASURED_TAG @ sp @ show_int k @ post) err"
    and "\<forall>c \<in> set sp. is_space c" "case post of [] \<Rightarrow> True | c # _ \<Rightarrow> \<not> is_digit c"
    and "measured_findall post = []" "\<bar>k\<bar> < 100000"
  shows "chip_read tc spawn cluster node ep = Inr k"
  using measured_findall_value [OF assms(2,3), of pre k] assms(4)
    int_of_match_show [OF show_nat_short [OF assms(5)]]
  by (simp add: chip_read_output [where spawn = spawn, OF assms(1)])

text \<open>The tool used in examples, and a world where its every run prints one text.\<close>

definition demo_tool :: tool_config where
  "demo_tool = \<lparr>chip_tool = ''chip-tool'', storage_dir = ''chip-storage'', chip_timeout_s = 30\<rparr>"

theorem chip_reading_roundtrip_witness:
  "chip_read demo_tool (\<lambda>args t. Completed 0
     (''[TOO]   MeasuredValue: 2100 [DMG] MeasuredValue: -437'' @ [CHR 0x0A]) []) ''temperaturemeasurement'' 1 2 =
   Inr (- 437)"
proof -
  have "show_nat 437 = ''437''" by code_simp
  then have o: "''[TOO]   MeasuredValue: 2100 [DMG] MeasuredValue: -437'' @ [CHR 0x0A] =
      ''[TOO]   MeasuredValue: 2100 [DMG] '' @ MEASURED_TAG @ '' '' @ show_int (- 437) @ [CHR 0x0A]"
    by (simp add: MEASURED_TAG_def show_int_def)
  have n: "measured_findall [CHR 0x0A] = []" by (simp add: measured_match_no_M)
  show ?thesis unfolding o
    by (rule chip_reading_roundtrip [OF refl _ _ n]) (simp_all add: is_space_def is_digit_def)
qed

end
