(* ===== verification/Control_Loop.thy ===== *)
theory Control_Loop
  imports Actuator Chip_Tool
begin

text \<open>
  The control loop of the host, class \<open>ControlLoop\<close> of \<^verbatim>\<open>host/models/control.py\<close> and the entry point
  \<^verbatim>\<open>host/models/run.py\<close>: it reads the sensors with \<open>Chip_Tool\<close>, filters the readings, runs the
  controller of \<open>Control\<close>, drives the actuator of \<open>Actuator\<close>, and emits telemetry. The clock, the tool
  and the plugs are the \<open>world\<close>: its functions answer the n-th question. The telemetry is the list of
  calls of the emitter with their numbers; formatting them and sending them (best effort, no exception
  comes back) is left out, as is logging. The lemmas lift the invariants of the actuator to whole runs
  of the program.
\<close>

section \<open>State\<close>

record world =
  w_clock :: "nat \<Rightarrow> pyfloat"
  w_spawn :: "nat \<Rightarrow> string list \<Rightarrow> int \<Rightarrow> proc"
  w_plugs :: chip_env

datatype event =
    Control_event act int pyfloat pyfloat pyfloat pyfloat string
  | Sensor_event string pyfloat
  | State_event pyfloat pyfloat "pyfloat option" act pyfloat

text \<open>The fields of the loop and of the objects it holds; \<open>l_clock\<close> and \<open>l_reads\<close> count the questions
  asked so far.\<close>

record loop_state =
  l_pi :: pi_state
  l_act :: actuator
  l_chip :: chip
  ambient_filtered :: "pyfloat option"
  internal_filtered :: "pyfloat option"
  last_diff_centi :: int
  telemetry :: "event list"
  l_clock :: nat
  l_reads :: nat

definition loop_init :: "chip \<Rightarrow> loop_state" where
  "loop_init c =
     \<lparr>l_pi = pi_init, l_act = actuator_init, l_chip = c, ambient_filtered = None,
      internal_filtered = None, last_diff_centi = 0, telemetry = [], l_clock = 0, l_reads = 0\<rparr>"

section \<open>Steps\<close>

definition monotonic :: "world \<Rightarrow> loop_state \<Rightarrow> pyfloat \<times> loop_state" where
  "monotonic w l = (w_clock w (l_clock l), l\<lparr>l_clock := Suc (l_clock l)\<rparr>)"

definition ema :: "pyfloat option \<Rightarrow> pyfloat \<Rightarrow> pyfloat \<Rightarrow> pyfloat" where
  "ema previous sample alpha =
     (case previous of None \<Rightarrow> sample | Some p \<Rightarrow> fadd p (fmul alpha (fsub sample p)))"

text \<open>Python's \<open>round\<close> of a float to an integer, half to even.\<close>

fun py_round :: "pyfloat \<Rightarrow> py_error + int" where
  "py_round (Fin a) = Inr (rne a)"
| "py_round NaN = Inl (ValueError ''cannot convert float NaN to integer'')"
| "py_round _ = Inl OverflowError"

text \<open>\<open>time.sleep\<close> of a number of seconds: NaN, a negative number and more nanoseconds than 64 bits
  hold raise.\<close>

definition py_sleep :: "pyfloat \<Rightarrow> py_error + unit" where
  "py_sleep d =
     (if d = NaN then Inl (ValueError ''Invalid value NaN (not a number)'')
      else if fle (Fin (2 ^ 63)) (fmul d (Fin 1000000000)) \<or> flt (fmul d (Fin 1000000000)) (Fin (- (2 ^ 63)))
      then Inl OverflowError
      else if flt d (Fin 0) then Inl (ValueError ''sleep length must be non-negative'')
      else Inr ())"

text \<open>The exceptions the readers catch.\<close>

fun is_caught :: "py_error \<Rightarrow> bool" where
  "is_caught (RuntimeError m) = True"
| "is_caught TimeoutExpired = True"
| "is_caught _ = False"

text \<open>An integer reading in calibrated units: \<open>reading / scale + offset\<close>, with the conversion of the
  integer that the division makes.\<close>

definition calibrated :: "rat \<Rightarrow> pyfloat \<Rightarrow> py_error + int \<Rightarrow> py_error + pyfloat" where
  "calibrated scale offset r =
     (case r of
        Inl e \<Rightarrow> Inl e
      | Inr k \<Rightarrow>
          (case float_of_int k of
             Inl e \<Rightarrow> Inl e
           | Inr x \<Rightarrow> (case fdiv x (Fin scale) of Inl e \<Rightarrow> Inl e | Inr q \<Rightarrow> Inr (fadd q offset))))"

definition next_spawn :: "world \<Rightarrow> loop_state \<Rightarrow> (string list \<Rightarrow> int \<Rightarrow> proc) \<times> loop_state" where
  "next_spawn w l = (w_spawn w (l_reads l), l\<lparr>l_reads := Suc (l_reads l)\<rparr>)"

definition sensor_ambient ::
  "config \<Rightarrow> tool_config \<Rightarrow> world \<Rightarrow> loop_state \<Rightarrow> (py_error + pyfloat) \<times> loop_state" where
  "sensor_ambient cfg tc w l =
     (let (sp, l') = next_spawn w l in
      (calibrated 100 (ambient_offset_c cfg) (read_temp_centi tc sp (node_sensor cfg) (ep_ambient cfg)), l'))"

definition sensor_internal ::
  "config \<Rightarrow> tool_config \<Rightarrow> world \<Rightarrow> loop_state \<Rightarrow> (py_error + pyfloat) \<times> loop_state" where
  "sensor_internal cfg tc w l =
     (let (sp, l') = next_spawn w l in
      (calibrated 100 (internal_offset_c cfg) (read_temp_centi tc sp (node_sensor cfg) (ep_internal cfg)), l'))"

text \<open>\<open>_read_gravity\<close>: a caught exception gives \<open>None\<close>.\<close>

definition read_gravity ::
  "config \<Rightarrow> tool_config \<Rightarrow> world \<Rightarrow> loop_state \<Rightarrow> (py_error + pyfloat option) \<times> loop_state" where
  "read_gravity cfg tc w l =
     (let (sp, l') = next_spawn w l in
      (case calibrated 1000 (sg_offset cfg) (read_gravity_milli tc sp (node_sensor cfg) (ep_gravity cfg)) of
         Inl e \<Rightarrow> if is_caught e then Inr None else Inl e
       | Inr x \<Rightarrow> Inr (Some x), l'))"

definition emit :: "event list \<Rightarrow> loop_state \<Rightarrow> loop_state" where
  "emit es l = l\<lparr>telemetry := telemetry l @ es\<rparr>"

definition emit_transition :: "act \<times> actuator_plan \<Rightarrow> loop_state \<Rightarrow> loop_state" where
  "emit_transition tr l =
     (case tr of (a, p) \<Rightarrow>
        emit [Control_event a (last_diff_centi l) (plan_effort p) (duty_cycle p) (active_s p)
                (plan_window_s p) (reason p)] l)"

definition emit_control_heartbeat :: "actuator_plan \<Rightarrow> loop_state \<Rightarrow> loop_state" where
  "emit_control_heartbeat p l =
     emit [Control_event (a_action (l_act l)) (last_diff_centi l) (plan_effort p) (duty_cycle p)
             (active_s p) (plan_window_s p) ''heartbeat''] l"

text \<open>What the code does with a result of the actuator: store its state, emit a transition, let an
  exception through.\<close>

definition after_actuator ::
  "(py_error + transition) \<times> actuator \<times> chip \<Rightarrow> loop_state \<Rightarrow> (py_error + unit) \<times> loop_state" where
  "after_actuator rsc l =
     (case rsc of (r, s, c) \<Rightarrow>
        let l' = l\<lparr>l_act := s, l_chip := c\<rparr>
        in case r of
             Inl e \<Rightarrow> (Inl e, l')
           | Inr None \<Rightarrow> (Inr (), l')
           | Inr (Some tr) \<Rightarrow> (Inr (), emit_transition tr l'))"

definition tick_emit :: "config \<Rightarrow> world \<Rightarrow> pyfloat \<Rightarrow> loop_state \<Rightarrow> (py_error + unit) \<times> loop_state" where
  "tick_emit cfg w now l = after_actuator (tick cfg (w_plugs w) now (l_act l) (l_chip l)) l"

text \<open>Sequencing: \<open>f\<close> runs where the first step raised nothing.\<close>

definition and_then ::
  "(py_error + unit) \<times> loop_state \<Rightarrow> (loop_state \<Rightarrow> (py_error + unit) \<times> loop_state) \<Rightarrow>
   (py_error + unit) \<times> loop_state" where
  "and_then rl f = (case rl of (Inl e, l) \<Rightarrow> (Inl e, l) | (Inr _, l) \<Rightarrow> f l)"

text \<open>The rest of \<open>_control_update\<close> after the gravity reading \<open>sg\<close>, with the decision \<open>d\<close>.\<close>

definition report_update ::
  "config \<Rightarrow> world \<Rightarrow> pyfloat \<Rightarrow> pyfloat \<Rightarrow> pyfloat option \<Rightarrow> control_decision \<Rightarrow> loop_state \<Rightarrow>
   (py_error + unit) \<times> loop_state" where
  "report_update cfg w ambient_c internal_c sg d l =
     (let (now, l1) = monotonic w l in
      and_then (tick_emit cfg w now l1) (\<lambda>l2.
        case plan cfg now (l_act l2) of
          Inl e \<Rightarrow> (Inl e, l2)
        | Inr (s, p) \<Rightarrow>
            let l3 = emit_control_heartbeat p (l2\<lparr>l_act := s\<rparr>)
            in (Inr (),
                emit ([Sensor_event ''ambient'' ambient_c, Sensor_event ''internal'' internal_c] @
                      (case sg of None \<Rightarrow> [] | Some g \<Rightarrow> [Sensor_event ''gravity'' g]) @
                      [State_event ambient_c internal_c sg (a_action (l_act l3)) (effort d)]) l3)))"

text \<open>The part of \<open>_control_update\<close> after the temperature readings.\<close>

definition apply_readings ::
  "config \<Rightarrow> tool_config \<Rightarrow> world \<Rightarrow> pyfloat \<Rightarrow> pyfloat \<Rightarrow> loop_state \<Rightarrow> (py_error + unit) \<times> loop_state" where
  "apply_readings cfg tc w ambient_c internal_c l =
     (let (now, l1) = monotonic w l;
          t = control cfg;
          af = ema (ambient_filtered l1) ambient_c (ambient_filter_alpha t);
          f = ema (internal_filtered l1) internal_c (internal_filter_alpha t);
          (ps, d) = pi_update cfg f af now (l_pi l1);
          l2 = l1\<lparr>ambient_filtered := Some af, internal_filtered := Some f, l_pi := ps\<rparr>
      in case py_round (fmul (fsub internal_c (setpoint_c cfg)) (Fin 100)) of
           Inl e \<Rightarrow> (Inl e, l2)
         | Inr k \<Rightarrow>
             let l3 = l2\<lparr>last_diff_centi := k, l_act := set_effort cfg (effort d) now (l_act l2)\<rparr>
             in and_then (tick_emit cfg w now l3) (\<lambda>l4.
                  case read_gravity cfg tc w l4 of
                    (Inl e, l5) \<Rightarrow> (Inl e, l5)
                  | (Inr sg, l5) \<Rightarrow> report_update cfg w ambient_c internal_c sg d l5))"

text \<open>A failed reading: the exceptions of the tool end the update, others go on.\<close>

definition reading_failed :: "py_error \<Rightarrow> py_error + unit" where
  "reading_failed e = (if is_caught e then Inr () else Inl e)"

definition loop_control_update ::
  "config \<Rightarrow> tool_config \<Rightarrow> world \<Rightarrow> loop_state \<Rightarrow> (py_error + unit) \<times> loop_state" where
  "loop_control_update cfg tc w l =
     (case sensor_ambient cfg tc w l of
        (Inl e, l1) \<Rightarrow> (reading_failed e, l1)
      | (Inr ambient_c, l1) \<Rightarrow>
          (case sensor_internal cfg tc w l1 of
             (Inl e, l2) \<Rightarrow> (reading_failed e, l2)
           | (Inr internal_c, l2) \<Rightarrow> apply_readings cfg tc w ambient_c internal_c l2))"

section \<open>The run\<close>

text \<open>One turn of the loop, up to and including the sleep; \<open>next\<close> is the time of the next sensor
  update, returned with the state.\<close>

definition loop_iter ::
  "config \<Rightarrow> tool_config \<Rightarrow> world \<Rightarrow> pyfloat \<Rightarrow> loop_state \<Rightarrow> (py_error + pyfloat) \<times> loop_state" where
  "loop_iter cfg tc w next l =
     (let (now, l1) = monotonic w l in
      case tick_emit cfg w now l1 of
        (Inl e, l2) \<Rightarrow> (Inl e, l2)
      | (Inr _, l2) \<Rightarrow>
          if fle next now
          then (case loop_control_update cfg tc w l2 of
                  (Inl e, l3) \<Rightarrow> (Inl e, l3)
                | (Inr _, l3) \<Rightarrow>
                    let (t, l4) = monotonic w l3
                    in (case py_sleep (actuator_tick_s (control cfg)) of
                          Inl e \<Rightarrow> (Inl e, l4)
                        | Inr _ \<Rightarrow> (Inr (fadd t (period_s cfg)), l4)))
          else (case py_sleep (actuator_tick_s (control cfg)) of
                  Inl e \<Rightarrow> (Inl e, l2)
                | Inr _ \<Rightarrow> (Inr next, l2)))"

datatype run_end = Interrupted | Failed py_error

text \<open>\<open>k\<close> turns of the loop, then an interrupt from the keyboard while it sleeps; an exception ends the
  loop before.\<close>

primrec loop_turns ::
  "config \<Rightarrow> tool_config \<Rightarrow> world \<Rightarrow> nat \<Rightarrow> pyfloat \<Rightarrow> loop_state \<Rightarrow> run_end \<times> loop_state" where
  "loop_turns cfg tc w 0 next l = (Interrupted, l)"
| "loop_turns cfg tc w (Suc k) next l =
     (case loop_iter cfg tc w next l of
        (Inl e, l') \<Rightarrow> (Failed e, l')
      | (Inr next', l') \<Rightarrow> loop_turns cfg tc w k next' l')"

text \<open>The \<open>finally\<close> clause of \<open>run\<close>: an exception of its own replaces the one that is under way.\<close>

definition finish :: "config \<Rightarrow> world \<Rightarrow> run_end \<times> loop_state \<Rightarrow> run_end \<times> loop_state" where
  "finish cfg w xl =
     (let (now, l1) = monotonic w (snd xl) in
      case after_actuator (force_idle cfg (w_plugs w) now ''shutdown'' (l_act l1) (l_chip l1)) l1 of
        (Inl e, l2) \<Rightarrow> (Failed e, l2)
      | (Inr _, l2) \<Rightarrow> (fst xl, l2))"

definition start ::
  "config \<Rightarrow> world \<Rightarrow> chip \<Rightarrow> (py_error + pyfloat) \<times> loop_state" where
  "start cfg w c =
     (let (now, l1) = monotonic w (loop_init c) in
      case initialize cfg (w_plugs w) now (l_act l1) (l_chip l1) of
        (Inl e, c') \<Rightarrow> (Inl e, l1\<lparr>l_chip := c'\<rparr>)
      | (Inr (s, tr), c') \<Rightarrow> (Inr now, emit_transition tr (l1\<lparr>l_act := s, l_chip := c'\<rparr>)))"

definition run_loop ::
  "config \<Rightarrow> tool_config \<Rightarrow> world \<Rightarrow> nat \<Rightarrow> chip \<Rightarrow> run_end \<times> loop_state" where
  "run_loop cfg tc w k c =
     (case start cfg w c of
        (Inl e, l) \<Rightarrow> (Failed e, l)
      | (Inr now, l) \<Rightarrow> finish cfg w (loop_turns cfg tc w k now l))"

text \<open>The exit of \<open>main\<close>: 2 for a configuration that does not load (\<open>OtherError\<close> stands for the
  missing file, key or type there), 0 for an interrupt, 1 for a \<open>RuntimeError\<close>; other exceptions leave
  the program with a traceback.\<close>

datatype exit = Exit_code int | Traceback py_error

fun exit_of :: "run_end \<Rightarrow> exit" where
  "exit_of Interrupted = Exit_code 0"
| "exit_of (Failed (RuntimeError m)) = Exit_code 1"
| "exit_of (Failed e) = Traceback e"

definition run_main ::
  "py_error + config \<Rightarrow> tool_config \<Rightarrow> world \<Rightarrow> nat \<Rightarrow> chip \<Rightarrow> exit" where
  "run_main loaded tc w k c =
     (case loaded of
        Inl e \<Rightarrow> 
          (case e of
             ValueError m \<Rightarrow> Exit_code 2 | RuntimeError m \<Rightarrow> Exit_code 2 | OtherError \<Rightarrow> Exit_code 2
           | _ \<Rightarrow> Traceback e)
      | Inr cfg \<Rightarrow> exit_of (fst (run_loop cfg tc w k c)))"

section \<open>The loop drives the actuator by its steps\<close>

definition actuated :: "config \<Rightarrow> (chip_env \<Rightarrow> bool) \<Rightarrow> loop_state \<Rightarrow> loop_state \<Rightarrow> bool" where
  "actuated cfg ok l l' \<longleftrightarrow> (act_step cfg ok)\<^sup>*\<^sup>* (l_act l, l_chip l) (l_act l', l_chip l')"

text \<open>The last action the telemetry was told.\<close>

definition told :: "loop_state \<Rightarrow> act option" where
  "told l = fold (\<lambda>e a. case e of Control_event b _ _ _ _ _ _ \<Rightarrow> Some b | _ \<Rightarrow> a) (telemetry l) None"

definition told_right :: "loop_state \<Rightarrow> bool" where
  "told_right l \<longleftrightarrow> told l = Some (a_action (l_act l))"

text \<open>What holds of every operation of the loop: it acts by actuator steps, and telemetry that was right
  stays right.\<close>

definition drives :: "config \<Rightarrow> (chip_env \<Rightarrow> bool) \<Rightarrow> loop_state \<Rightarrow> loop_state \<Rightarrow> bool" where
  "drives cfg ok l l' \<longleftrightarrow> actuated cfg ok l l' \<and> (told_right l \<longrightarrow> told_right l')"

lemma drives_refl [simp]: "drives cfg ok l l"
  by (simp add: drives_def actuated_def)

lemma drives_trans: "drives cfg ok l m \<Longrightarrow> drives cfg ok m n \<Longrightarrow> drives cfg ok l n"
  unfolding drives_def actuated_def by (blast intro: rtranclp_trans)

text \<open>An operation that leaves the actuator, the plugs and the telemetry alone.\<close>

definition same_view :: "loop_state \<Rightarrow> loop_state \<Rightarrow> bool" where
  "same_view l l' \<longleftrightarrow> l_act l' = l_act l \<and> l_chip l' = l_chip l \<and> telemetry l' = telemetry l"

lemma drives_same: "same_view l l' \<Longrightarrow> drives cfg ok l l'"
  by (simp add: same_view_def drives_def actuated_def told_right_def told_def)

lemma told_emit [simp]:
  "told (emit [] l) = told l"
  "told (emit (Control_event a i x1 x2 x3 x4 m # es) l) = told (emit es (l\<lparr>telemetry := telemetry l @ [Control_event a i x1 x2 x3 x4 m]\<rparr>))"
  "told (emit (Sensor_event m x # es) l) = told (emit es l)"
  "told (emit (State_event x y g a e # es) l) = told (emit es l)"
  by (simp_all add: told_def emit_def)

lemma told_snoc [simp]:
  "told (l\<lparr>telemetry := telemetry l @ [Control_event a i x1 x2 x3 x4 m]\<rparr>) = Some a"
  by (simp add: told_def)

lemma emit_fields [simp]:
  "l_act (emit es l) = l_act l" "l_chip (emit es l) = l_chip l" "l_clock (emit es l) = l_clock l"
  "l_reads (emit es l) = l_reads l" "last_diff_centi (emit es l) = last_diff_centi l"
  by (simp_all add: emit_def)

lemma emit_transition_told [simp]:
  "told (emit_transition (a, p) l) = Some a" "l_act (emit_transition tr l) = l_act l"
  "l_chip (emit_transition tr l) = l_chip l" "l_clock (emit_transition tr l) = l_clock l"
  "l_reads (emit_transition tr l) = l_reads l"
  by (simp_all add: emit_transition_def split: prod.split)

text \<open>A result of the actuator that names its action, or that left it.\<close>

lemma drives_after_actuator:
  assumes "act_step cfg ok (l_act l, l_chip l) (s, c)"
    and "\<And>a p. r = Inr (Some (a, p)) \<Longrightarrow> a_action s = a"
    and "(\<And>tr. r \<noteq> Inr (Some tr)) \<Longrightarrow> a_action s = a_action (l_act l)"
    and "after_actuator (r, s, c) l = (x, l')"
  shows "drives cfg ok l l' \<and> l_act l' = s \<and> l_chip l' = c \<and> l_clock l' = l_clock l \<and> l_reads l' = l_reads l"
proof -
  from assms(4) have f: "l_act l' = s" "l_chip l' = c" "l_clock l' = l_clock l" "l_reads l' = l_reads l"
    by (auto simp: after_actuator_def Let_def split: sum.splits option.splits)
  moreover have "told_right l'" if t: "told_right l"
  proof (cases "\<exists>a p. r = Inr (Some (a, p))")
    case True
    then obtain a p where r: "r = Inr (Some (a, p))" by blast
    with assms(4) have "l' = emit_transition (a, p) (l\<lparr>l_act := s, l_chip := c\<rparr>)"
      by (simp add: after_actuator_def)
    then have "told l' = Some a" by (simp only: emit_transition_told)
    with assms(2) [OF r] f show ?thesis by (simp add: told_right_def)
  next
    case False
    then have "a_action s = a_action (l_act l)" using assms(3) by fast
    moreover have "l' = l\<lparr>l_act := s, l_chip := c\<rparr>"
      using False assms(4) by (auto simp: after_actuator_def Let_def split: sum.splits option.splits)
    ultimately show ?thesis using t by (simp add: told_right_def told_def)
  qed
  ultimately show ?thesis using assms(1) by (auto simp: drives_def actuated_def)
qed

lemma tick_named:
  assumes "tick cfg env now s c = (r, s', c')"
  shows "r = Inr (Some (a, p)) \<Longrightarrow> a_action s' = a"
    and "(\<And>tr. r \<noteq> Inr (Some tr)) \<Longrightarrow> a_action s' = a_action s"
  by (rule tick_cases [OF assms]; auto elim!: plan_frame)+

lemma force_idle_named:
  assumes "force_idle cfg env now why s c = (r, s', c')"
  shows "r = Inr (Some (a, p)) \<Longrightarrow> a_action s' = a"
    and "(\<And>tr. r \<noteq> Inr (Some tr)) \<Longrightarrow> a_action s' = a_action s"
  using assms by (auto simp: force_idle_def split: if_splits prod.splits switched.splits bool.splits)

lemma drives_tick_emit:
  assumes "ok (w_plugs w)" "tick_emit cfg w now l = (x, l')"
  shows "drives cfg ok l l' \<and> l_clock l' = l_clock l \<and> l_reads l' = l_reads l"
proof -
  obtain r s c where t: "tick cfg (w_plugs w) now (l_act l) (l_chip l) = (r, s, c)"
    by (cases "tick cfg (w_plugs w) now (l_act l) (l_chip l)") auto
  from drives_after_actuator [OF do_tick [of ok, OF assms(1) t] tick_named [OF t], where x = x and l' = l'] assms(2)
  show ?thesis by (simp add: tick_emit_def t)
qed

lemma drives_plan:
  assumes "plan cfg now (l_act l) = Inr (s, p)"
  shows "drives cfg ok l (l\<lparr>l_act := s\<rparr>) \<and> a_action s = a_action (l_act l)"
proof -
  have a: "a_action s = a_action (l_act l)" using assms by (elim plan_frame) simp
  have "act_step cfg ok (l_act l, l_chip l) (s, l_chip l)" using assms by (rule do_plan)
  then show ?thesis using a by (auto simp: drives_def actuated_def told_right_def told_def)
qed

lemma told_sensors:
  "told (emit ([Sensor_event m x, Sensor_event n y] @ (case sg of None \<Rightarrow> [] | Some g \<Rightarrow> [Sensor_event k g]) @
     [State_event a b sg c e]) l) = told l"
  by (cases sg) simp_all

lemma drives_heartbeat:
  assumes "plan cfg now (l_act l) = Inr (s, p)" "\<And>t. told (emit es t) = told t"
  shows "drives cfg ok l (emit es (emit_control_heartbeat p (l\<lparr>l_act := s\<rparr>)))"
proof -
  let ?l = "emit es (emit_control_heartbeat p (l\<lparr>l_act := s\<rparr>))"
  have "told ?l = Some (a_action s)" by (simp add: assms(2)) (simp add: emit_control_heartbeat_def emit_def told_def)
  moreover have "l_act ?l = s" "l_chip ?l = l_chip l" by (simp_all add: emit_control_heartbeat_def)
  moreover have "act_step cfg ok (l_act l, l_chip l) (s, l_chip l)" using assms(1) by (rule do_plan)
  ultimately show ?thesis by (auto simp: drives_def actuated_def told_right_def)
qed

lemma drives_report_update:
  assumes "ok (w_plugs w)" "report_update cfg w amb int_c sg d l = (x, l')"
  shows "drives cfg ok l l'"
proof -
  obtain now l1 where m: "monotonic w l = (now, l1)" by fastforce
  then have d1: "drives cfg ok l l1" by (intro drives_same) (auto simp: monotonic_def same_view_def)
  obtain y l2 where t: "tick_emit cfg w now l1 = (y, l2)" by fastforce
  have d2: "drives cfg ok l l2" using drives_trans [OF d1] drives_tick_emit [of ok, OF assms(1) t] by blast
  show ?thesis
  proof (cases y)
    case (Inl e)
    with assms(2) m t d2 show ?thesis by (simp add: report_update_def and_then_def)
  next
    case (Inr u)
    show ?thesis
    proof (cases "plan cfg now (l_act l2)")
      case (Inl e)
      with Inr assms(2) m t d2 show ?thesis by (simp add: report_update_def and_then_def)
    next
      case p: (Inr sp)
      then obtain s p where pl: "plan cfg now (l_act l2) = Inr (s, p)" by (cases sp) auto
      have l': "l' = emit ([Sensor_event ''ambient'' amb, Sensor_event ''internal'' int_c] @
          (case sg of None \<Rightarrow> [] | Some g \<Rightarrow> [Sensor_event ''gravity'' g]) @
          [State_event amb int_c sg (a_action s) (effort d)]) (emit_control_heartbeat p (l2\<lparr>l_act := s\<rparr>))"
        using Inr assms(2) m t pl by (simp add: report_update_def and_then_def Let_def emit_control_heartbeat_def)
      show ?thesis unfolding l' by (rule drives_trans [OF d2 drives_heartbeat [OF pl told_sensors]])
    qed
  qed
qed

lemma drives_readings:
  "sensor_ambient cfg tc w l = (r, l') \<Longrightarrow> same_view l l' \<and> l_clock l' = l_clock l"
  "sensor_internal cfg tc w l = (r, l') \<Longrightarrow> same_view l l' \<and> l_clock l' = l_clock l"
  "read_gravity cfg tc w l = (rg, l') \<Longrightarrow> same_view l l' \<and> l_clock l' = l_clock l"
  by (auto simp: sensor_ambient_def sensor_internal_def read_gravity_def next_spawn_def same_view_def)

lemma drives_set_effort:
  "drives cfg ok l (l\<lparr>last_diff_centi := k, l_act := set_effort cfg e now (l_act l)\<rparr>)"
  using do_set_effort [of cfg ok "l_act l" "l_chip l" e now]
  by (auto simp: drives_def actuated_def told_right_def told_def set_effort_def Let_def)

lemma drives_apply_readings:
  assumes "ok (w_plugs w)" "apply_readings cfg tc w amb int_c l = (x, l')"
  shows "drives cfg ok l l'"
proof -
  obtain now l1 where m: "monotonic w l = (now, l1)" by fastforce
  define af where "af = ema (ambient_filtered l1) amb (ambient_filter_alpha (control cfg))"
  define f where "f = ema (internal_filtered l1) int_c (internal_filter_alpha (control cfg))"
  obtain ps d where pid: "pi_update cfg f af now (l_pi l1) = (ps, d)" by fastforce
  define l2 where "l2 = l1\<lparr>ambient_filtered := Some af, internal_filtered := Some f, l_pi := ps\<rparr>"
  have d2: "drives cfg ok l l2"
    using m by (intro drives_same) (auto simp: monotonic_def same_view_def l2_def)
  note unf = apply_readings_def m af_def [symmetric] f_def [symmetric] pid l2_def [symmetric] Let_def
  show ?thesis
  proof (cases "py_round (fmul (fsub int_c (setpoint_c cfg)) (Fin 100))")
    case (Inl e)
    with assms(2) d2 show ?thesis by (simp add: unf)
  next
    case (Inr k)
    define l3 where "l3 = l2\<lparr>last_diff_centi := k, l_act := set_effort cfg (effort d) now (l_act l1)\<rparr>"
    have "l_act l1 = l_act l2" by (simp add: l2_def)
    then have d3: "drives cfg ok l l3"
      using drives_trans [OF d2 drives_set_effort] by (simp only: l3_def)
    obtain y l4 where t: "tick_emit cfg w now l3 = (y, l4)" by fastforce
    have d4: "drives cfg ok l l4" using drives_trans [OF d3] drives_tick_emit [of ok, OF assms(1) t] by blast
    have a: "apply_readings cfg tc w amb int_c l = and_then (y, l4) (\<lambda>l4.
        case read_gravity cfg tc w l4 of (Inl e, l5) \<Rightarrow> (Inl e, l5)
        | (Inr sg, l5) \<Rightarrow> report_update cfg w amb int_c sg d l5)"
      by (simp add: unf Inr l3_def [symmetric] t)
    obtain g l5 where g: "read_gravity cfg tc w l4 = (g, l5)" by fastforce
    have d5: "drives cfg ok l l5"
      using drives_trans [OF d4 drives_same] drives_readings(3) [OF g] by blast
    show ?thesis
    proof (cases y)
      case (Inl e)
      with a assms(2) d4 show ?thesis by (simp add: and_then_def)
    next
      case (Inr u)
      with a g assms(2) have "(case g of Inl e \<Rightarrow> (Inl e, l5) | Inr sg \<Rightarrow>
          report_update cfg w amb int_c sg d l5) = (x, l')" by (auto simp: and_then_def split: sum.splits)
      then show ?thesis using d5 drives_trans [OF d5] drives_report_update [of ok, OF assms(1)]
        by (cases g) auto
    qed
  qed
qed

lemma drives_control_update:
  assumes "ok (w_plugs w)" "loop_control_update cfg tc w l = (x, l')"
  shows "drives cfg ok l l'"
proof -
  obtain ra l1 where a: "sensor_ambient cfg tc w l = (ra, l1)" by fastforce
  have d1: "drives cfg ok l l1" using drives_readings(1) [OF a] drives_same by blast
  obtain ri l2 where i: "sensor_internal cfg tc w l1 = (ri, l2)" by fastforce
  have d2: "drives cfg ok l l2" using drives_trans [OF d1] drives_readings(2) [OF i] drives_same by blast
  show ?thesis
    using assms(2) d1 d2 drives_trans [OF d2] drives_apply_readings [of ok, OF assms(1)]
    by (cases ra; cases ri) (auto simp: loop_control_update_def a i)
qed

lemma drives_loop_iter:
  assumes "ok (w_plugs w)" "loop_iter cfg tc w next l = (x, l')"
  shows "drives cfg ok l l'"
proof -
  obtain now l1 where m: "monotonic w l = (now, l1)" by fastforce
  then have d1: "drives cfg ok l l1" by (intro drives_same) (auto simp: monotonic_def same_view_def)
  obtain y l2 where t: "tick_emit cfg w now l1 = (y, l2)" by fastforce
  have d2: "drives cfg ok l l2" using drives_trans [OF d1] drives_tick_emit [of ok, OF assms(1) t] by blast
  obtain z l3 where u: "loop_control_update cfg tc w l2 = (z, l3)" by fastforce
  have d3: "drives cfg ok l l3" using drives_trans [OF d2 drives_control_update [of ok, OF assms(1) u]] .
  obtain n l4 where m4: "monotonic w l3 = (n, l4)" by fastforce
  have d4: "drives cfg ok l l4"
    using m4 by (intro drives_trans [OF d3] drives_same) (auto simp: monotonic_def same_view_def)
  show ?thesis
    using assms(2) d2 d3 d4
    by (cases y; cases z) (auto simp: loop_iter_def m t u m4 split: if_splits sum.splits)
qed

lemma drives_loop_turns:
  "ok (w_plugs w) \<Longrightarrow> loop_turns cfg tc w k nxt l = (x, l') \<Longrightarrow> drives cfg ok l l'"
proof (induction k arbitrary: nxt l)
  case 0
  then show ?case by simp
next
  case (Suc k)
  obtain y l1 where i: "loop_iter cfg tc w nxt l = (y, l1)" by fastforce
  have d: "drives cfg ok l l1" by (rule drives_loop_iter [of ok, OF Suc.prems(1) i])
  show ?case
  proof (cases y)
    case (Inl e)
    with Suc.prems(2) i d show ?thesis by simp
  next
    case (Inr n)
    with Suc.prems(2) i have "loop_turns cfg tc w k n l1 = (x, l')" by simp
    with Suc.IH [OF Suc.prems(1)] d show ?thesis using drives_trans by blast
  qed
qed

lemma drives_finish:
  assumes "ok (w_plugs w)" "finish cfg w (y, l) = (x, l')"
  shows "drives cfg ok l l'"
proof -
  obtain now l1 where m: "monotonic w l = (now, l1)" by fastforce
  then have d1: "drives cfg ok l l1" by (intro drives_same) (auto simp: monotonic_def same_view_def)
  obtain r s c where f: "force_idle cfg (w_plugs w) now ''shutdown'' (l_act l1) (l_chip l1) = (r, s, c)"
    by (cases "force_idle cfg (w_plugs w) now ''shutdown'' (l_act l1) (l_chip l1)") auto
  obtain z l2 where a: "after_actuator (r, s, c) l1 = (z, l2)" by fastforce
  have "drives cfg ok l1 l2"
    using drives_after_actuator [OF do_force_idle [of ok, OF assms(1) f] force_idle_named [OF f] a] by simp
  then have "drives cfg ok l l2" by (rule drives_trans [OF d1])
  with assms(2) show ?thesis by (cases z) (auto simp: finish_def m f a)
qed

lemma start_reaches:
  assumes "ok (w_plugs w)" "start cfg w c = (Inr now, l)"
  shows "act_reach cfg ok (l_act l, l_chip l) \<and> told_right l"
proof -
  obtain t l1 where m: "monotonic w (loop_init c) = (t, l1)" by fastforce
  then have l1: "l_act l1 = actuator_init" by (auto simp: monotonic_def loop_init_def)
  obtain s tr c' where i: "initialize cfg (w_plugs w) t (l_act l1) (l_chip l1) = (Inr (s, tr), c')"
    and l: "l = emit_transition tr (l1\<lparr>l_act := s, l_chip := c'\<rparr>)"
    using assms(2) by (auto simp: start_def m split: prod.splits sum.splits)
  have "act_reach cfg ok (s, c')" using act_start [of ok, OF assms(1)] i l1 by metis
  moreover have "a_action s = IDLE \<and> fst tr = IDLE"
    using i l1 by (auto simp: initialize_def actuator_init_def split: prod.splits switched.splits bool.splits)
  ultimately show ?thesis using l by (cases tr) (simp add: told_right_def)
qed

lemma act_reach_drives:
  assumes "act_reach cfg ok (l_act l, l_chip l)" "drives cfg ok l l'"
  shows "act_reach cfg ok (l_act l', l_chip l')"
proof -
  have "act_reach cfg ok x" if "(act_step cfg ok)\<^sup>*\<^sup>* (l_act l, l_chip l) x" for x
    using that assms(1) by (induction rule: rtranclp_induct) (auto intro: act_next)
  with assms(2) show ?thesis by (simp add: drives_def actuated_def)
qed

text \<open>The start succeeds exactly when both OFF commands do; otherwise it raises, and has only
  switched plugs off.\<close>

lemma switch_IDLE_result:
  assumes "switch cfg env IDLE c = (r, c')"
  shows "r = Switched True \<longleftrightarrow>
    fst (env (length (commands c))) = Done \<and> fst (env (Suc (length (commands c)))) = Done"
  using assms
  by (cases "env (length (commands c))"; cases "fst (env (length (commands c)))";
      cases "env (Suc (length (commands c)))"; cases "fst (env (Suc (length (commands c))))")
    (auto simp: switch_def wanted_nodes_def set_plug_def)

lemma start_fails:
  assumes "start cfg w c = (r, l)"
  shows "((\<exists>now. r = Inr now) \<longleftrightarrow> fst (w_plugs w (length (commands c))) = Done \<and>
      fst (w_plugs w (Suc (length (commands c)))) = Done) \<and>
    (\<forall>e. r = Inl e \<longrightarrow> only_off [] c (l_chip l) \<and> telemetry l = [] \<and>
      e \<in> {RuntimeError ''failed to force actuators to IDLE at startup'', OtherError})"
proof -
  obtain q c1 where sw: "switch cfg (w_plugs w) IDLE c = (q, c1)" by fastforce
  from switch_IDLE [OF sw] switch_IDLE_result [OF sw] sw assms show ?thesis
    by (cases q)
      (auto simp: start_def monotonic_def loop_init_def initialize_def split: bool.splits if_splits)
qed

text \<open>The state before the shutdown of a run that got past its start.\<close>

lemma run_loop_cases:
  assumes "run_loop cfg tc w k c = (x, l)"
  obtains (no_start) e where "start cfg w c = (Inl e, l)" "x = Failed e"
  | (ran) now l0 y l1 where "start cfg w c = (Inr now, l0)" "loop_turns cfg tc w k now l0 = (y, l1)"
      "finish cfg w (y, l1) = (x, l)"
proof -
  obtain r l0 where s: "start cfg w c = (r, l0)" by fastforce
  show ?thesis
  proof (cases r)
    case (Inl e)
    with s assms show ?thesis by (intro no_start) (auto simp: run_loop_def)
  next
    case (Inr now)
    obtain y l1 where t: "loop_turns cfg tc w k now l0 = (y, l1)" by fastforce
    with s Inr assms show ?thesis by (intro ran [of now l0 y l1]) (auto simp: run_loop_def)
  qed
qed

lemma run_loop_reaches:
  assumes "ok (w_plugs w)" "start cfg w c = (Inr now, l0)" "loop_turns cfg tc w k now l0 = (y, l1)"
  shows "act_reach cfg ok (l_act l1, l_chip l1) \<and> told_right l1"
proof -
  have "drives cfg ok l0 l1" by (rule drives_loop_turns [of ok, OF assms(1,3)])
  with start_reaches [of ok, OF assms(1,2)] show ?thesis
    using act_reach_drives unfolding drives_def by blast
qed

section \<open>Sensors that are lost\<close>

text \<open>Every reading fails with an exception the loop catches.\<close>

definition no_reading :: "config \<Rightarrow> tool_config \<Rightarrow> world \<Rightarrow> bool" where
  "no_reading cfg tc w \<longleftrightarrow>
     (\<forall>n ep. \<exists>e. read_temp_centi tc (w_spawn w n) (node_sensor cfg) ep = Inl e \<and> is_caught e)"

lemma no_reading_update:
  assumes "no_reading cfg tc w"
  shows "loop_control_update cfg tc w l = (Inr (), l\<lparr>l_reads := Suc (l_reads l)\<rparr>)"
proof -
  obtain e where "read_temp_centi tc (w_spawn w (l_reads l)) (node_sensor cfg) (ep_ambient cfg) = Inl e"
    "is_caught e" using assms by (auto simp: no_reading_def)
  then show ?thesis
    by (simp add: loop_control_update_def sensor_ambient_def next_spawn_def calibrated_def reading_failed_def)
qed

lemma tick_emit_keeps_effort:
  "tick_emit cfg w now l = (x, l') \<Longrightarrow> last_effort_update (l_act l') = last_effort_update (l_act l)"
  by (cases "tick cfg (w_plugs w) now (l_act l) (l_chip l)")
    (auto simp: tick_emit_def after_actuator_def Let_def dest: tick_keeps_effort
      split: sum.splits option.splits)

lemma command_stale_cong:
  "last_effort_update s = last_effort_update t \<Longrightarrow> command_stale cfg now s = command_stale cfg now t"
  by (simp add: command_stale_def)

text \<open>A world with answered commands, no readings, and clock answers at which the last command is stale.\<close>

definition lost :: "config \<Rightarrow> tool_config \<Rightarrow> world \<Rightarrow> loop_state \<Rightarrow> bool" where
  "lost cfg tc w l \<longleftrightarrow>
     no_reading cfg tc w \<and> (\<forall>n. fst (w_plugs w n) = Done) \<and>
     (\<forall>n. command_stale cfg (w_clock w n) (l_act l))"

lemma lost_clean: "lost cfg tc w l \<Longrightarrow> clean (w_plugs w)"
  by (auto simp: lost_def clean_def clean_outcome_def)

definition quiet :: "config \<Rightarrow> loop_state \<Rightarrow> bool" where
  "quiet cfg l \<longleftrightarrow> a_action (l_act l) = IDLE \<and> both_off cfg (l_chip l)"

lemma lost_iter:
  assumes "lost cfg tc w l" "idle_off cfg (l_act l) (l_chip l)" "loop_iter cfg tc w nxt l = (x, l')"
  shows "last_effort_update (l_act l') = last_effort_update (l_act l) \<and>
    ((\<exists>n. x = Inr n) \<longrightarrow> quiet cfg l')"
proof -
  obtain now l1 where m: "monotonic w l = (now, l1)" by fastforce
  then have l1: "l_act l1 = l_act l" "l_chip l1 = l_chip l" "now = w_clock w (l_clock l)"
    by (auto simp: monotonic_def)
  obtain r s c where t: "tick cfg (w_plugs w) now (l_act l) (l_chip l) = (r, s, c)"
    by (cases "tick cfg (w_plugs w) now (l_act l) (l_chip l)") auto
  obtain y l2 where te: "tick_emit cfg w now l1 = (y, l2)" by fastforce
  then have l2: "l_act l2 = s" "l_chip l2 = c" "(\<exists>e. y = Inl e) \<longleftrightarrow> (\<exists>e. r = Inl e)"
    by (auto simp: tick_emit_def l1(1,2) t after_actuator_def Let_def split: sum.splits option.splits)
  have st: "command_stale cfg now (l_act l)" "fst (switch cfg (w_plugs w) IDLE (l_chip l)) = Switched True"
    using assms(1) l1(3) by (auto simp: lost_def intro: switch_IDLE_done)
  have q: "quiet cfg l2" if "y = Inr u" for u
    using stale_tick_idle [OF st(1) assms(2) st(2) t] l2 that by (auto simp: quiet_def)
  have u: "loop_control_update cfg tc w l2 = (Inr (), l2\<lparr>l_reads := Suc (l_reads l2)\<rparr>)"
    using assms(1) by (intro no_reading_update) (simp add: lost_def)
  have eff: "last_effort_update (l_act l2) = last_effort_update (l_act l)"
    using tick_emit_keeps_effort [OF te] by (simp add: l1)
  show ?thesis
  proof (cases y)
    case (Inl e)
    with assms(3) m te eff show ?thesis by (auto simp: loop_iter_def)
  next
    case (Inr v)
    obtain n l4 where m4: "monotonic w (l2\<lparr>l_reads := Suc (l_reads l2)\<rparr>) = (n, l4)" by fastforce
    then have "l_act l4 = l_act l2 \<and> l_chip l4 = l_chip l2" by (auto simp: monotonic_def)
    then have "l_act l' = l_act l2 \<and> l_chip l' = l_chip l2"
      using assms(3) Inr by (auto simp: loop_iter_def m te u m4 split: if_splits sum.splits)
    with q [OF Inr] eff show ?thesis by (simp add: quiet_def)
  qed
qed

lemma quiet_idle_off: "quiet cfg l \<Longrightarrow> idle_off cfg (l_act l) (l_chip l)"
  by (simp add: quiet_def idle_off_def)

lemma lost_turns:
  assumes "lost cfg tc w l" "idle_off cfg (l_act l) (l_chip l)"
    "loop_turns cfg tc w (Suc k) nxt l = (Interrupted, l')"
  shows "quiet cfg l'"
  using assms
proof (induction k arbitrary: nxt l)
  case 0
  obtain x l1 where i: "loop_iter cfg tc w nxt l = (x, l1)" by fastforce
  with 0(3) have "x = Inr n \<Longrightarrow> l' = l1" and "\<exists>n. x = Inr n" for n
    by (cases x; simp)+
  with lost_iter [OF 0(1,2) i] show ?case by blast
next
  case (Suc k)
  obtain x l1 where i: "loop_iter cfg tc w nxt l = (x, l1)" by fastforce
  then obtain n where n: "x = Inr n" "loop_turns cfg tc w (Suc k) n l1 = (Interrupted, l')"
    using Suc.prems(3) by (cases x) auto
  from lost_iter [OF Suc.prems(1,2) i] n(1)
  have e: "last_effort_update (l_act l1) = last_effort_update (l_act l)" and q: "quiet cfg l1" by auto
  have "lost cfg tc w l1" using Suc.prems(1) command_stale_cong [OF e] by (simp add: lost_def)
  from Suc.IH [OF this quiet_idle_off [OF q] n(2)] show ?case .
qed

text \<open>The shutdown with answered commands.\<close>

lemma finish_quiet:
  assumes "idle_off cfg (l_act l) (l_chip l)" "\<forall>n \<ge> length (commands (l_chip l)). fst (w_plugs w n) = Done"
    "finish cfg w (y, l) = (x, l')"
  shows "quiet cfg l' \<and> x = y"
proof (cases "a_action (l_act l) = IDLE")
  case True
  with assms show ?thesis
    by (auto simp: finish_def monotonic_def force_idle_def after_actuator_def quiet_def idle_off_def)
next
  case False
  obtain c where sw: "switch cfg (w_plugs w) IDLE (l_chip l) = (Switched True, c)"
    using switch_IDLE_done [OF assms(2)] by (metis prod.collapse)
  with False assms(3) switch_IDLE [OF sw] show ?thesis
    by (auto simp: finish_def monotonic_def force_idle_def after_actuator_def quiet_def Let_def)
qed

lemma drives_idle_off:
  assumes "node_plug_heat cfg \<noteq> node_plug_cool cfg" "drives cfg clean l l'" "idle_off cfg (l_act l) (l_chip l)"
  shows "idle_off cfg (l_act l') (l_chip l')"
  using act_inv_clean.steps_keep [of cfg "(l_act l, l_chip l)" "(l_act l', l_chip l')"] assms
  by (simp add: drives_def actuated_def act_inv_clean_def)

lemma act_reach_idle_off:
  "node_plug_heat cfg \<noteq> node_plug_cool cfg \<Longrightarrow> act_reach cfg clean (s, c) \<Longrightarrow> idle_off cfg s c"
  using act_reach_inv_clean [of cfg "(s, c)"] by (simp add: act_inv_clean_def)

section \<open>What an update does\<close>

text \<open>Two states with the same effort, controller and filters.\<close>

definition same_control :: "loop_state \<Rightarrow> loop_state \<Rightarrow> bool" where
  "same_control l l' \<longleftrightarrow>
     last_effort_update (l_act l') = last_effort_update (l_act l) \<and> a_effort (l_act l') = a_effort (l_act l) \<and>
     l_pi l' = l_pi l \<and> ambient_filtered l' = ambient_filtered l \<and>
     internal_filtered l' = internal_filtered l \<and> last_diff_centi l' = last_diff_centi l"

lemma same_control_trans: "same_control l m \<Longrightarrow> same_control m n \<Longrightarrow> same_control l n"
  by (simp add: same_control_def)

lemma emit_other [simp]:
  "l_pi (emit es l) = l_pi l" "ambient_filtered (emit es l) = ambient_filtered l"
  "internal_filtered (emit es l) = internal_filtered l"
  "l_pi (emit_transition tr l) = l_pi l" "ambient_filtered (emit_transition tr l) = ambient_filtered l"
  "internal_filtered (emit_transition tr l) = internal_filtered l"
  "last_diff_centi (emit_transition tr l) = last_diff_centi l"
  by (simp_all add: emit_def emit_transition_def split: prod.split)

lemma tick_emit_same_control: "tick_emit cfg w now l = (x, l') \<Longrightarrow> same_control l l'"
  by (cases "tick cfg (w_plugs w) now (l_act l) (l_chip l)")
    (auto simp: tick_emit_def after_actuator_def Let_def same_control_def dest: tick_keeps_effort
      split: sum.splits option.splits)

lemma report_update_same_control:
  assumes "report_update cfg w amb int_c sg d l = (x, l')"
  shows "same_control l l'"
proof -
  obtain now l1 where m: "monotonic w l = (now, l1)" by fastforce
  then have s1: "same_control l l1" by (auto simp: monotonic_def same_control_def)
  obtain y l2 where t: "tick_emit cfg w now l1 = (y, l2)" by fastforce
  have s2: "same_control l l2" by (rule same_control_trans [OF s1 tick_emit_same_control [OF t]])
  have "same_control l2 l'" if "y = Inr u" for u
  proof (cases "plan cfg now (l_act l2)")
    case (Inl e)
    with that assms m t show ?thesis by (auto simp: report_update_def and_then_def same_control_def)
  next
    case (Inr sp)
    then obtain s p where pl: "plan cfg now (l_act l2) = Inr (s, p)" by (cases sp) auto
    have "last_effort_update s = last_effort_update (l_act l2)" "a_effort s = a_effort (l_act l2)"
      using pl by (auto elim!: plan_frame)
    with that assms m t pl show ?thesis
      by (auto simp: report_update_def and_then_def same_control_def Let_def emit_control_heartbeat_def)
  qed
  moreover have "l' = l2" if "y = Inl e" for e
    using that assms m t by (auto simp: report_update_def and_then_def)
  ultimately show ?thesis using s2 same_control_trans by (cases y) blast+
qed

text \<open>The state in which the update ticks the actuator, and what the rest of the update keeps of it.\<close>

lemma apply_readings_same_control:
  assumes "apply_readings cfg tc w amb int_c l = (x, l')"
    and k: "py_round (fmul (fsub int_c (setpoint_c cfg)) (Fin 100)) = Inr k"
    and af: "af = ema (ambient_filtered l) amb (ambient_filter_alpha (control cfg))"
    and f: "f = ema (internal_filtered l) int_c (internal_filter_alpha (control cfg))"
    and pid: "pi_update cfg f af (w_clock w (l_clock l)) (l_pi l) = (ps, d)"
  shows "same_control
    (l\<lparr>l_clock := Suc (l_clock l), ambient_filtered := Some af, internal_filtered := Some f, l_pi := ps,
       last_diff_centi := k, l_act := set_effort cfg (effort d) (w_clock w (l_clock l)) (l_act l)\<rparr>) l'"
proof -
  let ?now = "w_clock w (l_clock l)"
  define l3 where "l3 = l\<lparr>l_clock := Suc (l_clock l), ambient_filtered := Some af,
    internal_filtered := Some f, l_pi := ps, last_diff_centi := k,
    l_act := set_effort cfg (effort d) ?now (l_act l)\<rparr>"
  obtain y l4 where t: "tick_emit cfg w ?now l3 = (y, l4)" by fastforce
  have s4: "same_control l3 l4" by (rule tick_emit_same_control [OF t])
  have a: "apply_readings cfg tc w amb int_c l = and_then (y, l4) (\<lambda>l4.
      case read_gravity cfg tc w l4 of (Inl e, l5) \<Rightarrow> (Inl e, l5)
      | (Inr sg, l5) \<Rightarrow> report_update cfg w amb int_c sg d l5)"
    unfolding t [symmetric] by (simp add: apply_readings_def monotonic_def Let_def k pid l3_def
        af [symmetric] f [symmetric])
  obtain g l5 where g: "read_gravity cfg tc w l4 = (g, l5)" by fastforce
  then have s5: "same_control l3 l5"
    by (intro same_control_trans [OF s4])
      (auto simp: read_gravity_def next_spawn_def same_control_def)
  have "same_control l3 l'"
    using assms(1) a g s4 s5 same_control_trans [OF s5] report_update_same_control
    by (cases y; cases g) (auto simp: and_then_def)
  then show ?thesis by (simp add: l3_def)
qed

lemma set_effort_time [simp]: "last_effort_update (set_effort cfg e now s) = Some now"
  by (simp add: set_effort_def Let_def)

lemma pi_effort_fixed:
  assumes "pi_update cfg f af now s = (ps, d)"
  shows "a_effort (set_effort cfg (effort d) now a) = effort d"
  using clamp_inside [of "Fin (- 1)" "effort d" "Fin 1"] pi_update_effort [of cfg f af now s] assms
  by (simp add: set_effort_def Let_def)

section \<open>Example worlds\<close>

text \<open>A tool that reports nulls (what the firmware publishes when it has no reading), answered
  commands, and a clock that stands at \<open>t\<close>.\<close>

definition null_world :: "pyfloat \<Rightarrow> world" where
  "null_world t =
     \<lparr>w_clock = (\<lambda>n. t), w_spawn = (\<lambda>n args tmo. Completed 0 (MEASURED_TAG @ '' null'') []),
      w_plugs = all_done\<rparr>"

text \<open>The same with plugs that refuse every command.\<close>

definition dead_plugs :: "pyfloat \<Rightarrow> world" where
  "dead_plugs t = (null_world t)\<lparr>w_plugs := (\<lambda>n. (Failed_no_effect, False))\<rparr>"

definition hot_state :: loop_state where
  "hot_state = (loop_init demo_hot_chip)\<lparr>l_act := demo_heating\<rparr>"

definition started_state :: loop_state where
  "started_state = emit_transition (IDLE, demo_startup_plan)
     ((loop_init demo_idle_chip)\<lparr>l_clock := 1, l_act := demo_started\<rparr>)"

text \<open>A tool that reports the value 1900.\<close>

definition value_world :: "pyfloat \<Rightarrow> world" where
  "value_world t =
     \<lparr>w_clock = (\<lambda>n. t), w_spawn = (\<lambda>n args tmo. Completed 0 ''MeasuredValue: 1900'' []),
      w_plugs = all_done\<rparr>"

lemma value_world_reads: "read_temp_centi demo_tool (w_spawn (value_world t) n) node ep = Inr 1900"
proof -
  have "measured_findall ''MeasuredValue: 1900'' = [''1900'']" by code_simp
  moreover have "int_of_match ''1900'' = Inr 1900" by code_simp
  ultimately show ?thesis
    by (simp add: read_temp_centi_def chip_read_def chip_run_def value_world_def)
qed

lemma value_world_readings:
  "sensor_ambient demo_config demo_tool (value_world t) started_state =
     (Inr (Fin 19), started_state\<lparr>l_reads := 1\<rparr>)"
  "sensor_internal demo_config demo_tool (value_world t) (started_state\<lparr>l_reads := 1\<rparr>) =
     (Inr (Fin 19), started_state\<lparr>l_reads := 2\<rparr>)"
  by (simp_all add: sensor_ambient_def sensor_internal_def next_spawn_def value_world_reads calibrated_def
      float_of_int_def demo_config_def started_state_def emit_transition_def emit_def loop_init_def
      demo_startup_plan_def idle_plan_def numeral_2_eq_2)

text \<open>The example configuration with a NaN gain, and with a NaN set point.\<close>

definition nan_gain :: config where
  "nan_gain = demo_config\<lparr>control := demo_tuning\<lparr>kp := NaN\<rparr>\<rparr>"

definition nan_setpoint :: config where
  "nan_setpoint = demo_config\<lparr>setpoint_c := NaN\<rparr>"

lemma null_world_no_reading: "no_reading cfg demo_tool (null_world t)"
proof -
  have "measured_findall (MEASURED_TAG @ '' null'') = []" using chip_reading_null [of "[]" "[]"] by simp
  then show ?thesis
    by (simp add: no_reading_def read_temp_centi_def null_world_def chip_read_def chip_run_def)
qed

lemma clean_all_done: "clean all_done"
  by (simp add: clean_def clean_outcome_def all_done_def)

lemma demo_heating_reach: "act_reach demo_config clean (demo_heating, demo_hot_chip)"
proof -
  obtain p where t: "tick demo_config all_done (Fin 0) demo_asked demo_idle_chip =
      (Inr (Some (HEAT, p)), demo_heating, demo_hot_chip)" using demo_tick by blast
  show ?thesis
    by (rule act_next [OF demo_asked_reach do_tick [of clean all_done, OF _ t]]) (simp_all add: clean_all_done)
qed

lemma demo_start: "start demo_config (null_world (Fin 0)) demo_chip = (Inr (Fin 0), started_state)"
  by (simp add: start_def monotonic_def null_world_def loop_init_def demo_initialize started_state_def)

lemma demo_nodes: "node_plug_heat demo_config \<noteq> node_plug_cool demo_config"
  by (simp add: demo_config_def)

section \<open>Properties\<close>

text \<open>C2. The whole program is a run of the actuator, whatever the tool, the clock and the plugs answer
  and however many turns the loop makes. When an OFF command of the start does not succeed, the program
  ends there with the exception of \<open>initialize\<close>: it has told the telemetry nothing and has at most
  switched plugs off, so what was on before the program may stay on. Otherwise the actuator and the
  plugs after the shutdown are reachable by the actuator's own steps, and with two different plugs heater
  and cooler are not on together.\<close>

theorem run_refines_actuator:
  assumes "ok (w_plugs w)" "run_loop cfg tc w k c = (x, l)"
  shows "if fst (w_plugs w (length (commands c))) = Done \<and> fst (w_plugs w (Suc (length (commands c)))) = Done
    then act_reach cfg ok (l_act l, l_chip l) \<and>
      \<not> (node_plug_heat cfg \<noteq> node_plug_cool cfg \<and>
         plug (l_chip l) (node_plug_heat cfg) \<and> plug (l_chip l) (node_plug_cool cfg))
    else x \<in> {Failed (RuntimeError ''failed to force actuators to IDLE at startup''), Failed OtherError} \<and>
      only_off [] c (l_chip l) \<and> telemetry l = []"
  using assms(2)
proof (cases rule: run_loop_cases)
  case (no_start e)
  with start_fails [OF no_start(1)] show ?thesis by auto
next
  case (ran now l0 y l1)
  have r: "act_reach cfg ok (l_act l, l_chip l)"
    using run_loop_reaches [of ok, OF assms(1) ran(1,2)] drives_finish [of ok, OF assms(1) ran(3)]
      act_reach_drives by blast
  with act_reach_inv [OF r] start_fails [OF ran(1)] show ?thesis
    by (auto simp: act_inv_def plugs_ok_def interlocked_def)
qed

theorem run_refines_actuator_witness:
  "(\<exists>x l. run_loop demo_config demo_tool (null_world (Fin 0)) 5 demo_chip = (x, l) \<and>
      act_reach demo_config clean (l_act l, l_chip l)) \<and>
   (\<exists>x l. run_loop demo_config demo_tool (dead_plugs (Fin 0)) 5 demo_hot_chip = (x, l) \<and>
      x \<noteq> Interrupted \<and> telemetry l = [])"
proof
  obtain x l where r: "run_loop demo_config demo_tool (null_world (Fin 0)) 5 demo_chip = (x, l)" by fastforce
  have "clean (w_plugs (null_world (Fin 0)))" by (simp add: null_world_def clean_all_done)
  from run_refines_actuator [of clean, OF this r] r
  show "\<exists>x l. run_loop demo_config demo_tool (null_world (Fin 0)) 5 demo_chip = (x, l) \<and>
      act_reach demo_config clean (l_act l, l_chip l)" by (simp add: null_world_def all_done_def)
  obtain y m where f: "run_loop demo_config demo_tool (dead_plugs (Fin 0)) 5 demo_hot_chip = (y, m)" by fastforce
  from run_refines_actuator [of "\<lambda>e. True", OF _ f] f
  show "\<exists>x l. run_loop demo_config demo_tool (dead_plugs (Fin 0)) 5 demo_hot_chip = (x, l) \<and>
      x \<noteq> Interrupted \<and> telemetry l = []" by (auto simp: dead_plugs_def)
qed

text \<open>The telemetry never misreports the actuator: after any number of turns, and after the shutdown
  too, the last control event the emitter was given names the action the actuator is in.\<close>

theorem telemetry_tells_action:
  assumes "start cfg w c = (Inr now, l0)"
  shows "told (snd (loop_turns cfg tc w k now l0)) = Some (a_action (l_act (snd (loop_turns cfg tc w k now l0)))) \<and>
    told (snd (run_loop cfg tc w k c)) = Some (a_action (l_act (snd (run_loop cfg tc w k c))))"
proof -
  obtain y l1 where t: "loop_turns cfg tc w k now l0 = (y, l1)" by fastforce
  obtain x l where f: "finish cfg w (y, l1) = (x, l)" by fastforce
  have "told_right l1" using run_loop_reaches [of "\<lambda>env. True", OF _ assms t] by simp
  moreover have "told_right l"
    using drives_finish [of "\<lambda>env. True", OF _ f] calculation by (simp add: drives_def)
  moreover have "snd (run_loop cfg tc w k c) = l" by (simp add: run_loop_def assms t f)
  ultimately show ?thesis by (simp add: told_right_def t)
qed

theorem telemetry_tells_action_witness:
  "told (snd (run_loop demo_config demo_tool (null_world (Fin 0)) 2 demo_chip)) =
     Some (a_action (l_act (snd (run_loop demo_config demo_tool (null_world (Fin 0)) 2 demo_chip))))"
  using telemetry_tells_action [OF demo_start] by blast

text \<open>C12. The shutdown switches the plugs off. When the loop is over, by an interrupt while it sleeps or
  by any exception, and the commands of the shutdown are answered, the run ends idle with both plugs
  off, and ends the way the loop did. This needs that the loop was left heating or cooling, or that no
  failed command of the run took effect: after a lost ON the action is idle and the shutdown sends
  nothing. An interrupt inside a command counts as an exception of that command; one between two
  statements of a turn is not modelled.\<close>

theorem shutdown_switches_off:
  assumes "node_plug_heat cfg \<noteq> node_plug_cool cfg"
    and "start cfg w c = (Inr now, l0)" "loop_turns cfg tc w k now l0 = (y, l1)"
    and "clean (w_plugs w) \<or> a_action (l_act l1) \<noteq> IDLE"
    and "\<forall>n \<ge> length (commands (l_chip l1)). fst (w_plugs w n) = Done"
  shows "fst (run_loop cfg tc w k c) = y \<and> quiet cfg (snd (run_loop cfg tc w k c))"
proof -
  obtain x l where f: "finish cfg w (y, l1) = (x, l)" by fastforce
  have "idle_off cfg (l_act l1) (l_chip l1)"
  proof (cases "clean (w_plugs w)")
    case True
    from run_loop_reaches [of clean, OF this assms(2,3)] show ?thesis
      using act_reach_idle_off [OF assms(1)] by blast
  next
    case False
    with assms(4) show ?thesis by (simp add: idle_off_def)
  qed
  from finish_quiet [OF this assms(5) f] show ?thesis by (simp add: run_loop_def assms(2,3) f)
qed

theorem shutdown_switches_off_witness:
  "quiet demo_config (snd (run_loop demo_config demo_tool (null_world (Fin 0)) 3 demo_chip))"
proof -
  obtain y l1 where t: "loop_turns demo_config demo_tool (null_world (Fin 0)) 3 (Fin 0) started_state = (y, l1)"
    by fastforce
  show ?thesis
    using shutdown_switches_off [OF demo_nodes demo_start t]
    by (simp add: null_world_def clean_all_done all_done_def)
qed

text \<open>C6. Losing the sensors switches everything off. From a reachable state where the action is to heat
  or cool, or where no failed command took effect so far, suppose that from here on all commands are
  answered, all readings fail (a null attribute, a tool that times out or returns an error) and every
  answer of the clock is past the time limit of the last effort. Then after every later turn the
  actuator is idle with both plugs off, and a loop that an exception ends leaves them off after its
  shutdown. In a state that is idle after a lost ON nothing is sent, and the plug stays on.\<close>

theorem lost_sensors_switch_off:
  assumes "node_plug_heat cfg \<noteq> node_plug_cool cfg" "act_reach cfg ok (l_act l, l_chip l)"
    and "(\<forall>e. ok e \<longrightarrow> clean e) \<or> a_action (l_act l) \<noteq> IDLE"
    and "lost cfg tc w l" "loop_turns cfg tc w (Suc k) nxt l = (y, l')"
  shows "(y = Interrupted \<longrightarrow> quiet cfg l') \<and> quiet cfg (snd (finish cfg w (y, l')))"
proof
  have off: "idle_off cfg (l_act l) (l_chip l)"
    using assms(3) act_reach_idle_off [OF assms(1) act_reach_mono [OF assms(2)]]
    by (auto simp: idle_off_def)
  show "y = Interrupted \<longrightarrow> quiet cfg l'" using lost_turns [OF assms(4) off] assms(5) by blast
  obtain x m where f: "finish cfg w (y, l') = (x, m)" by fastforce
  have "drives cfg clean l l'" by (rule drives_loop_turns [of clean, OF lost_clean [OF assms(4)] assms(5)])
  from finish_quiet [OF drives_idle_off [OF assms(1) this off] _ f]
  show "quiet cfg (snd (finish cfg w (y, l')))" using assms(4) by (simp add: f lost_def)
qed

theorem lost_sensors_switch_off_witness:
  "plug (l_chip hot_state) 11 \<and>
   quiet demo_config (snd (finish demo_config (null_world (Fin 7200))
     (loop_turns demo_config demo_tool (null_world (Fin 7200)) 1 (Fin 0) hot_state)))"
proof
  show "plug (l_chip hot_state) 11" by (simp add: hot_state_def loop_init_def demo_hot_chip_def)
  have r: "act_reach demo_config clean (l_act hot_state, l_chip hot_state)"
    using demo_heating_reach by (simp add: hot_state_def loop_init_def)
  have st: "lost demo_config demo_tool (null_world (Fin 7200)) hot_state"
    unfolding lost_def
    using null_world_no_reading [of demo_config "Fin 7200"]
    by (simp add: null_world_def all_done_def hot_state_def command_stale_def demo_heating_def act_run_simps)
  obtain y l' where t: "loop_turns demo_config demo_tool (null_world (Fin 7200)) (Suc 0) (Fin 0) hot_state = (y, l')"
    by fastforce
  from lost_sensors_switch_off [OF demo_nodes r _ st t]
  show "quiet demo_config (snd (finish demo_config (null_world (Fin 7200))
     (loop_turns demo_config demo_tool (null_world (Fin 7200)) 1 (Fin 0) hot_state)))"
    unfolding One_nat_def t by blast
qed

text \<open>C23. What one update with readings does, whatever happens after it: the filters take the samples,
  the effort is the controller's for the filtered values, its time is the clock's after the readings,
  and the effort is in range; the actuator's ticks and reports of the same update change none of it.\<close>

theorem update_sets_effort:
  assumes "sensor_ambient cfg tc w l = (Inr a, l1)" "sensor_internal cfg tc w l1 = (Inr x, l2)"
    and "py_round (fmul (fsub x (setpoint_c cfg)) (Fin 100)) = Inr k"
    and "loop_control_update cfg tc w l = (r, l')"
    and "pi_update cfg (ema (internal_filtered l) x (internal_filter_alpha (control cfg)))
      (ema (ambient_filtered l) a (ambient_filter_alpha (control cfg))) (w_clock w (l_clock l)) (l_pi l) = (ps, d)"
  shows "a_effort (l_act l') = effort d \<and>
    last_effort_update (l_act l') = Some (w_clock w (l_clock l)) \<and> l_pi l' = ps \<and>
    ambient_filtered l' = Some (ema (ambient_filtered l) a (ambient_filter_alpha (control cfg))) \<and>
    internal_filtered l' = Some (ema (internal_filtered l) x (internal_filter_alpha (control cfg))) \<and>
    last_diff_centi l' = k \<and> fle (Fin (- 1)) (effort d) \<and> fle (effort d) (Fin 1)"
proof -
  have l: "l_clock l2 = l_clock l" "l_pi l2 = l_pi l" "ambient_filtered l2 = ambient_filtered l"
    "internal_filtered l2 = internal_filtered l"
    using assms(1,2) by (auto simp: sensor_ambient_def sensor_internal_def next_spawn_def)
  have "apply_readings cfg tc w a x l2 = (r, l')" using assms(1,2,4) by (simp add: loop_control_update_def)
  from apply_readings_same_control [OF this assms(3) refl refl, unfolded l, OF assms(5)]
  show ?thesis
    using pi_effort_fixed [OF assms(5)] pi_update_effort [of cfg _ _ "w_clock w (l_clock l)" "l_pi l"] assms(5)
    by (simp add: same_control_def) (metis set_effort_time snd_conv)
qed

theorem update_sets_effort_witness:
  "\<exists>r l'. loop_control_update demo_config demo_tool (value_world (Fin 60)) started_state = (r, l') \<and>
     last_effort_update (l_act l') = Some (Fin 60) \<and> internal_filtered l' = Some (Fin 19) \<and>
     fle (a_effort (l_act l')) (Fin 1)"
proof -
  let ?w = "value_world (Fin 60)"
  obtain r l' where u: "loop_control_update demo_config demo_tool ?w started_state = (r, l')" by fastforce
  obtain ps d where pid: "pi_update demo_config (ema (internal_filtered started_state) (Fin 19)
      (internal_filter_alpha (control demo_config))) (ema (ambient_filtered started_state) (Fin 19)
      (ambient_filter_alpha (control demo_config))) (w_clock ?w (l_clock started_state)) (l_pi started_state) =
      (ps, d)" by fastforce
  have k: "py_round (fmul (fsub (Fin 19) (setpoint_c demo_config)) (Fin 100)) = Inr (- 100)"
    using rne_of_int [of "- 100"] by (simp add: demo_config_def fsub_def)
  from update_sets_effort [OF value_world_readings k u pid]
  show ?thesis
    using u by (auto simp: ema_def started_state_def emit_transition_def emit_def loop_init_def value_world_def)
qed

text \<open>A failed reading keeps everything: the update ends there, quietly for the exceptions of the
  tool and with the exception for any other; the actuator, the plugs, the effort, the controller, the
  filters and the telemetry are as before, whatever time the readings took (no tick is made and the
  clock is not even asked between the tick that starts the turn and the end of the readings).\<close>

theorem failed_reading_keeps_state:
  assumes "sensor_ambient cfg tc w l = (Inl e, l1) \<or>
    sensor_ambient cfg tc w l = (Inr a, l0) \<and> sensor_internal cfg tc w l0 = (Inl e, l1)"
  shows "loop_control_update cfg tc w l = (if is_caught e then Inr () else Inl e, l1) \<and>
    l1 = l\<lparr>l_reads := l_reads l1\<rparr>"
  using assms
  by (auto simp: loop_control_update_def reading_failed_def sensor_ambient_def sensor_internal_def next_spawn_def)

theorem failed_reading_keeps_state_witness:
  "loop_control_update demo_config demo_tool (null_world (Fin 60)) hot_state =
     (Inr (), hot_state\<lparr>l_reads := 1\<rparr>)"
proof -
  obtain e where r: "read_temp_centi demo_tool (w_spawn (null_world (Fin 60)) 0)
      (node_sensor demo_config) (ep_ambient demo_config) = Inl e" and c: "is_caught e"
    using null_world_no_reading [of demo_config "Fin 60"] unfolding no_reading_def by blast
  have "l_reads hot_state = 0" by (simp add: hot_state_def loop_init_def)
  then have e: "sensor_ambient demo_config demo_tool (null_world (Fin 60)) hot_state =
      (Inl e, hot_state\<lparr>l_reads := 1\<rparr>)"
    by (simp add: sensor_ambient_def next_spawn_def r calibrated_def)
  from failed_reading_keeps_state [OF disjI1, OF e] c show ?thesis by simp
qed

text \<open>The configuration checks let a NaN through, since every comparison with it is false. A NaN
  gain then asks for full heating at every update; a NaN set point ends the loop at the first reading
  with a \<open>ValueError\<close>, which \<open>main\<close> does not catch.\<close>

theorem nan_settings_pass_checks:
  "load_checks nan_gain = Inr () \<and> load_checks nan_setpoint = Inr () \<and>
   (\<forall>x a now s. effort (snd (pi_update nan_gain x a now s)) = Fin 1) \<and>
   (\<forall>tc w a x l. fst (apply_readings nan_setpoint tc w a x l) =
      Inl (ValueError ''cannot convert float NaN to integer''))"
proof (intro conjI allI)
  have n: "fadd y NaN = NaN" "fadd NaN y = NaN" "fmul y NaN = NaN" "fmul NaN y = NaN" for y
    by (cases y; simp)+
  show "load_checks nan_gain = Inr ()"
    by (simp add: nan_gain_def load_checks_def validate_def positive_endpoint_def raise_if_def
        demo_config_def demo_tuning_def fle_def)
  show "load_checks nan_setpoint = Inr ()"
    by (simp add: nan_setpoint_def load_checks_def validate_def positive_endpoint_def raise_if_def
        demo_config_def demo_tuning_def fle_def)
  fix x a now s
  have "raw_effort nan_gain x a i = NaN" for i by (simp add: raw_effort_def nan_gain_def n)
  then show "effort (snd (pi_update nan_gain x a now s)) = Fin 1"
    by (simp add: pi_update_eq(2) clamp_def clamp_NaN)
next
  fix tc w a x l
  have "fmul (fsub x (setpoint_c nan_setpoint)) (Fin 100) = NaN"
    by (cases x) (simp_all add: nan_setpoint_def fsub_def)
  then show "fst (apply_readings nan_setpoint tc w a x l) =
      Inl (ValueError ''cannot convert float NaN to integer'')"
    by (simp add: apply_readings_def Let_def split: prod.split)
qed

end
