(* ===== verification/Archiver.thy ===== *)
theory Archiver
  imports Pyfloat Pystring
begin

text \<open>
  The telemetry archiver, \<^verbatim>\<open>host/telemetry/consumer/main.go\<close>: it drains two Redis streams into two
  tables of the schema \<^verbatim>\<open>host/telemetry/sql/schema.sql\<close>. Redis, PostgreSQL and the wall clock are
  parameters: a record of functions on an outside state of any type, with the laws the code relies on
  as the predicate \<open>service_laws\<close> over observations of that state. Strings are bytes; times are
  nanoseconds; \<open>strconv.ParseFloat\<close> is a parameter of which only success and value matter. The lemmas
  show that no delivered entry is lost, that the tables hold exactly what the entries say, that a
  replay changes nothing, and what a row the database refuses does to the loop.
\<close>

section \<open>Fields and numbers\<close>

definition sensorStream :: string where
  "sensorStream = ''telemetry:sensor''"

definition controlStream :: string where
  "controlStream = ''telemetry:control''"

text \<open>The values of a message; the client library gives strings.\<close>

type_synonym fields = "string \<rightharpoonup> string"

definition env_or :: "(string \<Rightarrow> string) \<Rightarrow> string \<Rightarrow> string \<Rightarrow> string" where
  "env_or getenv k def = (if getenv k \<noteq> [] then getenv k else def)"

definition field :: "fields \<Rightarrow> string \<Rightarrow> string" where
  "field v k = (case v k of Some s \<Rightarrow> s | None \<Rightarrow> [])"

datatype num_error = ErrSyntax | ErrRange

text \<open>\<open>strconv.ParseUint\<close> and \<open>ParseInt\<close> in base 10 with 64 bits; a range error comes with the nearest
  value, at the first digit that overflows. \<open>Atoi\<close> is the same on a 64-bit platform.\<close>

fun parse_digits :: "string \<Rightarrow> nat \<Rightarrow> nat \<times> num_error option" where
  "parse_digits [] n = (n, None)"
| "parse_digits (c # cs) n =
     (if \<not> is_digit c then (0, Some ErrSyntax)
      else if 2 ^ 64 \<le> 10 * n + digit_val c then (2 ^ 64 - 1, Some ErrRange)
      else parse_digits cs (10 * n + digit_val c))"

definition parse_uint :: "string \<Rightarrow> nat \<times> num_error option" where
  "parse_uint s = (if s = [] then (0, Some ErrSyntax) else parse_digits s 0)"

definition parse_int :: "string \<Rightarrow> int \<times> num_error option" where
  "parse_int s =
     (if s = [] then (0, Some ErrSyntax)
      else let neg = (hd s = CHR ''-'');
               s' = (if neg \<or> hd s = CHR ''+'' then tl s else s);
               (un, err) = parse_uint s'
           in if err = Some ErrSyntax then (0, err)
              else if \<not> neg \<and> 2 ^ 63 \<le> un then (2 ^ 63 - 1, Some ErrRange)
              else if neg \<and> 2 ^ 63 < un then (- (2 ^ 63), Some ErrRange)
              else (if neg then - int un else int un, None))"

definition unix_milli :: "int \<Rightarrow> int" where
  "unix_milli ms = ms * 1000000"

section \<open>Rows and services\<close>

text \<open>The rows of the two tables, with the columns of the insert statements. The JSON document of a
  control event is kept as the object it is the text of.\<close>

datatype row =
    Sensor_data int int string pyfloat string
  | Control_events int string "int option" fields string

text \<open>The unique key of a row, with its table: \<open>(event_id, ts)\<close>.\<close>

fun row_key :: "row \<Rightarrow> string \<times> string \<times> int" where
  "row_key (Sensor_data t node metric x i) = (sensorStream, i, t)"
| "row_key (Control_events t act diff detail i) = (controlStream, i, t)"

type_synonym tables = "string \<times> string \<times> int \<rightharpoonup> row"

text \<open>\<open>ON CONFLICT (event_id, ts) DO NOTHING\<close>.\<close>

definition insert_row :: "row \<Rightarrow> tables \<Rightarrow> tables" where
  "insert_row r tabs = (if tabs (row_key r) = None then tabs(row_key r \<mapsto> r) else tabs)"

text \<open>The interface of a table with a unique key whose insert leaves existing rows alone.\<close>

locale keyed_table =
  fixes key :: "'r \<Rightarrow> 'k" and ins :: "'r \<Rightarrow> ('k \<rightharpoonup> 'r) \<Rightarrow> ('k \<rightharpoonup> 'r)"
  assumes ins_old: "tb (key r) \<noteq> None \<Longrightarrow> ins r tb = tb"
    and ins_new: "tb (key r) = None \<Longrightarrow> ins r tb = tb(key r \<mapsto> r)"
begin

lemma grows: "tb \<subseteq>\<^sub>m ins r tb"
  using ins_old [of tb r] ins_new [of tb r] by (cases "tb (key r) = None") (auto simp: map_le_def)

lemma present: "ins r tb (key r) \<noteq> None"
  using ins_old [of tb r] ins_new [of tb r] by (cases "tb (key r) = None") auto

lemma again: "tb (key r) \<noteq> None \<Longrightarrow> ins r (ins r tb) = ins r tb"
  by (simp add: ins_old)

lemma only_new: "ins r tb k = Some x \<Longrightarrow> tb k = Some x \<or> k = key r \<and> x = r"
  using ins_old [of tb r] ins_new [of tb r] by (cases "tb (key r) = None") (auto split: if_splits)

lemma kept: "tb k \<noteq> None \<Longrightarrow> fold ins rs tb k = tb k"
proof (induction rs arbitrary: tb)
  case Nil
  then show ?case by simp
next
  case (Cons r rs)
  have "ins r tb k = tb k" using grows [of tb r] Cons.prems by (auto simp: map_le_def dom_def)
  with Cons show ?case by simp
qed

lemma stored: "r \<in> set rs \<Longrightarrow> fold ins rs tb (key r) \<noteq> None"
proof (induction rs arbitrary: tb)
  case Nil
  then show ?case by simp
next
  case (Cons r' rs)
  then show ?case using present [of r tb] kept [of "ins r tb" "key r" rs] by (cases "r = r'") auto
qed

text \<open>A batch that is replayed changes nothing.\<close>

lemma replay: "fold ins rs (fold ins rs tb) = fold ins rs tb"
proof -
  have "fold ins qs (fold ins rs tb) = fold ins rs tb" if "set qs \<subseteq> set rs" for qs
    using that
  proof (induction qs)
    case Nil
    then show ?case by simp
  next
    case (Cons q qs)
    with stored [of q rs tb] ins_old [of "fold ins rs tb" q] show ?case by simp
  qed
  then show ?thesis by simp
qed

end

interpretation archive_table: keyed_table row_key insert_row
  by unfold_locales (auto simp: insert_row_def)

text \<open>The columns \<open>node_id\<close> and \<open>diff_centi\<close> are 32-bit integers. The example services below refuse a row
  for these; the properties do not use it and allow any reason the database has.\<close>

definition int4 :: "int \<Rightarrow> bool" where
  "int4 k \<longleftrightarrow> - (2 ^ 31) \<le> k \<and> k < 2 ^ 31"

fun row_fits :: "row \<Rightarrow> bool" where
  "row_fits (Sensor_data t node metric x i) = int4 node"
| "row_fits (Control_events t act diff detail i) = (case diff of None \<Rightarrow> True | Some d \<Rightarrow> int4 d)"

record message =
  m_id :: string
  m_values :: fields

record xstream =
  s_name :: string
  s_messages :: "message list"

datatype read_reply = Read_Nil | Read_Err string | Read_Ok "xstream list"

text \<open>The outside: a read of the group for a consumer and a cursor, an acknowledgement, an insert, each
  with its error; the time; and the number parser.\<close>

record 'w services =
  x_read_group :: "string \<Rightarrow> string \<Rightarrow> 'w \<Rightarrow> read_reply \<times> 'w"
  x_ack :: "string \<Rightarrow> string \<Rightarrow> 'w \<Rightarrow> string option \<times> 'w"
  exec_insert :: "row \<Rightarrow> 'w \<Rightarrow> string option \<times> 'w"
  time_now :: "'w \<Rightarrow> int \<times> 'w"
  parse_float :: "string \<Rightarrow> pyfloat option"

section \<open>The archiver\<close>

definition ts :: "'w services \<Rightarrow> string \<Rightarrow> fields \<Rightarrow> 'w \<Rightarrow> int \<times> 'w" where
  "ts svc i v w =
     (case parse_int (field v ''ts_ms'') of
        (ms, None) \<Rightarrow> (unix_milli ms, w)
      | _ \<Rightarrow>
          if CHR ''-'' \<in> set i \<and> before (CHR ''-'') i \<noteq> []
          then (case parse_int (before (CHR ''-'') i) of
                  (ms, None) \<Rightarrow> (unix_milli ms, w)
                | _ \<Rightarrow> time_now svc w)
          else time_now svc w)"

definition insert_entry ::
  "'w services \<Rightarrow> string \<Rightarrow> string \<Rightarrow> fields \<Rightarrow> 'w \<Rightarrow> string option \<times> 'w" where
  "insert_entry svc stream i v w =
     (if stream = sensorStream
      then (case parse_float svc (field v ''value'') of
              None \<Rightarrow> (None, w)
            | Some value \<Rightarrow>
                let node = fst (parse_int (field v ''node''));
                    (t, w1) = ts svc i v w
                in exec_insert svc (Sensor_data t node (field v ''metric'') value i) w1)
      else if stream = controlStream
      then (if field v ''action'' = [] then (None, w)
            else let diff = (case parse_int (field v ''diff_centi'') of (d, None) \<Rightarrow> Some d | _ \<Rightarrow> None);
                     (t, w1) = ts svc i v w
                 in exec_insert svc (Control_events t (field v ''action'') diff v i) w1)
      else (None, w))"

text \<open>The two loops of \<open>step\<close>, over the messages of a stream and over the streams: the count so far, the
  first error, and the state.\<close>

fun step_messages ::
  "'w services \<Rightarrow> string \<Rightarrow> message list \<Rightarrow> nat \<Rightarrow> 'w \<Rightarrow> nat \<times> string option \<times> 'w" where
  "step_messages svc stream [] n w = (n, None, w)"
| "step_messages svc stream (m # ms) n w =
     (case insert_entry svc stream (m_id m) (m_values m) w of
        (Some e, w1) \<Rightarrow> (n, Some e, w1)
      | (None, w1) \<Rightarrow>
          (case x_ack svc stream (m_id m) w1 of
             (Some e, w2) \<Rightarrow> (n, Some e, w2)
           | (None, w2) \<Rightarrow> step_messages svc stream ms (Suc n) w2))"

fun step_streams :: "'w services \<Rightarrow> xstream list \<Rightarrow> nat \<Rightarrow> 'w \<Rightarrow> nat \<times> string option \<times> 'w" where
  "step_streams svc [] n w = (n, None, w)"
| "step_streams svc (s # ss) n w =
     (case step_messages svc (s_name s) (s_messages s) n w of
        (n1, Some e, w1) \<Rightarrow> (n1, Some e, w1)
      | (n1, None, w1) \<Rightarrow> step_streams svc ss n1 w1)"

definition archiver_step :: "'w services \<Rightarrow> string \<Rightarrow> string \<Rightarrow> 'w \<Rightarrow> nat \<times> string option \<times> 'w" where
  "archiver_step svc consumer cursor w =
     (case x_read_group svc consumer cursor w of
        (Read_Nil, w1) \<Rightarrow> (0, None, w1)
      | (Read_Err e, w1) \<Rightarrow> (0, Some e, w1)
      | (Read_Ok res, w1) \<Rightarrow> step_streams svc res 0 w1)"

definition next_cursor :: "nat \<Rightarrow> string option \<Rightarrow> string \<Rightarrow> string" where
  "next_cursor n err cursor =
     (if err \<noteq> None then ''0'' else if n = 0 \<and> cursor = ''0'' then ''>'' else cursor)"

text \<open>The loop of \<open>main\<close> for \<open>k\<close> turns, after which the context is cancelled.\<close>

primrec archiver_loop :: "'w services \<Rightarrow> string \<Rightarrow> nat \<Rightarrow> string \<Rightarrow> 'w \<Rightarrow> string \<times> 'w" where
  "archiver_loop svc consumer 0 cursor w = (cursor, w)"
| "archiver_loop svc consumer (Suc k) cursor w =
     (case archiver_step svc consumer cursor w of
        (n, err, w1) \<Rightarrow> archiver_loop svc consumer k (next_cursor n err cursor) w1)"

text \<open>\<open>strings.Contains\<close>, and the creation of the groups before the loop: an error other than the one
  for an existing group is fatal.\<close>

primrec contains :: "string \<Rightarrow> string \<Rightarrow> bool" where
  "contains pat [] \<longleftrightarrow> pat = []"
| "contains pat (c # cs) \<longleftrightarrow> take (length pat) (c # cs) = pat \<or> contains pat cs"

primrec create_groups :: "(string \<Rightarrow> 'w \<Rightarrow> string option \<times> 'w) \<Rightarrow> string list \<Rightarrow> 'w \<Rightarrow> string option \<times> 'w" where
  "create_groups create [] w = (None, w)"
| "create_groups create (s # ss) w =
     (case create s w of
        (err, w1) \<Rightarrow>
          (case err of
             None \<Rightarrow> create_groups create ss w1
           | Some e \<Rightarrow> if contains ''BUSYGROUP'' e then create_groups create ss w1 else (Some e, w1)))"

definition consumer_name :: "string \<Rightarrow> string" where
  "consumer_name hostname = (if hostname = [] then ''archiver-1'' else hostname)"

text \<open>\<open>main\<close>: the fatal error, or the cursor and the state when the context is cancelled.\<close>

definition archiver_main ::
  "'w services \<Rightarrow> (string \<Rightarrow> 'w \<Rightarrow> string option \<times> 'w) \<Rightarrow> string \<Rightarrow> nat \<Rightarrow> 'w \<Rightarrow> (string + string) \<times> 'w" where
  "archiver_main svc create hostname k w =
     (case create_groups create [sensorStream, controlStream] w of
        (Some e, w1) \<Rightarrow> (Inl e, w1)
      | (None, w1) \<Rightarrow>
          (case archiver_loop svc (consumer_name hostname) k ''0'' w1 of (c, w2) \<Rightarrow> (Inr c, w2)))"

section \<open>The laws of the services\<close>

text \<open>What can be observed of the outside: for each consumer of the group the entries delivered to it and
  not acknowledged, all entries delivered so far, and the tables.\<close>

record 'w view =
  pend :: "'w \<Rightarrow> string \<Rightarrow> (string \<times> string) set"
  ever :: "'w \<Rightarrow> (string \<times> string) set"
  tabs :: "'w \<Rightarrow> tables"

definition same_world :: "'w view \<Rightarrow> 'w \<Rightarrow> 'w \<Rightarrow> bool" where
  "same_world vw w w' \<longleftrightarrow> pend vw w' = pend vw w \<and> ever vw w' = ever vw w \<and> tabs vw w' = tabs vw w"

definition reply_keys :: "xstream list \<Rightarrow> (string \<times> string) set" where
  "reply_keys res = (\<Union>s \<in> set res. (\<lambda>m. (s_name s, m_id m)) ` set (s_messages s))"

text \<open>A message carries what its entry contains; an entry the stream has trimmed comes back empty.\<close>

definition good_message :: "(string \<Rightarrow> string \<Rightarrow> fields) \<Rightarrow> (string \<Rightarrow> string \<Rightarrow> bool) \<Rightarrow> string \<Rightarrow> message \<Rightarrow> bool" where
  "good_message content trimmed s m \<longleftrightarrow>
     m_values m = content s (m_id m) \<or> trimmed s (m_id m) \<and> m_values m = Map.empty"

definition good_reply :: "(string \<Rightarrow> string \<Rightarrow> fields) \<Rightarrow> (string \<Rightarrow> string \<Rightarrow> bool) \<Rightarrow> xstream list \<Rightarrow> bool" where
  "good_reply content trimmed res \<longleftrightarrow>
     (\<forall>s \<in> set res. (s_name s = sensorStream \<or> s_name s = controlStream) \<and>
        (\<forall>m \<in> set (s_messages s). good_message content trimmed (s_name s) m))"

text \<open>Reading the history gives entries that are pending for the consumer that asks, and none only where
  none is pending for it. Entries of other consumers are never in it.\<close>

definition history_law where
  "history_law svc vw content trimmed \<longleftrightarrow>
     (\<forall>c w r w'. x_read_group svc c ''0'' w = (r, w') \<longrightarrow>
        same_world vw w w' \<and> r \<noteq> Read_Nil \<and>
        (\<forall>res. r = Read_Ok res \<longrightarrow>
           good_reply content trimmed res \<and> reply_keys res \<subseteq> pend vw w c \<and>
           (reply_keys res = {} \<longrightarrow> pend vw w c = {})))"

text \<open>Reading new entries, which no consumer has been given before, makes them pending for the consumer
  that asks; a failed read may have done so too.\<close>

definition live_law where
  "live_law svc vw content trimmed \<longleftrightarrow>
     (\<forall>c w r w'. x_read_group svc c ''>'' w = (r, w') \<longrightarrow>
        (\<exists>new. pend vw w' = (pend vw w)(c := pend vw w c \<union> new) \<and> new \<inter> ever vw w = {} \<and>
           ever vw w' = ever vw w \<union> new \<and> tabs vw w' = tabs vw w \<and> (r = Read_Nil \<longrightarrow> new = {}) \<and>
           (\<forall>res. r = Read_Ok res \<longrightarrow> good_reply content trimmed res \<and> reply_keys res = new)))"

text \<open>The entries of a stream after an acknowledgement, which is for the group: no consumer has the entry
  pending after it. One that fails may have done so too.\<close>

definition without :: "(string \<times> string) set \<Rightarrow> (string \<Rightarrow> (string \<times> string) set) \<Rightarrow> string \<Rightarrow> (string \<times> string) set" where
  "without ks p c = p c - ks"

definition ack_law where
  "ack_law svc vw \<longleftrightarrow>
     (\<forall>s i w r w'. x_ack svc s i w = (r, w') \<longrightarrow>
        ever vw w' = ever vw w \<and> tabs vw w' = tabs vw w \<and>
        (pend vw w' = without {(s, i)} (pend vw w) \<or> r \<noteq> None \<and> pend vw w' = pend vw w))"

text \<open>An insert stores the row unless its key is there; one that fails may have done so too.\<close>

definition exec_law where
  "exec_law svc vw \<longleftrightarrow>
     (\<forall>row w r w'. exec_insert svc row w = (r, w') \<longrightarrow>
        ever vw w' = ever vw w \<and> pend vw w' = pend vw w \<and>
        (tabs vw w' = insert_row row (tabs vw w) \<or> r \<noteq> None \<and> tabs vw w' = tabs vw w))"

definition clock_law where
  "clock_law svc vw \<longleftrightarrow> (\<forall>w t w'. time_now svc w = (t, w') \<longrightarrow> same_world vw w w')"

definition service_laws where
  "service_laws svc vw content trimmed \<longleftrightarrow>
     history_law svc vw content trimmed \<and> live_law svc vw content trimmed \<and> ack_law svc vw \<and>
     exec_law svc vw \<and> clock_law svc vw \<and> parse_float svc [] = None"

section \<open>What an entry means\<close>

text \<open>The time an entry determines, if it determines one.\<close>

definition ts_of :: "string \<Rightarrow> fields \<Rightarrow> int option" where
  "ts_of i v =
     (case parse_int (field v ''ts_ms'') of
        (ms, None) \<Rightarrow> Some (unix_milli ms)
      | _ \<Rightarrow>
          if before (CHR ''-'') i \<noteq> [] \<and> CHR ''-'' \<in> set i
          then (case parse_int (before (CHR ''-'') i) of (ms, None) \<Rightarrow> Some (unix_milli ms) | _ \<Rightarrow> None)
          else None)"

text \<open>The row of an entry at a time; \<open>None\<close> for a malformed one.\<close>

definition entry_row :: "(string \<Rightarrow> pyfloat option) \<Rightarrow> string \<Rightarrow> string \<Rightarrow> fields \<Rightarrow> int \<Rightarrow> row option" where
  "entry_row pf s i v t =
     (if s = sensorStream
      then map_option (\<lambda>x. Sensor_data t (fst (parse_int (field v ''node''))) (field v ''metric'') x i)
             (pf (field v ''value''))
      else if s = controlStream \<and> field v ''action'' \<noteq> []
      then Some (Control_events t (field v ''action'')
             (case parse_int (field v ''diff_centi'') of (d, None) \<Rightarrow> Some d | _ \<Rightarrow> None) v i)
      else None)"

lemma streams_differ [simp]: "sensorStream \<noteq> controlStream" "controlStream \<noteq> sensorStream"
  by (simp_all add: sensorStream_def controlStream_def)

lemma ts_eq:
  "ts svc i v w = (case ts_of i v of Some t \<Rightarrow> (t, w) | None \<Rightarrow> time_now svc w)"
  by (auto simp: ts_def ts_of_def split: prod.splits option.splits)

lemma entry_row_none: "entry_row pf s i v t = None \<Longrightarrow> entry_row pf s i v t' = None"
  by (auto simp: entry_row_def split: if_splits)

lemma entry_row_key: "entry_row pf s i v t = Some r \<Longrightarrow> row_key r = (s, i, t)"
  by (auto simp: entry_row_def split: if_splits)

lemma insert_entry_eq:
  "insert_entry svc s i v w =
     (case entry_row (parse_float svc) s i v 0 of
        None \<Rightarrow> (None, w)
      | Some _ \<Rightarrow> (case ts svc i v w of (t, w1) \<Rightarrow> exec_insert svc (the (entry_row (parse_float svc) s i v t)) w1))"
  by (auto simp: insert_entry_def entry_row_def Let_def split: option.split prod.split)

text \<open>A numeral in range is parsed to its number.\<close>

lemma parse_digits_value:
  assumes "\<forall>c \<in> set s. is_digit c" "10 ^ length s * n + dec_val s < 2 ^ 64"
  shows "parse_digits s n = (10 ^ length s * n + dec_val s, None)"
  using assms
proof (induction s arbitrary: n)
  case Nil
  then show ?case by simp
next
  case (Cons c cs)
  have v: "dec_val (c # cs) = 10 ^ length cs * digit_val c + dec_val cs" by (rule dec_val_Cons)
  have e: "10 ^ length cs * (10 * n + digit_val c) + dec_val cs = 10 ^ length (c # cs) * n + dec_val (c # cs)"
    by (simp add: v algebra_simps)
  then have s: "10 ^ length cs * (10 * n + digit_val c) + dec_val cs < 2 ^ 64" using Cons.prems(2) by simp
  have "10 * n + digit_val c \<le> 10 ^ length cs * (10 * n + digit_val c)" by simp
  then have "10 * n + digit_val c < 2 ^ 64" using s by linarith
  with Cons.IH [OF _ s] Cons.prems(1) e show ?case by simp
qed

lemma parse_uint_show_nat: "n < 2 ^ 64 \<Longrightarrow> parse_uint (show_nat n) = (n, None)"
  using parse_digits_value [of "show_nat n" 0] show_nat_digits by (simp add: parse_uint_def)

lemma parse_int_show_int:
  assumes "\<bar>k\<bar> < 2 ^ 63"
  shows "parse_int (show_int k) = (k, None)"
proof -
  have h: "hd (show_nat n) \<noteq> CHR ''-'' \<and> hd (show_nat n) \<noteq> CHR ''+''" for n
    using show_nat_digits [of "hd (show_nat n)" n] by (auto simp: is_digit_def)
  have "parse_uint (show_nat (nat \<bar>k\<bar>)) = (nat \<bar>k\<bar>, None)" "nat \<bar>k\<bar> < 2 ^ 63"
    using assms parse_uint_show_nat [of "nat \<bar>k\<bar>"] by simp_all
  with h [of "nat k"] show ?thesis
    by (cases "k < 0") (simp_all add: show_int_def parse_int_def)
qed

lemma redis_id_has_time:
  assumes "i = show_nat ms @ ''-'' @ seq" "ms < 2 ^ 63"
  shows "ts_of i v \<noteq> None"
proof -
  have m: "CHR ''-'' \<notin> set (show_nat ms)" using show_nat_digits [of "CHR ''-''" ms] by (auto simp: is_digit_def)
  then have b: "before (CHR ''-'') i = show_nat ms" by (simp add: assms(1))
  have d: "CHR ''-'' \<in> set i" by (simp add: assms(1))
  have "parse_int (show_nat ms) = (int ms, None)"
    using parse_int_show_int [of "int ms"] assms(2) by (simp add: show_int_def)
  with d show ?thesis by (auto simp: ts_of_def b split: prod.split option.split)
qed

section \<open>Invariant of the archive\<close>

text \<open>Every row is the row of its entry, at the time the entry determines.\<close>

definition table_sound ::
  "(string \<Rightarrow> pyfloat option) \<Rightarrow> (string \<Rightarrow> string \<Rightarrow> fields) \<Rightarrow> tables \<Rightarrow> bool" where
  "table_sound pf content tb \<longleftrightarrow>
     (\<forall>s i t r. tb (s, i, t) = Some r \<longrightarrow>
        entry_row pf s i (content s i) t = Some r \<and> (\<forall>t'. ts_of i (content s i) = Some t' \<longrightarrow> t' = t))"

text \<open>An entry that needs no more work: trimmed before it was read, malformed, or in its table.\<close>

definition settled ::
  "(string \<Rightarrow> pyfloat option) \<Rightarrow> (string \<Rightarrow> string \<Rightarrow> fields) \<Rightarrow> (string \<Rightarrow> string \<Rightarrow> bool) \<Rightarrow> tables \<Rightarrow>
   string \<Rightarrow> string \<Rightarrow> bool" where
  "settled pf content trimmed tb s i \<longleftrightarrow>
     trimmed s i \<or> entry_row pf s i (content s i) 0 = None \<or> (\<exists>t. tb (s, i, t) \<noteq> None)"

definition archive_ok where
  "archive_ok svc vw content trimmed w \<longleftrightarrow>
     table_sound (parse_float svc) content (tabs vw w) \<and>
     (\<forall>s i. (s, i) \<in> ever vw w \<longrightarrow>
        (\<exists>c. (s, i) \<in> pend vw w c) \<or> settled (parse_float svc) content trimmed (tabs vw w) s i)"

lemma settled_mono:
  assumes "settled pf content trimmed tb s i" "tb \<subseteq>\<^sub>m tb'"
  shows "settled pf content trimmed tb' s i"
proof -
  have "tb' (s, i, t) \<noteq> None" if "tb (s, i, t) \<noteq> None" for t
    using assms(2) that unfolding map_le_def dom_def by fastforce
  with assms(1) show ?thesis unfolding settled_def by blast
qed

lemma table_sound_insert:
  assumes "table_sound pf content tb" "entry_row pf s i (content s i) t = Some r"
    "\<And>t'. ts_of i (content s i) = Some t' \<Longrightarrow> t' = t"
  shows "table_sound pf content (insert_row r tb)"
  using assms entry_row_key [OF assms(2)]
  by (auto simp: table_sound_def dest!: archive_table.only_new)

text \<open>Laws in the form the proofs use.\<close>

lemma exec_cases:
  assumes "exec_law svc vw" "exec_insert svc row w = (r, w')"
  obtains "ever vw w' = ever vw w" "pend vw w' = pend vw w"
    "tabs vw w' = insert_row row (tabs vw w) \<or> r \<noteq> None \<and> tabs vw w' = tabs vw w"
  using assms unfolding exec_law_def by metis

lemma ack_cases:
  assumes "ack_law svc vw" "x_ack svc s i w = (r, w')"
  obtains "ever vw w' = ever vw w" "tabs vw w' = tabs vw w"
    "pend vw w' = without {(s, i)} (pend vw w) \<or> r \<noteq> None \<and> pend vw w' = pend vw w"
  using assms unfolding ack_law_def by metis

lemma ts_cases:
  assumes "clock_law svc vw" "ts svc i v w = (t, w')"
  obtains "same_world vw w w'" "\<And>t'. ts_of i v = Some t' \<Longrightarrow> t' = t"
  using assms unfolding clock_law_def by (auto simp: ts_eq same_world_def split: option.splits)

text \<open>One insert.\<close>

lemma insert_entry_ok:
  assumes laws: "service_laws svc vw content trimmed" and sound: "table_sound (parse_float svc) content (tabs vw w)"
    and good: "good_message content trimmed s m"
    and ins: "insert_entry svc s (m_id m) (m_values m) w = (err, w')"
  shows "ever vw w' = ever vw w \<and> pend vw w' = pend vw w \<and> tabs vw w \<subseteq>\<^sub>m tabs vw w' \<and>
    table_sound (parse_float svc) content (tabs vw w') \<and>
    (err = None \<longrightarrow> settled (parse_float svc) content trimmed (tabs vw w') s (m_id m))"
proof (cases "entry_row (parse_float svc) s (m_id m) (m_values m) 0")
  case None
  then have w: "w' = w" "err = None" using ins by (simp_all add: insert_entry_eq)
  have "settled (parse_float svc) content trimmed (tabs vw w) s (m_id m)"
    using good None by (auto simp: good_message_def settled_def)
  with sound show ?thesis by (simp add: w)
next
  case (Some r0)
  have pe: "parse_float svc [] = None" using laws by (simp add: service_laws_def)
  have v: "m_values m = content s (m_id m)"
  proof (rule ccontr)
    assume "\<not> ?thesis"
    with good have "m_values m = Map.empty" by (simp add: good_message_def)
    with Some pe show False by (simp add: entry_row_def field_def split: if_splits)
  qed
  obtain t w1 where t: "ts svc (m_id m) (m_values m) w = (t, w1)" by fastforce
  obtain r where r: "entry_row (parse_float svc) s (m_id m) (m_values m) t = Some r"
    using Some entry_row_none [of "parse_float svc" s "m_id m" "m_values m" t 0] by fastforce
  have ex: "exec_insert svc r w1 = (err, w')" using ins by (simp add: insert_entry_eq Some t r)
  from laws have "clock_law svc vw" "exec_law svc vw" by (simp_all add: service_laws_def)
  from ts_cases [OF this(1) t] have s1: "same_world vw w w1"
    and fixed: "\<And>t'. ts_of (m_id m) (m_values m) = Some t' \<Longrightarrow> t' = t" by blast+
  from exec_cases [OF \<open>exec_law svc vw\<close> ex] have e: "ever vw w' = ever vw w1" "pend vw w' = pend vw w1"
    "tabs vw w' = insert_row r (tabs vw w1) \<or> err \<noteq> None \<and> tabs vw w' = tabs vw w1" by blast+
  have tb: "tabs vw w' = insert_row r (tabs vw w) \<or> err \<noteq> None \<and> tabs vw w' = tabs vw w"
    using e(3) s1 by (simp add: same_world_def)
  have "table_sound (parse_float svc) content (insert_row r (tabs vw w))"
    by (rule table_sound_insert [OF sound r [unfolded v] fixed [unfolded v]])
  moreover have "settled (parse_float svc) content trimmed (insert_row r (tabs vw w)) s (m_id m)"
    using archive_table.present [of r "tabs vw w"] by (auto simp: settled_def entry_row_key [OF r])
  ultimately show ?thesis
    using e(1,2) tb s1 sound archive_table.grows [of "tabs vw w" r] by (auto simp: same_world_def)
qed

text \<open>An entry leaves the pending ones only when it is settled.\<close>

lemma without_simps [simp]:
  "without {} p = p" "without ks (without js p) = without (js \<union> ks) p"
  "x \<in> without ks p c \<longleftrightarrow> x \<in> p c \<and> x \<notin> ks"
  by (auto simp: without_def)

lemma archive_ok_settle:
  assumes "archive_ok svc vw content trimmed w" "ever vw w' = ever vw w" "tabs vw w \<subseteq>\<^sub>m tabs vw w'"
    "table_sound (parse_float svc) content (tabs vw w')"
    "\<And>c s i. (s, i) \<in> pend vw w c - pend vw w' c \<Longrightarrow> settled (parse_float svc) content trimmed (tabs vw w') s i"
  shows "archive_ok svc vw content trimmed w'"
  using assms settled_mono [OF _ assms(3)] unfolding archive_ok_def by (metis DiffI)

text \<open>What a batch with the keys \<open>ks\<close> does: the entries \<open>gone\<close> are among them, and without an error they
  are all of them.\<close>

definition batch_done ::
  "'w view \<Rightarrow> (string \<times> string) set \<Rightarrow> string option \<Rightarrow> 'w \<Rightarrow> 'w \<Rightarrow> bool" where
  "batch_done vw ks err w w' \<longleftrightarrow>
     ever vw w' = ever vw w \<and> tabs vw w \<subseteq>\<^sub>m tabs vw w' \<and>
     (\<exists>gone \<subseteq> ks. pend vw w' = without gone (pend vw w) \<and> (err = None \<longrightarrow> gone = ks))"

lemma batch_done_trans:
  assumes "batch_done vw js None w w1" "batch_done vw ks err w1 w2"
  shows "batch_done vw (js \<union> ks) err w w2"
proof -
  obtain gone where g: "gone \<subseteq> ks" "pend vw w2 = without gone (pend vw w1)" "err = None \<longrightarrow> gone = ks"
    using assms(2) unfolding batch_done_def by blast
  have "pend vw w1 = without js (pend vw w)" using assms(1) by (auto simp: batch_done_def)
  with g(2) have p: "pend vw w2 = without (js \<union> gone) (pend vw w)" by simp
  have e: "ever vw w2 = ever vw w" using assms by (simp add: batch_done_def)
  have "tabs vw w \<subseteq>\<^sub>m tabs vw w1" "tabs vw w1 \<subseteq>\<^sub>m tabs vw w2"
    using assms unfolding batch_done_def by blast+
  then have "tabs vw w \<subseteq>\<^sub>m tabs vw w2" by (rule map_le_trans)
  moreover have "js \<union> gone \<subseteq> js \<union> ks" using g(1) by blast
  ultimately show ?thesis unfolding batch_done_def using p e g(3) by blast
qed

lemma step_messages_ok:
  assumes laws: "service_laws svc vw content trimmed"
  shows "archive_ok svc vw content trimmed w \<Longrightarrow> (\<forall>m \<in> set ms. good_message content trimmed s m) \<Longrightarrow>
    step_messages svc s ms n w = (n', err, w') \<Longrightarrow>
    archive_ok svc vw content trimmed w' \<and> batch_done vw ((\<lambda>m. (s, m_id m)) ` set ms) err w w' \<and>
    (err = None \<longrightarrow> n' = n + length ms)"
proof (induction ms arbitrary: n w)
  case Nil
  then show ?case by (auto simp: batch_done_def)
next
  case (Cons m ms)
  have sound: "table_sound (parse_float svc) content (tabs vw w)"
    using Cons.prems(1) by (simp add: archive_ok_def)
  obtain e1 w1 where i: "insert_entry svc s (m_id m) (m_values m) w = (e1, w1)" by fastforce
  from insert_entry_ok [OF laws sound _ i] Cons.prems(2)
  have w1: "ever vw w1 = ever vw w" "pend vw w1 = pend vw w" "tabs vw w \<subseteq>\<^sub>m tabs vw w1"
    "table_sound (parse_float svc) content (tabs vw w1)"
    "e1 = None \<Longrightarrow> settled (parse_float svc) content trimmed (tabs vw w1) s (m_id m)" by auto
  have ok1: "archive_ok svc vw content trimmed w1"
    by (rule archive_ok_settle [OF Cons.prems(1) w1(1,3,4)]) (simp add: w1(2))
  let ?ks = "(\<lambda>m. (s, m_id m)) ` set (m # ms)"
  have some: "batch_done vw ?ks (Some e) w w2"
    if "ever vw w2 = ever vw w" "tabs vw w2 = tabs vw w1" "gone \<subseteq> ?ks" "pend vw w2 = without gone (pend vw w)"
    for e w2 gone
    using that w1(3) unfolding batch_done_def by (intro conjI exI [of _ gone]) simp_all
  show ?case
  proof (cases e1)
    case (Some e)
    with Cons.prems(3) i have r: "w' = w1" "err = Some e" by simp_all
    show ?thesis using some [of w1 "{}" e] w1(1,2) ok1 by (simp add: r)
  next
    case None
    obtain e2 w2 where a: "x_ack svc s (m_id m) w1 = (e2, w2)" by fastforce
    have "ack_law svc vw" using laws by (simp add: service_laws_def)
    from ack_cases [OF this a] have w2: "ever vw w2 = ever vw w1" "tabs vw w2 = tabs vw w1"
      "pend vw w2 = without {(s, m_id m)} (pend vw w1) \<or> e2 \<noteq> None \<and> pend vw w2 = pend vw w1" by blast+
    have ok2: "archive_ok svc vw content trimmed w2"
      by (rule archive_ok_settle [OF ok1 w2(1)]) (use w1(4,5) None w2 in auto)
    show ?thesis
    proof (cases e2)
      case (Some e)
      with Cons.prems(3) i None a have r: "w' = w2" "err = Some e" by simp_all
      from w2(3) w1(2) have "pend vw w2 = without {(s, m_id m)} (pend vw w) \<or> pend vw w2 = without {} (pend vw w)"
        by auto
      then show ?thesis
        using some [of w2 "{(s, m_id m)}" e] some [of w2 "{}" e] w1(1) w2(1,2) ok2 by (auto simp: r)
    next
      case n2: None
      with Cons.prems(3) i None a have "step_messages svc s ms (Suc n) w2 = (n', err, w')" by simp
      from Cons.IH [OF ok2 _ this] Cons.prems(2)
      have ih: "archive_ok svc vw content trimmed w'" "batch_done vw ((\<lambda>m. (s, m_id m)) ` set ms) err w2 w'"
        "err = None \<Longrightarrow> n' = Suc n + length ms" by auto
      have "batch_done vw {(s, m_id m)} None w w2"
        using w1 w2 n2 by (auto simp: batch_done_def)
      from batch_done_trans [OF this ih(2)] ih(1,3) show ?thesis by simp
    qed
  qed
qed

lemma reply_keys_Cons:
  "reply_keys (s # ss) = (\<lambda>m. (s_name s, m_id m)) ` set (s_messages s) \<union> reply_keys ss"
  by (simp add: reply_keys_def)

lemma step_streams_ok:
  assumes laws: "service_laws svc vw content trimmed"
  shows "archive_ok svc vw content trimmed w \<Longrightarrow> good_reply content trimmed res \<Longrightarrow>
    step_streams svc res n w = (n', err, w') \<Longrightarrow>
    archive_ok svc vw content trimmed w' \<and> batch_done vw (reply_keys res) err w w' \<and>
    (err = None \<longrightarrow> n' = n + sum_list (map (length \<circ> s_messages) res))"
proof (induction res arbitrary: n w)
  case Nil
  then show ?case by (auto simp: reply_keys_def batch_done_def)
next
  case (Cons s ss)
  obtain n1 e1 w1 where m: "step_messages svc (s_name s) (s_messages s) n w = (n1, e1, w1)"
    by (cases "step_messages svc (s_name s) (s_messages s) n w") auto
  have good: "\<forall>x \<in> set (s_messages s). good_message content trimmed (s_name s) x" "good_reply content trimmed ss"
    using Cons.prems(2) by (simp_all add: good_reply_def)
  note w1 = step_messages_ok [OF laws Cons.prems(1) good(1) m]
  show ?case
  proof (cases e1)
    case (Some e)
    with Cons.prems(3) m have "n' = n1" "err = Some e" "w' = w1" by simp_all
    with w1 Some show ?thesis unfolding batch_done_def reply_keys_Cons by blast
  next
    case None
    with Cons.prems(3) m have "step_streams svc ss n1 w1 = (n', err, w')" by simp
    from Cons.IH [OF _ good(2) this] w1 None
    have ih: "archive_ok svc vw content trimmed w'" "batch_done vw (reply_keys ss) err w1 w'"
      "err = None \<longrightarrow> n' = n1 + sum_list (map (length \<circ> s_messages) ss)" by (simp_all add: comp_def)
    have "batch_done vw ((\<lambda>m. (s_name s, m_id m)) ` set (s_messages s)) e1 w w1" using w1 by simp
    from batch_done_trans [OF this [unfolded None] ih(2)] ih(1,3) w1 None show ?thesis
      by (simp add: reply_keys_Cons comp_def)
  qed
qed

text \<open>One step with either cursor: the live cursor is only used when nothing is pending for the
  consumer.\<close>

definition cursor_ok where
  "cursor_ok vw c cursor w \<longleftrightarrow> cursor = ''0'' \<or> cursor = ''>'' \<and> pend vw w c = {}"

lemma no_messages: "sum_list (map (length \<circ> s_messages) res) = 0 \<Longrightarrow> reply_keys res = {}"
  by (induction res) (auto simp: reply_keys_def)

text \<open>Every pending entry was delivered, and is pending for one consumer. What a consumer's turn does to
  the others: their pending entries become at most fewer, and with such books they stay.\<close>

definition exclusive where
  "exclusive vw w \<longleftrightarrow>
     (\<forall>c. pend vw w c \<subseteq> ever vw w) \<and> (\<forall>c d. c \<noteq> d \<longrightarrow> pend vw w c \<inter> pend vw w d = {})"

definition turn_frame where
  "turn_frame vw c w w' \<longleftrightarrow>
     ever vw w \<subseteq> ever vw w' \<and> tabs vw w \<subseteq>\<^sub>m tabs vw w' \<and> (\<forall>d. d \<noteq> c \<longrightarrow> pend vw w' d \<subseteq> pend vw w d) \<and>
     (exclusive vw w \<longrightarrow> exclusive vw w' \<and> (\<forall>d. d \<noteq> c \<longrightarrow> pend vw w' d = pend vw w d))"

lemma turn_frame_refl [simp]: "turn_frame vw c w w"
  by (simp add: turn_frame_def)

lemma turn_frame_trans: "turn_frame vw c w w1 \<Longrightarrow> turn_frame vw c w1 w2 \<Longrightarrow> turn_frame vw c w w2"
  unfolding turn_frame_def using map_le_trans [of "tabs vw w" "tabs vw w1" "tabs vw w2"]
  by (metis subset_trans)

text \<open>What a read with either cursor delivers.\<close>

definition read_gives where
  "read_gives vw c cursor new ks w \<longleftrightarrow>
     (if cursor = ''0'' then ks \<subseteq> pend vw w c \<and> new = {} \<and> (ks = {} \<longrightarrow> pend vw w c = {}) else ks = new)"

lemma read_group_cases:
  assumes laws: "service_laws svc vw content trimmed" and cur: "cursor_ok vw c cursor w"
    and rd: "x_read_group svc c cursor w = (r, w1)"
  obtains new where "pend vw w1 = (pend vw w)(c := pend vw w c \<union> new)" "new \<inter> ever vw w = {}"
    "ever vw w1 = ever vw w \<union> new" "tabs vw w1 = tabs vw w"
    "r = Read_Nil \<Longrightarrow> cursor = ''>'' \<and> new = {}"
    "\<And>res. r = Read_Ok res \<Longrightarrow> good_reply content trimmed res \<and> read_gives vw c cursor new (reply_keys res) w"
proof (cases "cursor = ''0''")
  case True
  from laws have "history_law svc vw content trimmed" by (simp add: service_laws_def)
  then have h: "x_read_group svc c ''0'' w = (r, w1) \<Longrightarrow> same_world vw w w1 \<and> r \<noteq> Read_Nil \<and>
      (\<forall>res. r = Read_Ok res \<longrightarrow> good_reply content trimmed res \<and> reply_keys res \<subseteq> pend vw w c \<and>
         (reply_keys res = {} \<longrightarrow> pend vw w c = {}))"
    unfolding history_law_def by blast
  show ?thesis
    by (rule that [of "{}"]) (use h rd True in \<open>simp_all add: same_world_def read_gives_def\<close>)
next
  case False
  with cur have c: "cursor = ''>''" by (simp add: cursor_ok_def)
  from laws have l: "live_law svc vw content trimmed" by (simp add: service_laws_def)
  have "x_read_group svc c ''>'' w = (r, w1)" using rd \<open>cursor = ''>''\<close> by (simp only:)
  from l [unfolded live_law_def, THEN spec, THEN spec, THEN spec, THEN spec, THEN mp, OF this]
  obtain new where n: "pend vw w1 = (pend vw w)(c := pend vw w c \<union> new)" "new \<inter> ever vw w = {}"
    "ever vw w1 = ever vw w \<union> new" "tabs vw w1 = tabs vw w" "r = Read_Nil \<longrightarrow> new = {}"
    "\<forall>res. r = Read_Ok res \<longrightarrow> good_reply content trimmed res \<and> reply_keys res = new" by (elim exE conjE)
  show ?thesis
    by (rule that [OF n(1-4)]) (use n(5,6) c in \<open>simp_all add: read_gives_def\<close>)
qed

text \<open>After a batch without error the next cursor follows new entries only with nothing pending.\<close>

lemma cursor_after_batch:
  assumes cur: "cursor_ok vw c cursor w" and reply: "read_gives vw c cursor new (reply_keys res) w"
    and left: "err = None \<Longrightarrow> pend vw w' c = (pend vw w c \<union> new) - reply_keys res \<and>
      n = sum_list (map (length \<circ> s_messages) res)"
  shows "cursor_ok vw c (next_cursor n err cursor) w'"
proof (cases "err = None \<and> next_cursor n err cursor \<noteq> ''0''")
  case False
  then show ?thesis by (auto simp: next_cursor_def cursor_ok_def)
next
  case True
  with left have p: "pend vw w' c = (pend vw w c \<union> new) - reply_keys res"
    "n = sum_list (map (length \<circ> s_messages) res)" by simp_all
  show ?thesis
  proof (cases "cursor = ''0''")
    case c0: True
    with True have "n = 0" by (auto simp: next_cursor_def split: if_splits)
    with p(2) have "reply_keys res = {}" using no_messages [of res] by simp
    with p reply c0 True \<open>n = 0\<close> show ?thesis by (simp add: cursor_ok_def next_cursor_def read_gives_def)
  next
    case False
    with cur have "cursor = ''>''" "pend vw w c = {}" by (simp_all add: cursor_ok_def)
    with p reply True show ?thesis by (simp add: cursor_ok_def next_cursor_def read_gives_def)
  qed
qed

text \<open>A batch of a read frees only entries of the consumer itself.\<close>

lemma batch_frame:
  assumes rd: "pend vw w1 = (pend vw w)(c := pend vw w c \<union> new)" "new \<inter> ever vw w = {}"
    "ever vw w1 = ever vw w \<union> new" "tabs vw w1 = tabs vw w"
    and b: "batch_done vw ks err w1 w'" "ks \<subseteq> pend vw w c \<union> new"
  shows "turn_frame vw c w w'"
proof -
  obtain gone where g: "gone \<subseteq> ks" "pend vw w' = without gone (pend vw w1)" "ever vw w' = ever vw w1"
    "tabs vw w1 \<subseteq>\<^sub>m tabs vw w'" using b(1) unfolding batch_done_def by blast
  have "pend vw w' d \<subseteq> pend vw w d" if "d \<noteq> c" for d
    using that by (auto simp: g(2) rd(1) without_def)
  moreover have "exclusive vw w' \<and> (\<forall>d. d \<noteq> c \<longrightarrow> pend vw w' d = pend vw w d)" if x: "exclusive vw w"
  proof
    have "pend vw w d \<inter> (pend vw w c \<union> new) = {}" if "d \<noteq> c" for d
      using x rd(2) that unfolding exclusive_def by blast
    then show "\<forall>d. d \<noteq> c \<longrightarrow> pend vw w' d = pend vw w d"
      using g(1) b(2) by (auto simp: g(2) rd(1) without_def)
    show "exclusive vw w'"
      using x rd(2) unfolding exclusive_def
      by (auto simp: g(2,3) rd(1,3) without_def split: if_splits) blast+
  qed
  ultimately show ?thesis using g rd(3,4) by (auto simp: turn_frame_def)
qed

lemma archiver_step_ok:
  assumes laws: "service_laws svc vw content trimmed" and ok: "archive_ok svc vw content trimmed w"
    and cur: "cursor_ok vw c cursor w" and st: "archiver_step svc c cursor w = (n, err, w')"
  shows "archive_ok svc vw content trimmed w' \<and> cursor_ok vw c (next_cursor n err cursor) w' \<and>
    turn_frame vw c w w'"
proof -
  obtain r w1 where rd: "x_read_group svc c cursor w = (r, w1)" by fastforce
  obtain new where w1: "pend vw w1 = (pend vw w)(c := pend vw w c \<union> new)" "new \<inter> ever vw w = {}"
    "ever vw w1 = ever vw w \<union> new" "tabs vw w1 = tabs vw w"
    and nil: "r = Read_Nil \<Longrightarrow> cursor = ''>'' \<and> new = {}"
    and reply: "\<And>res. r = Read_Ok res \<Longrightarrow> good_reply content trimmed res \<and>
      read_gives vw c cursor new (reply_keys res) w"
    by (rule read_group_cases [OF laws cur rd]) blast
  have ok1: "archive_ok svc vw content trimmed w1"
    unfolding archive_ok_def
  proof (intro conjI allI impI)
    show "table_sound (parse_float svc) content (tabs vw w1)" using ok w1(4) by (simp add: archive_ok_def)
    fix s i assume "(s, i) \<in> ever vw w1"
    then have "(s, i) \<in> new \<or> (s, i) \<in> ever vw w" using w1(3) by auto
    then consider "(s, i) \<in> new" | d where "(s, i) \<in> pend vw w d"
      | "settled (parse_float svc) content trimmed (tabs vw w1) s i"
      using ok unfolding archive_ok_def w1(4) by blast
    then show "(\<exists>d. (s, i) \<in> pend vw w1 d) \<or> settled (parse_float svc) content trimmed (tabs vw w1) s i"
    proof cases
      case 1
      then show ?thesis by (intro disjI1 exI [of _ c]) (simp add: w1(1))
    next
      case 2
      then show ?thesis by (intro disjI1 exI [of _ d]) (auto simp: w1(1))
    qed simp
  qed
  have idle: "batch_done vw {} (Some e) w1 w1" for e by (simp add: batch_done_def)
  have f1: "turn_frame vw c w w1" by (rule batch_frame [OF w1 idle]) simp
  show ?thesis
  proof (cases r)
    case Read_Nil
    with st rd have "n = 0" "err = None" "w' = w1" by (simp_all add: archiver_step_def)
    with nil [OF Read_Nil] cur ok1 w1(1) f1 show ?thesis by (auto simp: next_cursor_def cursor_ok_def)
  next
    case (Read_Err e)
    with st rd have "err = Some e" "w' = w1" by (simp_all add: archiver_step_def)
    with ok1 f1 show ?thesis by (auto simp: next_cursor_def cursor_ok_def)
  next
    case (Read_Ok res)
    with st rd have ss: "step_streams svc res 0 w1 = (n, err, w')" by (simp add: archiver_step_def)
    from reply [OF Read_Ok] have good: "good_reply content trimmed res"
      and gives: "read_gives vw c cursor new (reply_keys res) w" by simp_all
    from step_streams_ok [OF laws ok1 good ss]
    have b: "archive_ok svc vw content trimmed w'" "batch_done vw (reply_keys res) err w1 w'"
      "err = None \<Longrightarrow> n = sum_list (map (length \<circ> s_messages) res)" by auto
    have "pend vw w' c = (pend vw w c \<union> new) - reply_keys res" if "err = None"
      using b(2) that w1(1) by (auto simp: batch_done_def without_def)
    with cursor_after_batch [OF cur gives] b(3) have "cursor_ok vw c (next_cursor n err cursor) w'" by blast
    moreover have "reply_keys res \<subseteq> pend vw w c \<union> new" using gives by (auto simp: read_gives_def split: if_splits)
    ultimately show ?thesis using batch_frame [OF w1 b(2)] b(1) by simp
  qed
qed

lemma archiver_loop_ok:
  assumes laws: "service_laws svc vw content trimmed"
  shows "archive_ok svc vw content trimmed w \<Longrightarrow> cursor_ok vw c cursor w \<Longrightarrow>
    archiver_loop svc c k cursor w = (cursor', w') \<Longrightarrow>
    archive_ok svc vw content trimmed w' \<and> cursor_ok vw c cursor' w' \<and> turn_frame vw c w w'"
proof (induction k arbitrary: cursor w)
  case 0
  then show ?case by simp
next
  case (Suc k)
  obtain n err w1 where s: "archiver_step svc c cursor w = (n, err, w1)"
    by (cases "archiver_step svc c cursor w") auto
  note w1 = archiver_step_ok [OF laws Suc.prems(1,2) s]
  have "archiver_loop svc c k (next_cursor n err cursor) w1 = (cursor', w')" using Suc.prems(3) s by simp
  from Suc.IH [OF conjunct1 [OF w1] conjunct1 [OF conjunct2 [OF w1]] this] turn_frame_trans
    conjunct2 [OF conjunct2 [OF w1]] show ?case by metis
qed

section \<open>An instance of the services\<close>

text \<open>Services that keep the laws, for the examples: streams that still hold all their entries, a group
  that keeps the pending entries of each consumer, a database that accepts every row whose columns
  fit.\<close>

record toy =
  t_new :: "(string \<times> string) list"
  t_pend :: "(string \<times> string \<times> string) list"
  t_ever :: "(string \<times> string) list"
  t_tabs :: tables

definition toy_valid :: "string \<times> string \<Rightarrow> bool" where
  "toy_valid k \<longleftrightarrow> fst k = sensorStream \<or> fst k = controlStream"

definition toy_reply :: "(string \<Rightarrow> string \<Rightarrow> fields) \<Rightarrow> (string \<times> string) list \<Rightarrow> xstream list" where
  "toy_reply content ks =
     map (\<lambda>k. \<lparr>s_name = fst k, s_messages = [\<lparr>m_id = snd k, m_values = content (fst k) (snd k)\<rparr>]\<rparr>)
       (filter toy_valid ks)"

definition toy_pending :: "string \<Rightarrow> toy \<Rightarrow> (string \<times> string) list" where
  "toy_pending c w = map snd (filter (\<lambda>x. fst x = c) (t_pend w))"

definition toy_fresh :: "toy \<Rightarrow> (string \<times> string) list" where
  "toy_fresh w = filter (\<lambda>k. toy_valid k \<and> k \<notin> set (t_ever w)) (t_new w)"

definition toy_services :: "(string \<Rightarrow> string \<Rightarrow> fields) \<Rightarrow> toy services" where
  "toy_services content =
     \<lparr>x_read_group = (\<lambda>c cursor w.
        if cursor = ''0'' then (Read_Ok (toy_reply content (toy_pending c w)), w)
        else if toy_fresh w = [] then (Read_Nil, w)
        else (Read_Ok (toy_reply content (toy_fresh w)),
              w\<lparr>t_new := [], t_pend := t_pend w @ map (Pair c) (toy_fresh w),
                t_ever := t_ever w @ toy_fresh w\<rparr>)),
      x_ack = (\<lambda>s i w. (None, w\<lparr>t_pend := filter (\<lambda>x. snd x \<noteq> (s, i)) (t_pend w)\<rparr>)),
      exec_insert = (\<lambda>r w. if row_fits r then (None, w\<lparr>t_tabs := insert_row r (t_tabs w)\<rparr>)
                          else (Some ''integer out of range'', w)),
      time_now = (\<lambda>w. (0, w)),
      parse_float = (\<lambda>s. if s \<noteq> [] \<and> list_all is_digit s then Some (fl (of_nat (dec_val s))) else None)\<rparr>"

definition toy_view :: "toy view" where
  "toy_view =
     \<lparr>pend = (\<lambda>w c. set (filter toy_valid (toy_pending c w))), ever = (\<lambda>w. set (filter toy_valid (t_ever w))),
      tabs = t_tabs\<rparr>"

lemma toy_reply_keys: "reply_keys (toy_reply content ks) = set (filter toy_valid ks)"
  by (auto simp: reply_keys_def toy_reply_def)

lemma toy_reply_good: "good_reply content trimmed (toy_reply content ks)"
  by (auto simp: good_reply_def toy_reply_def good_message_def toy_valid_def)

lemma toy_laws: "service_laws (toy_services content) toy_view content trimmed"
proof -
  have "history_law (toy_services content) toy_view content trimmed"
    by (simp add: history_law_def toy_services_def same_world_def toy_reply_keys toy_reply_good)
      (simp add: toy_view_def)
  moreover have "live_law (toy_services content) toy_view content trimmed"
    unfolding live_law_def
  proof (intro allI impI)
    fix c w r w' assume a: "x_read_group (toy_services content) c ''>'' w = (r, w')"
    show "\<exists>new. pend toy_view w' = (pend toy_view w)(c := pend toy_view w c \<union> new) \<and>
       new \<inter> ever toy_view w = {} \<and> ever toy_view w' = ever toy_view w \<union> new \<and>
       tabs toy_view w' = tabs toy_view w \<and> (r = Read_Nil \<longrightarrow> new = {}) \<and>
       (\<forall>res. r = Read_Ok res \<longrightarrow> good_reply content trimmed res \<and> reply_keys res = new)"
    proof (cases "toy_fresh w = []")
      case True
      with a have "r = Read_Nil" "w' = w" by (simp_all add: toy_services_def)
      then show ?thesis by (intro exI [of _ "{}"]) simp
    next
      case False
      with a have r: "r = Read_Ok (toy_reply content (toy_fresh w))"
        "w' = w\<lparr>t_new := [], t_pend := t_pend w @ map (Pair c) (toy_fresh w), t_ever := t_ever w @ toy_fresh w\<rparr>"
        by (simp_all add: toy_services_def)
      have valid: "filter toy_valid (toy_fresh w) = toy_fresh w" by (auto simp: toy_fresh_def intro: filter_cong)
      have fresh: "set (toy_fresh w) \<inter> set (t_ever w) = {}" by (auto simp: toy_fresh_def)
      have p: "toy_pending d w' = toy_pending d w @ (if d = c then toy_fresh w else [])" for d
        by (simp add: r(2) toy_pending_def comp_def)
      have "pend toy_view w' = (pend toy_view w)(c := pend toy_view w c \<union> set (toy_fresh w))"
        by (simp add: fun_eq_iff toy_view_def p valid flip: set_filter)
      moreover have "ever toy_view w' = ever toy_view w \<union> set (toy_fresh w)"
        by (simp add: toy_view_def r(2) valid flip: set_filter)
      moreover have "set (toy_fresh w) \<inter> ever toy_view w = {}" using fresh by (auto simp: toy_view_def)
      moreover have "tabs toy_view w' = tabs toy_view w" by (simp add: toy_view_def r(2))
      ultimately show ?thesis
        by (intro exI [of _ "set (toy_fresh w)"]) (simp add: r(1) toy_reply_keys toy_reply_good valid flip: set_filter)
    qed
  qed
  moreover have "ack_law (toy_services content) toy_view"
    by (auto simp: ack_law_def toy_services_def toy_view_def without_def fun_eq_iff toy_pending_def)
  moreover have "exec_law (toy_services content) toy_view"
    by (auto simp: exec_law_def toy_services_def toy_view_def toy_pending_def)
  moreover have "clock_law (toy_services content) toy_view"
    by (simp add: clock_law_def toy_services_def same_world_def)
  ultimately show ?thesis by (simp add: service_laws_def toy_services_def)
qed

text \<open>Two entries, a reading and a control event without an action, not yet delivered.\<close>

definition toy_content :: "string \<Rightarrow> string \<Rightarrow> fields" where
  "toy_content s i =
     (if s = sensorStream then [''value'' \<mapsto> ''19'', ''node'' \<mapsto> ''1'', ''metric'' \<mapsto> ''ambient''] else Map.empty)"

definition toy_start :: toy where
  "toy_start =
     \<lparr>t_new = [(sensorStream, ''7-0''), (controlStream, ''7-1'')], t_pend = [], t_ever = [], t_tabs = Map.empty\<rparr>"

lemma toy_start_ok: "archive_ok (toy_services content) toy_view content trimmed toy_start"
  by (simp add: archive_ok_def table_sound_def toy_view_def toy_start_def)

definition toy_row :: row where
  "toy_row = Sensor_data 7000000 1 ''ambient'' (Fin 19) ''7-0''"

definition toy_done :: toy where
  "toy_done =
     \<lparr>t_new = [], t_pend = [], t_ever = [(sensorStream, ''7-0''), (controlStream, ''7-1'')],
      t_tabs = [(sensorStream, ''7-0'', 7000000) \<mapsto> toy_row]\<rparr>"

lemma toy_ts: "ts (toy_services toy_content) ''7-0'' (toy_content sensorStream ''7-0'') w = (7000000, w)"
proof -
  have "parse_int ''7'' = (7, None)" "parse_int [] = (0, Some ErrSyntax)"
    by (simp_all add: parse_int_def parse_uint_def is_digit_def digit_val_def)
  then show ?thesis by (simp add: ts_def toy_content_def field_def before_def unix_milli_def)
qed

lemma toy_insert:
  "insert_entry (toy_services toy_content) sensorStream ''7-0'' (toy_content sensorStream ''7-0'') w =
     (None, w\<lparr>t_tabs := insert_row toy_row (t_tabs w)\<rparr>)"
proof -
  have p: "parse_float (toy_services toy_content) ''19'' = Some (Fin 19)"
  proof -
    have "list_all is_digit ''19''" "dec_val ''19'' = 19" by code_simp+
    then show ?thesis by (simp add: toy_services_def)
  qed
  have n: "parse_int ''1'' = (1, None)"
    by (simp add: parse_int_def parse_uint_def is_digit_def digit_val_def)
  have f: "field (toy_content sensorStream ''7-0'') ''value'' = ''19''"
    "field (toy_content sensorStream ''7-0'') ''node'' = ''1''"
    "field (toy_content sensorStream ''7-0'') ''metric'' = ''ambient''"
    by (simp_all add: toy_content_def field_def)
  show ?thesis
    by (simp add: insert_entry_def f p n toy_ts toy_row_def) (simp add: toy_services_def int4_def)
qed

lemma toy_drop:
  "insert_entry (toy_services toy_content) controlStream ''7-1'' (toy_content controlStream ''7-1'') w = (None, w)"
  by (simp add: insert_entry_def toy_content_def field_def)

lemma toy_ack:
  "x_ack (toy_services toy_content) s i w = (None, w\<lparr>t_pend := filter (\<lambda>x. snd x \<noteq> (s, i)) (t_pend w)\<rparr>)"
  by (simp add: toy_services_def)

lemma toy_read_new:
  "x_read_group (toy_services toy_content) c ''>'' toy_start =
     (Read_Ok (toy_reply toy_content (t_new toy_start)),
      toy_start\<lparr>t_new := [], t_pend := map (Pair c) (t_new toy_start), t_ever := t_new toy_start\<rparr>)"
  by (simp add: toy_services_def toy_start_def toy_fresh_def toy_valid_def)

lemma toy_step_new: "archiver_step (toy_services toy_content) c ''>'' toy_start = (2, None, toy_done)"
  by (simp add: archiver_step_def toy_read_new)
    (simp add: toy_reply_def toy_start_def toy_valid_def toy_insert toy_drop toy_ack toy_done_def
      insert_row_def toy_row_def numeral_2_eq_2)

lemma toy_step_history: "archiver_step (toy_services toy_content) c ''0'' toy_start = (0, None, toy_start)"
  by (simp add: archiver_step_def toy_services_def toy_reply_def toy_start_def toy_pending_def)

lemma toy_reads: "archiver_loop (toy_services toy_content) c 2 ''0'' toy_start = (''>'', toy_done)"
  by (simp add: numeral_2_eq_2 toy_step_history toy_step_new next_cursor_def)

text \<open>An entry whose row is refused fails without an effect, and it is reached through streams without
  messages.\<close>

lemma refused_insert:
  assumes "clock_law svc vw" "entry_row (parse_float svc) s i v 0 \<noteq> None"
    "\<And>t row u. entry_row (parse_float svc) s i v t = Some row \<Longrightarrow>
      \<exists>e u'. exec_insert svc row u = (Some e, u') \<and> same_world vw u u'"
  shows "\<exists>e w'. insert_entry svc s i v w = (Some e, w') \<and> same_world vw w w'"
proof -
  obtain t w1 where t: "ts svc i v w = (t, w1)" by fastforce
  from ts_cases [OF assms(1) t] have s1: "same_world vw w w1" by blast
  obtain row where row: "entry_row (parse_float svc) s i v t = Some row"
    using assms(2) entry_row_none [of "parse_float svc" s i v t 0] by fastforce
  from assms(3) [OF row] obtain e w' where "exec_insert svc row w1 = (Some e, w')" "same_world vw w1 w'" by blast
  with s1 assms(2) t row show ?thesis by (auto simp: insert_entry_eq same_world_def)
qed

lemma step_streams_skip:
  "\<forall>q \<in> set pre. s_messages q = [] \<Longrightarrow> step_streams svc (pre @ ss) n w = step_streams svc ss n w"
  by (induction pre) simp_all

section \<open>Properties\<close>

text \<open>C8. No entry is lost: from a good archive, after any number of turns of a consumer and whatever
  reads, inserts and acknowledgements fail, every entry ever delivered is still pending for some
  consumer or settled (in its table, malformed, or trimmed by Redis before it was read), and no row is
  ever lost. While the consumer follows new entries nothing is pending for it, so all are settled
  when no other consumer of the group had anything pending; other consumers get no new pending
  entries.\<close>

theorem no_entry_lost:
  assumes "service_laws svc vw content trimmed" "archive_ok svc vw content trimmed w"
    and "archiver_loop svc c k ''0'' w = (cursor, w')"
  shows "(\<forall>s i. (s, i) \<in> ever vw w' \<longrightarrow>
      (\<exists>d. (s, i) \<in> pend vw w' d) \<or> settled (parse_float svc) content trimmed (tabs vw w') s i) \<and>
    (cursor = ''>'' \<longrightarrow> pend vw w' c = {}) \<and>
    (cursor = ''>'' \<and> (\<forall>d. d \<noteq> c \<longrightarrow> pend vw w d = {}) \<longrightarrow>
      (\<forall>s i. (s, i) \<in> ever vw w' \<longrightarrow> settled (parse_float svc) content trimmed (tabs vw w') s i)) \<and>
    (\<forall>d. d \<noteq> c \<longrightarrow> pend vw w' d \<subseteq> pend vw w d) \<and>
    ever vw w \<subseteq> ever vw w' \<and> tabs vw w \<subseteq>\<^sub>m tabs vw w'"
proof -
  have r: "archive_ok svc vw content trimmed w'" "cursor_ok vw c cursor w'" "turn_frame vw c w w'"
    using archiver_loop_ok [OF assms(1,2) _ assms(3)] by (auto simp: cursor_ok_def)
  have others: "pend vw w' d \<subseteq> pend vw w d" if "d \<noteq> c" for d
    using r(3) that by (simp add: turn_frame_def)
  have kept: "(\<exists>d. (s, i) \<in> pend vw w' d) \<or> settled (parse_float svc) content trimmed (tabs vw w') s i"
    if "(s, i) \<in> ever vw w'" for s i using r(1) that by (simp add: archive_ok_def)
  have live: "pend vw w' c = {}" if "cursor = ''>''" using r(2) that by (simp add: cursor_ok_def)
  have none: "pend vw w' d = {}" if "cursor = ''>''" "\<forall>d. d \<noteq> c \<longrightarrow> pend vw w d = {}" for d
    using live others [of d] that by (cases "d = c") auto
  have "settled (parse_float svc) content trimmed (tabs vw w') s i"
    if "cursor = ''>''" "\<forall>d. d \<noteq> c \<longrightarrow> pend vw w d = {}" "(s, i) \<in> ever vw w'" for s i
    using kept [OF that(3)] none [OF that(1,2)] by simp
  with kept live others r(3) show ?thesis by (simp add: turn_frame_def)
qed

theorem no_entry_lost_witness:
  "settled (parse_float (toy_services toy_content)) toy_content (\<lambda>s i. False) (t_tabs toy_done)
     sensorStream ''7-0'' \<and>
   settled (parse_float (toy_services toy_content)) toy_content (\<lambda>s i. False) (t_tabs toy_done)
     controlStream ''7-1''"
proof -
  have "(sensorStream, ''7-0'') \<in> ever toy_view toy_done" "(controlStream, ''7-1'') \<in> ever toy_view toy_done"
    "pend toy_view toy_start d = {}" "tabs toy_view toy_done = t_tabs toy_done" for d
    by (simp_all add: toy_view_def toy_done_def toy_start_def toy_valid_def toy_pending_def)
  with no_entry_lost [OF toy_laws toy_start_ok toy_reads, of "\<lambda>s i. False" "''host''"] show ?thesis by simp
qed

text \<open>The replay at the start covers the entries of the consumer's own name only, which is the name of
  the host. Entries that another consumer of the group was given and did not acknowledge, such as those
  of the same archiver under an earlier host name, are never replayed: they stay pending for that
  consumer, also while the archiver follows new entries.\<close>

theorem other_consumers_not_replayed:
  assumes "service_laws svc vw content trimmed" "archive_ok svc vw content trimmed w" "exclusive vw w"
    and "archiver_loop svc c k ''0'' w = (cursor, w')" "d \<noteq> c"
  shows "pend vw w' d = pend vw w d"
  using archiver_loop_ok [OF assms(1,2) _ assms(4)] assms(3,5) by (simp add: cursor_ok_def turn_frame_def)

definition toy_renamed :: toy where
  "toy_renamed =
     \<lparr>t_new = [], t_pend = [(''old'', sensorStream, ''7-0'')], t_ever = [(sensorStream, ''7-0'')],
      t_tabs = Map.empty\<rparr>"

theorem other_consumers_not_replayed_witness:
  "archiver_loop (toy_services toy_content) ''new'' 2 ''0'' toy_renamed = (''>'', toy_renamed) \<and>
   pend toy_view (snd (archiver_loop (toy_services toy_content) ''new'' 2 ''0'' toy_renamed)) ''old'' =
     {(sensorStream, ''7-0'')}"
proof -
  have h: "archiver_step (toy_services toy_content) ''new'' ''0'' toy_renamed = (0, None, toy_renamed)"
    by (simp add: archiver_step_def toy_services_def toy_reply_def toy_renamed_def toy_pending_def)
  have l: "archiver_step (toy_services toy_content) ''new'' ''>'' toy_renamed = (0, None, toy_renamed)"
    by (simp add: archiver_step_def toy_services_def toy_fresh_def toy_renamed_def)
  have r: "archiver_loop (toy_services toy_content) ''new'' 2 ''0'' toy_renamed = (''>'', toy_renamed)"
    by (simp add: numeral_2_eq_2 h l next_cursor_def)
  have "archive_ok (toy_services toy_content) toy_view toy_content (\<lambda>s i. False) toy_renamed"
    by (auto simp: archive_ok_def table_sound_def toy_view_def toy_renamed_def toy_pending_def toy_valid_def)
  moreover have "exclusive toy_view toy_renamed"
    by (auto simp: exclusive_def toy_view_def toy_renamed_def toy_pending_def toy_valid_def)
  ultimately have "pend toy_view (snd (archiver_loop (toy_services toy_content) ''new'' 2 ''0'' toy_renamed)) ''old'' =
      pend toy_view toy_renamed ''old''"
    using other_consumers_not_replayed [OF toy_laws _ _ r, of "\<lambda>s i. False" "''old''"] r by simp
  moreover have "pend toy_view toy_renamed ''old'' = {(sensorStream, ''7-0'')}"
    by (auto simp: toy_view_def toy_renamed_def toy_pending_def toy_valid_def)
  ultimately show ?thesis using r by simp
qed

text \<open>C11. The tables hold what the entries say: after any number of turns every row is the row of its
  entry, with the entry's metric or action, value, node and difference, and with the producer's time
  where the entry has one and else the time in its identifier.\<close>

theorem rows_are_entries:
  assumes "service_laws svc vw content trimmed" "archive_ok svc vw content trimmed w"
    and "archiver_loop svc c k ''0'' w = (cursor, w')" "tabs vw w' (s, i, t) = Some r"
  shows "entry_row (parse_float svc) s i (content s i) t = Some r \<and>
    (\<forall>t'. ts_of i (content s i) = Some t' \<longrightarrow> t' = t)"
  using archiver_loop_ok [OF assms(1,2) _ assms(3)] assms(4)
  by (auto simp: cursor_ok_def archive_ok_def table_sound_def)

theorem rows_are_entries_witness:
  "entry_row (parse_float (toy_services toy_content)) sensorStream ''7-0'' (toy_content sensorStream ''7-0'')
     7000000 = Some (Sensor_data 7000000 1 ''ambient'' (Fin 19) ''7-0'')"
  using rows_are_entries [OF toy_laws toy_start_ok toy_reads, of sensorStream "''7-0''" 7000000 toy_row]
  by (simp add: toy_view_def toy_done_def) (simp add: toy_row_def)

text \<open>C27. Replays are idempotent: inserting an entry again whose row is in the table changes no table,
  and an entry with an identifier that Redis makes never has two rows.\<close>

theorem replay_changes_nothing:
  assumes "service_laws svc vw content trimmed" "archive_ok svc vw content trimmed w"
    and "tabs vw w (s, show_nat ms @ ''-'' @ seq, t) = Some r" "ms < 2 ^ 63"
    and "insert_entry svc s (show_nat ms @ ''-'' @ seq) (content s (show_nat ms @ ''-'' @ seq)) w = (err, w')"
  shows "tabs vw w' = tabs vw w \<and> (\<forall>t'. tabs vw w (s, show_nat ms @ ''-'' @ seq, t') \<noteq> None \<longrightarrow> t' = t)"
proof -
  define i where "i = show_nat ms @ ''-'' @ seq"
  have sound: "table_sound (parse_float svc) content (tabs vw w)" using assms(2) by (simp add: archive_ok_def)
  obtain t0 where t0: "ts_of i (content s i) = Some t0" using redis_id_has_time [OF i_def assms(4)] by blast
  have one: "t' = t0" if "tabs vw w (s, i, t') = Some r'" for t' r'
    using sound that t0 unfolding table_sound_def by metis
  have tt: "t = t0" using one assms(3) by (simp add: i_def)
  have r: "entry_row (parse_float svc) s i (content s i) t = Some r"
    using sound assms(3) by (auto simp: table_sound_def i_def)
  have "ts svc i (content s i) w = (t, w)" by (simp add: ts_eq t0 tt)
  then have ex: "exec_insert svc r w = (err, w')"
    using assms(5) r entry_row_none [of "parse_float svc" s i "content s i" 0 t]
    by (fold i_def) (auto simp: insert_entry_eq split: option.splits)
  have "exec_law svc vw" using assms(1) by (simp add: service_laws_def)
  from exec_cases [OF this ex] have "tabs vw w' = insert_row r (tabs vw w) \<or> tabs vw w' = tabs vw w" by blast
  moreover have "insert_row r (tabs vw w) = tabs vw w"
    using assms(3) entry_row_key [OF r] by (intro archive_table.ins_old) (simp add: i_def)
  ultimately show ?thesis using one tt by (auto simp: i_def)
qed

theorem replay_changes_nothing_witness:
  "\<exists>w. tabs toy_view w (sensorStream, ''7-0'', 7000000) \<noteq> None \<and>
     tabs toy_view (snd (insert_entry (toy_services toy_content) sensorStream ''7-0''
       (toy_content sensorStream ''7-0'') w)) = tabs toy_view w"
proof -
  have tb: "tabs toy_view toy_done (sensorStream, ''7-0'', 7000000) = Some toy_row"
    by (simp add: toy_view_def toy_done_def)
  have ok: "archive_ok (toy_services toy_content) toy_view toy_content (\<lambda>s i. False) toy_done"
    using archiver_loop_ok [OF toy_laws toy_start_ok _ toy_reads] by (simp add: cursor_ok_def)
  have i: "show_nat 7 @ ''-'' @ ''0'' = ''7-0''" by code_simp
  obtain e w' where ins: "insert_entry (toy_services toy_content) sensorStream ''7-0''
      (toy_content sensorStream ''7-0'') toy_done = (e, w')" by fastforce
  from replay_changes_nothing [OF toy_laws ok, of sensorStream 7 "''0''", unfolded i, OF tb _ ins] tb ins
  show ?thesis by (intro exI [of _ toy_done]) simp
qed

text \<open>C28. A well-formed entry whose row the database refuses stops the archive for good. Whatever its
  stream, an entry that parses (\<open>entry_row\<close> gives a row) is not dropped: when the database refuses its
  row each time, and it is the first entry that the history of the consumer gives, the cursor stays at
  the history, nothing is acknowledged, and no table changes, after any number of turns. \<open>P\<close> is
  what is pending for the consumer; streams before that of the entry may come without messages.\<close>

theorem rejected_row_blocks_archive:
  assumes "service_laws svc vw content trimmed"
    and parses: "entry_row (parse_float svc) s i v 0 \<noteq> None"
    and rejects: "\<And>t row u. entry_row (parse_float svc) s i v t = Some row \<Longrightarrow>
      \<exists>e u'. exec_insert svc row u = (Some e, u') \<and> same_world vw u u'"
    and first: "\<And>u r u'. pend vw u c = P \<Longrightarrow> x_read_group svc c ''0'' u = (r, u') \<Longrightarrow>
      (\<exists>e. r = Read_Err e) \<or>
      (\<exists>pre m ms ss. r = Read_Ok (pre @ \<lparr>s_name = s, s_messages = m # ms\<rparr> # ss) \<and>
         (\<forall>q \<in> set pre. s_messages q = []) \<and> m_id m = i \<and> m_values m = v)"
    and "pend vw w c = P" "archiver_loop svc c k ''0'' w = (cursor, w')"
  shows "cursor = ''0'' \<and> same_world vw w w'"
  using assms(5,6)
proof (induction k arbitrary: w)
  case 0
  then show ?case by (simp add: same_world_def)
next
  case (Suc k)
  obtain r w1 where rd: "x_read_group svc c ''0'' w = (r, w1)" by fastforce
  have s1: "same_world vw w w1" using assms(1) rd by (simp add: service_laws_def history_law_def)
  have "\<exists>n e w2. archiver_step svc c ''0'' w = (n, Some e, w2) \<and> same_world vw w w2"
  proof (cases "\<exists>e. r = Read_Err e")
    case True
    with rd s1 show ?thesis by (auto simp: archiver_step_def)
  next
    case False
    with first [OF Suc.prems(1) rd] obtain pre m ms ss where
      r: "r = Read_Ok (pre @ \<lparr>s_name = s, s_messages = m # ms\<rparr> # ss)" "\<forall>q \<in> set pre. s_messages q = []"
        "m_id m = i" "m_values m = v"
      by blast
    have "clock_law svc vw" using assms(1) by (simp add: service_laws_def)
    from refused_insert [where w = w1, OF this parses] rejects obtain e w3 where
      e: "insert_entry svc s i v w1 = (Some e, w3)" "same_world vw w1 w3" by metis
    from step_streams_skip [of pre svc, OF r(2)] r(3,4) e(1)
    have "step_streams svc (pre @ \<lparr>s_name = s, s_messages = m # ms\<rparr> # ss) 0 w1 = (0, Some e, w3)" by simp
    then have "archiver_step svc c ''0'' w = (0, Some e, w3)" using rd r(1) by (simp add: archiver_step_def)
    with s1 e(2) show ?thesis by (auto simp: same_world_def)
  qed
  then obtain n e w2 where st: "archiver_step svc c ''0'' w = (n, Some e, w2)" "same_world vw w w2" by blast
  then have l: "archiver_loop svc c k ''0'' w2 = (cursor, w')"
    using Suc.prems(2) by (simp add: next_cursor_def)
  have "pend vw w2 c = P" using st(2) Suc.prems(1) by (simp add: same_world_def)
  from Suc.IH [OF this l] st(2) show ?case by (auto simp: same_world_def)
qed

text \<open>A reading of a node, and a control event with a difference, that do not fit 32 bits.\<close>

definition wide_content :: "string \<Rightarrow> string \<Rightarrow> fields" where
  "wide_content s i =
     (if s = sensorStream then [''value'' \<mapsto> ''19'', ''node'' \<mapsto> ''4294967296'']
      else [''action'' \<mapsto> ''HEAT'', ''diff_centi'' \<mapsto> ''4294967296''])"

definition wide_start :: "string \<Rightarrow> toy" where
  "wide_start s =
     \<lparr>t_new = [], t_pend = [(''host'', s, ''7-0'')], t_ever = [(s, ''7-0'')], t_tabs = Map.empty\<rparr>"

lemma wide_row:
  assumes "s = sensorStream \<or> s = controlStream"
  shows "\<exists>row. entry_row (parse_float (toy_services content)) s i (wide_content s i) t = Some row \<and> \<not> row_fits row"
proof -
  have p: "parse_float (toy_services content) ''19'' = Some (fl (of_nat (dec_val ''19'')))"
    by (simp add: toy_services_def is_digit_def)
  have n: "parse_int ''4294967296'' = (4294967296, None)"
    by (simp add: parse_int_def parse_uint_def is_digit_def digit_val_def)
  from assms show ?thesis
    by (elim disjE) (simp_all add: entry_row_def wide_content_def field_def p n int4_def)
qed

theorem rejected_row_blocks_archive_witness:
  "(\<forall>k. fst (archiver_loop (toy_services wide_content) ''host'' k ''0'' (wide_start sensorStream)) = ''0'') \<and>
   (\<forall>k. fst (archiver_loop (toy_services wide_content) ''host'' k ''0'' (wide_start controlStream)) = ''0'')"
proof -
  have "fst (archiver_loop (toy_services wide_content) ''host'' k ''0'' (wide_start s)) = ''0''"
    if s: "s = sensorStream \<or> s = controlStream" for s k
  proof -
    let ?v = "wide_content s ''7-0''" and ?svc = "toy_services wide_content"
    obtain cur w' where l: "archiver_loop ?svc ''host'' k ''0'' (wide_start s) = (cur, w')" by fastforce
    have valid: "toy_valid (s, ''7-0'')" using s by (auto simp: toy_valid_def)
    have old: "(\<exists>e. r = Read_Err e) \<or>
        (\<exists>pre m ms ss. r = Read_Ok (pre @ \<lparr>s_name = s, s_messages = m # ms\<rparr> # ss) \<and>
           (\<forall>q \<in> set pre. s_messages q = []) \<and> m_id m = ''7-0'' \<and> m_values m = ?v)"
      if p: "pend toy_view u ''host'' = {(s, ''7-0'')}"
        and rd: "x_read_group ?svc ''host'' ''0'' u = (r, u')" for u r u'
    proof -
      have "set (filter toy_valid (toy_pending ''host'' u)) = {(s, ''7-0'')}" using p by (simp add: toy_view_def)
      then obtain ks where ks: "filter toy_valid (toy_pending ''host'' u) = (s, ''7-0'') # ks"
        by (cases "filter toy_valid (toy_pending ''host'' u)") (auto simp del: filter_eq_Cons_iff set_filter)
      with rd have "r = Read_Ok ([] @ \<lparr>s_name = s, s_messages = [\<lparr>m_id = ''7-0'', m_values = ?v\<rparr>]\<rparr> #
          map (\<lambda>k. \<lparr>s_name = fst k, s_messages = [\<lparr>m_id = snd k, m_values = wide_content (fst k) (snd k)\<rparr>]\<rparr>) ks)"
        by (simp add: toy_services_def toy_reply_def)
      then show ?thesis by (intro disjI2 exI conjI) auto
    qed
    have rej: "\<exists>e u'. exec_insert ?svc row u = (Some e, u') \<and> same_world toy_view u u'"
      if "entry_row (parse_float ?svc) s ''7-0'' ?v t = Some row" for t row u
      using wide_row [OF s, of wide_content "''7-0''" t] that by (auto simp: toy_services_def same_world_def)
    have parses: "entry_row (parse_float ?svc) s ''7-0'' ?v 0 \<noteq> None"
      using wide_row [OF s, of wide_content "''7-0''" 0] by auto
    have p: "pend toy_view (wide_start s) ''host'' = {(s, ''7-0'')}"
      using valid by (auto simp: toy_view_def wide_start_def toy_pending_def)
    from rejected_row_blocks_archive [OF toy_laws parses rej old p l] show ?thesis by (simp add: l)
  qed
  then show ?thesis by blast
qed

end
