(* ===== verification/Decimal.thy ===== *)
theory Decimal
  imports Pyfloat Pystring
begin

text \<open>
  Numbers as decimal text: Python's format with a fixed number of decimals, which the telemetry of
  \<^verbatim>\<open>host/models/utils.py\<close> uses, and the number such a text denotes, which the law of the
  archiver's parser is stated with. The lemmas are the round trip of a number through its text and the
  error of the rounding to binary64. Negative zero is printed without its sign, since \<open>pyfloat\<close> has
  one zero.
\<close>

section \<open>Formatting and reading\<close>

definition pad_zero :: "nat \<Rightarrow> string \<Rightarrow> string" where
  "pad_zero n s = replicate (n - length s) (CHR ''0'') @ s"

text \<open>The format \<open>.df\<close> of a float: the nearest decimal, ties to even.\<close>

fun format_fixed :: "nat \<Rightarrow> pyfloat \<Rightarrow> string" where
  "format_fixed d (Fin a) =
     (let k = nat (rne (\<bar>a\<bar> * 10 ^ d))
      in (if a < 0 then ''-'' else []) @ show_nat (k div 10 ^ d) @
         (if d = 0 then [] else ''.'' @ pad_zero d (show_nat (k mod 10 ^ d))))"
| "format_fixed d NaN = ''nan''"
| "format_fixed d PInf = ''inf''"
| "format_fixed d NInf = ''-inf''"

text \<open>The number a text with a decimal point denotes.\<close>

definition decimal_value :: "string \<Rightarrow> rat option" where
  "decimal_value s =
     (let neg = (s \<noteq> [] \<and> hd s = CHR ''-'');
          t = (if neg then tl s else s);
          a = before (CHR ''.'') t;
          b = after (CHR ''.'') t
      in if CHR ''.'' \<in> set t \<and> a \<noteq> [] \<and> b \<noteq> [] \<and> list_all is_digit a \<and> list_all is_digit b
         then Some ((if neg then - 1 else 1) * (of_nat (dec_val a) + of_nat (dec_val b) / 10 ^ length b))
         else None)"

section \<open>Rounding errors\<close>

lemma rne_close: "\<bar>of_int (rne x) - x\<bar> \<le> 1 / 2"
proof -
  define f where "f = \<lfloor>x\<rfloor>"
  have "of_int f \<le> x" "x < of_int f + 1" unfolding f_def by linarith+
  moreover have "rne x = f \<and> x - of_int f \<le> 1 / 2 \<or> rne x = f + 1 \<and> 1 / 2 \<le> x - of_int f"
    unfolding rne_def f_def [symmetric] Let_def by (simp split: if_split)
  ultimately show ?thesis by auto
qed

lemma rne_unique: "\<bar>x - of_int k\<bar> < 1 / 2 \<Longrightarrow> rne x = k"
  using rne_close [of x] by linarith

text \<open>The relative error of a double near 1 is below \<open>2 powi (- 53)\<close>: half a unit in the last place.\<close>

lemma quantum_upper:
  assumes "\<bar>x\<bar> < 2 powi e" "- 1021 \<le> e" "x \<noteq> 0"
  shows "quantum x \<le> 2 powi (e - 53)"
proof -
  from assms(3) have "2 powi ilog2 \<bar>x\<bar> \<le> \<bar>x\<bar>" using ilog2_bounds [of "\<bar>x\<bar>"] by simp
  with assms(1) have "(2 :: rat) powi ilog2 \<bar>x\<bar> < 2 powi e" by linarith
  then have "ilog2 \<bar>x\<bar> < e" by (rule powi_less_imp_less)
  with assms(2) show ?thesis unfolding quantum_def by (intro power_int_increasing) auto
qed

lemma fl_val_close:
  assumes "\<bar>x\<bar> < 2 powi e" "- 1021 \<le> e"
  shows "\<bar>fl_val x - x\<bar> \<le> 2 powi (e - 53) / 2"
proof (cases "x = 0")
  case False
  have "quantum x \<noteq> 0" using quantum_pos [of x] by linarith
  then have "fl_val x - x = (of_int (rne (x / quantum x)) - x / quantum x) * quantum x"
    by (simp add: fl_val_def left_diff_distrib)
  then have "\<bar>fl_val x - x\<bar> = \<bar>of_int (rne (x / quantum x)) - x / quantum x\<bar> * quantum x"
    by (simp only: abs_mult abs_of_pos [OF quantum_pos])
  also have "\<dots> \<le> 1 / 2 * quantum x"
    by (rule mult_right_mono [OF rne_close]) (simp add: less_imp_le)
  finally show ?thesis using quantum_upper [OF assms False] by simp
qed simp

text \<open>Rounding a double gives it back.\<close>

lemma fl_val_fl_val [simp]: "fl_val (fl_val x) = fl_val x"
proof (cases "x = 0")
  case False
  let ?k = "rne (x / quantum x)"
  define e where "e = max (ilog2 \<bar>x\<bar>) (- 1022)"
  have q: "quantum x = 2 powi (e - 52)" by (simp add: quantum_def e_def)
  have "\<bar>x\<bar> < 2 powi (ilog2 \<bar>x\<bar> + 1)" using ilog2_bounds [of "\<bar>x\<bar>"] False by simp
  also have "\<dots> \<le> 2 powi (e + 1)" by (intro power_int_increasing) (auto simp: e_def)
  also have "(2 :: rat) powi (e + 1) = 2 ^ 53 * 2 powi (e - 52)" by (rule powi_shift) simp
  finally have "\<bar>x / quantum x\<bar> < 2 ^ 53" by (simp add: q pos_divide_less_eq)
  then have "- of_int (2 ^ 53) \<le> x / quantum x" "x / quantum x \<le> of_int (2 ^ 53)"
    unfolding abs_less_iff by simp_all
  from rne_mono [OF this(1)] rne_mono [OF this(2)] have k: "\<bar>?k\<bar> \<le> 2 ^ 53"
    using rne_of_int [of "- (2 ^ 53)"] rne_of_int [of "2 ^ 53"] by simp
  have "fl_val x = of_int ?k * 2 powi (e - 52)" by (simp add: fl_val_def q)
  then show ?thesis by (rule fl_val_dyadic [OF _ k]) (simp add: e_def)
qed simp

lemma fl_fl: "fl x = Fin a \<Longrightarrow> fl a = Fin a"
  by (auto simp: fl_eq split: if_splits)

lemma fl_Fin: "\<bar>x\<bar> < 2 powi 1023 \<Longrightarrow> fl x = Fin (fl_val x)"
proof -
  assume "\<bar>x\<bar> < 2 powi 1023"
  then have "\<bar>fl_val x - x\<bar> \<le> 2 powi (1023 - 53) / 2" by (rule fl_val_close) simp
  also have "\<dots> < 2 powi 1023" by simp
  finally have "\<bar>fl_val x\<bar> < 2 ^ 1024" using \<open>\<bar>x\<bar> < 2 powi 1023\<close> by simp
  then show ?thesis by (auto simp: fl_eq)
qed

section \<open>Round trip\<close>

lemma dec_val_zeros [simp]: "dec_val (replicate n (CHR ''0'') @ s) = dec_val s"
  by (induction n) (simp_all add: dec_val_Cons digit_val_def)

lemma pad_zero_digits: "\<forall>c \<in> set s. is_digit c \<Longrightarrow> list_all is_digit (pad_zero n s)"
  by (auto simp: pad_zero_def list_all_iff is_digit_def)

lemma length_pad_zero: "length s \<le> n \<Longrightarrow> length (pad_zero n s) = n"
  by (simp add: pad_zero_def)

lemma digits_no_point: "list_all is_digit s \<Longrightarrow> CHR ''.'' \<notin> set s"
  by (auto simp: list_all_iff is_digit_def)

text \<open>The decimal a finite float is printed as.\<close>

definition rounded_to :: "nat \<Rightarrow> rat \<Rightarrow> rat" where
  "rounded_to d a = of_int (rne (a * 10 ^ d)) / 10 ^ d"

lemma rounded_to_close: "\<bar>rounded_to d a - a\<bar> \<le> 1 / (2 * 10 ^ d)"
proof -
  have "rounded_to d a - a = (of_int (rne (a * 10 ^ d)) - a * 10 ^ d) / 10 ^ d"
    by (simp add: rounded_to_def field_simps)
  then have "\<bar>rounded_to d a - a\<bar> = \<bar>of_int (rne (a * 10 ^ d)) - a * 10 ^ d\<bar> / 10 ^ d"
    by simp
  also have "\<dots> \<le> 1 / 2 / 10 ^ d" by (intro divide_right_mono rne_close) simp
  finally show ?thesis by simp
qed

lemma decimal_value_parts:
  assumes "a \<noteq> []" "b \<noteq> []" "list_all is_digit a" "list_all is_digit b"
  shows "decimal_value (a @ ''.'' @ b) = Some (of_nat (dec_val a) + of_nat (dec_val b) / 10 ^ length b)"
    and "decimal_value (''-'' @ a @ ''.'' @ b) = Some (- (of_nat (dec_val a) + of_nat (dec_val b) / 10 ^ length b))"
proof -
  have "hd a \<noteq> CHR ''-''" using assms(1,3) by (cases a) (auto simp: is_digit_def)
  with assms digits_no_point [OF assms(3)]
  show "decimal_value (a @ ''.'' @ b) = Some (of_nat (dec_val a) + of_nat (dec_val b) / 10 ^ length b)"
    "decimal_value (''-'' @ a @ ''.'' @ b) = Some (- (of_nat (dec_val a) + of_nat (dec_val b) / 10 ^ length b))"
    by (simp_all add: decimal_value_def Let_def)
qed

lemma decimal_value_format:
  assumes "0 < d"
  shows "decimal_value (format_fixed d (Fin a)) = Some (rounded_to d a)"
proof -
  define k where "k = nat (rne (\<bar>a\<bar> * 10 ^ d))"
  have "0 \<le> rne (\<bar>a\<bar> * 10 ^ d)" using rne_mono [of 0 "\<bar>a\<bar> * 10 ^ d"] rne_of_int [of 0] by simp
  then have k: "rne (\<bar>a\<bar> * 10 ^ d) = int k" by (simp add: k_def)
  let ?i = "show_nat (k div 10 ^ d)" and ?f = "pad_zero d (show_nat (k mod 10 ^ d))"
  have lf: "length ?f = d"
    by (rule length_pad_zero) (simp add: length_show_nat assms)
  have vf: "dec_val ?f = k mod 10 ^ d" by (simp add: pad_zero_def)
  have df: "list_all is_digit ?f" by (rule pad_zero_digits) (simp add: show_nat_digits)
  have di: "list_all is_digit ?i" by (simp add: list_all_iff show_nat_digits)
  define i f where "i = k div 10 ^ d" and "f = k mod 10 ^ d"
  have "i * 10 ^ d + f = k" unfolding i_def f_def by (rule div_mult_mod_eq)
  then have "(of_nat (i * 10 ^ d + f) :: rat) = of_nat k" by (rule arg_cong)
  then have v: "of_nat (k div 10 ^ d) + of_nat (k mod 10 ^ d) / 10 ^ d = (of_nat k / 10 ^ d :: rat)"
    unfolding i_def [symmetric] f_def [symmetric] by (simp add: field_simps)
  have "?f \<noteq> []" using lf assms by auto
  note parts = decimal_value_parts [OF show_nat_nonempty this di df, unfolded vf lf dec_val_show_nat v]
  have f: "format_fixed d (Fin a) = (if a < 0 then ''-'' else []) @ ?i @ ''.'' @ ?f"
    using assms by (simp add: k_def Let_def)
  show ?thesis
  proof (cases "a < 0")
    case True
    then have "rne (a * 10 ^ d) = - int k" using rne_minus [of "- a * 10 ^ d"] k by simp
    with True parts show ?thesis by (simp add: f rounded_to_def del: format_fixed.simps)
  next
    case False
    with k parts show ?thesis by (simp add: f rounded_to_def del: format_fixed.simps)
  qed
qed

text \<open>A decimal that survives binary64: rounding the double nearest to \<open>m / 10 ^ d\<close> to \<open>d\<close> decimals
  gives \<open>m / 10 ^ d\<close> back, below \<open>2 ^ e\<close> with room for the digits.\<close>

lemma rounded_to_fl_val:
  assumes x: "x * 10 ^ d = of_int m" and lt: "\<bar>x\<bar> < 2 powi e" "- 1021 \<le> e"
    and room: "2 powi (e - 53) * 10 ^ d < (1 :: rat)"
  shows "rounded_to d (fl_val x) = x"
proof -
  have "\<bar>fl_val x * 10 ^ d - x * 10 ^ d\<bar> = \<bar>fl_val x - x\<bar> * 10 ^ d"
    by (simp add: abs_mult left_diff_distrib [symmetric])
  also have "\<dots> \<le> 2 powi (e - 53) / 2 * 10 ^ d"
    by (rule mult_right_mono [OF fl_val_close [OF lt]]) simp
  also have "\<dots> < 1 / 2" using room by simp
  finally have "rne (fl_val x * 10 ^ d) = m" by (intro rne_unique) (simp add: x)
  then show ?thesis using x by (simp add: rounded_to_def field_simps)
qed

end
