(* ===== verification/Emitter.thy ===== *)
theory Emitter
  imports Control_Loop Archiver Decimal "HOL-Library.Sublist"
begin

text \<open>
  The telemetry emitter, class \<open>Emitter\<close> of \<^verbatim>\<open>host/models/utils.py\<close>: how an event of the control
  loop becomes the fields of a stream entry or of the state hash, and the best effort with which it is
  sent. The Redis client is a parameter by its answers, the numbering of which is the order of the
  calls. The lemmas say what the archiver makes of an emitted entry.
\<close>

section \<open>The emitter\<close>

text \<open>A field of an entry is an integer or a text; the client library encodes both.\<close>

datatype wire = Wint int | Wstr string

type_synonym wire_fields = "(string \<times> wire) list"

record emitter =
  e_node :: int
  e_client :: bool

text \<open>\<open>from_url\<close> is the constructor of the client, which may raise.\<close>

definition emitter_init ::
  "(string \<Rightarrow> py_error + unit) \<Rightarrow> bool \<Rightarrow> string \<Rightarrow> int \<Rightarrow> py_error + emitter" where
  "emitter_init from_url package_present redis_url node =
     (if redis_url = [] \<or> \<not> package_present then Inr \<lparr>e_node = node, e_client = False\<rparr>
      else case from_url redis_url of
             Inl e \<Rightarrow> Inl e
           | Inr _ \<Rightarrow> Inr \<lparr>e_node = node, e_client = True\<rparr>)"

text \<open>The answer of the server to a call: done, or an exception before or after the effect. The store is
  what the server has of this program, with the number of calls and of readings of the wall clock.\<close>

datatype redis_answer = Answered | Raised_before | Raised_after

record store =
  s_entries :: "(string \<times> wire_fields) list"
  s_hash :: "wire_fields option"
  s_calls :: nat
  s_clock :: nat

definition store_init :: store where
  "store_init = \<lparr>s_entries = [], s_hash = None, s_calls = 0, s_clock = 0\<rparr>"

definition now_ms :: "(nat \<Rightarrow> int) \<Rightarrow> store \<Rightarrow> int \<times> store" where
  "now_ms ns st = (ns (s_clock st) div 1000000, st\<lparr>s_clock := Suc (s_clock st)\<rparr>)"

definition xadd :: "emitter \<Rightarrow> (nat \<Rightarrow> redis_answer) \<Rightarrow> string \<Rightarrow> wire_fields \<Rightarrow> store \<Rightarrow> store" where
  "xadd em srv stream fs st =
     (if \<not> e_client em then st
      else st\<lparr>s_calls := Suc (s_calls st),
              s_entries := (if srv (s_calls st) = Raised_before then s_entries st
                            else s_entries st @ [(stream, fs)])\<rparr>)"

definition SENSOR_STREAM :: string where
  "SENSOR_STREAM = ''telemetry:sensor''"

definition CONTROL_STREAM :: string where
  "CONTROL_STREAM = ''telemetry:control''"

fun act_name :: "act \<Rightarrow> string" where
  "act_name HEAT = ''HEAT''"
| "act_name COOL = ''COOL''"
| "act_name IDLE = ''IDLE''"

definition sensor_fields :: "int \<Rightarrow> int \<Rightarrow> string \<Rightarrow> pyfloat \<Rightarrow> wire_fields" where
  "sensor_fields node ms metric x =
     [(''ts_ms'', Wint ms), (''node'', Wint node), (''metric'', Wstr metric),
      (''value'', Wstr (format_fixed 4 x))]"

definition control_fields ::
  "int \<Rightarrow> act \<Rightarrow> int \<Rightarrow> pyfloat \<Rightarrow> pyfloat \<Rightarrow> pyfloat \<Rightarrow> pyfloat \<Rightarrow> string \<Rightarrow> wire_fields" where
  "control_fields ms a diff eff duty act_s win_s why =
     [(''ts_ms'', Wint ms), (''action'', Wstr (act_name a)), (''diff_centi'', Wint diff),
      (''source'', Wstr ''model''), (''effort'', Wstr (format_fixed 4 eff)),
      (''duty_cycle'', Wstr (format_fixed 4 duty)), (''active_s'', Wstr (format_fixed 1 act_s)),
      (''window_s'', Wstr (format_fixed 1 win_s)), (''reason'', Wstr why)]"

definition state_fields ::
  "int \<Rightarrow> pyfloat \<Rightarrow> pyfloat \<Rightarrow> pyfloat option \<Rightarrow> act \<Rightarrow> pyfloat \<Rightarrow> wire_fields" where
  "state_fields ms amb int_c sg a eff =
     [(''ambient'', Wstr (format_fixed 2 amb)), (''internal'', Wstr (format_fixed 2 int_c)),
      (''sg'', Wstr (case sg of None \<Rightarrow> ''n/a'' | Some g \<Rightarrow> format_fixed 3 g)),
      (''action'', Wstr (act_name a)), (''effort'', Wstr (format_fixed 4 eff)),
      (''updated_ms'', Wint ms)]"

text \<open>The methods \<open>sensor\<close>, \<open>control\<close> and \<open>state\<close>. None of them raises: the client's exceptions are
  caught, and formatting a float cannot fail.\<close>

fun send_event :: "emitter \<Rightarrow> (nat \<Rightarrow> redis_answer) \<Rightarrow> (nat \<Rightarrow> int) \<Rightarrow> event \<Rightarrow> store \<Rightarrow> store" where
  "send_event em srv ns (Sensor_event metric x) st =
     (let (ms, st') = now_ms ns st
      in xadd em srv SENSOR_STREAM (sensor_fields (e_node em) ms metric x) st')"
| "send_event em srv ns (Control_event a diff eff duty act_s win_s why) st =
     (let (ms, st') = now_ms ns st
      in xadd em srv CONTROL_STREAM (control_fields ms a diff eff duty act_s win_s why) st')"
| "send_event em srv ns (State_event amb int_c sg a eff) st =
     (if \<not> e_client em then st
      else let (ms, st') = now_ms ns st
           in st'\<lparr>s_calls := Suc (s_calls st'),
                  s_hash := (if srv (s_calls st') = Raised_before then s_hash st'
                             else Some (state_fields ms amb int_c sg a eff))\<rparr>)"

definition send_events ::
  "emitter \<Rightarrow> (nat \<Rightarrow> redis_answer) \<Rightarrow> (nat \<Rightarrow> int) \<Rightarrow> event list \<Rightarrow> store \<Rightarrow> store" where
  "send_events em srv ns es st = fold (send_event em srv ns) es st"

section \<open>Delivery\<close>

text \<open>An emitter without a client stores nothing; one with a client loses exactly the entries whose call
  raised before it took effect, and keeps the order of the others.\<close>

lemma xadd_simps [simp]:
  "\<not> e_client em \<Longrightarrow> xadd em srv stream fs st = st"
  "e_client em \<Longrightarrow> srv (s_calls st) \<noteq> Raised_before \<Longrightarrow>
     s_entries (xadd em srv stream fs st) = s_entries st @ [(stream, fs)]"
  "e_client em \<Longrightarrow> srv (s_calls st) = Raised_before \<Longrightarrow> s_entries (xadd em srv stream fs st) = s_entries st"
  by (simp_all add: xadd_def)

lemma now_ms_frame [simp]:
  "fst (now_ms ns st) = ns (s_clock st) div 1000000"
  "s_entries (snd (now_ms ns st)) = s_entries st" "s_calls (snd (now_ms ns st)) = s_calls st"
  by (simp_all add: now_ms_def)

text \<open>The entry of an event at a time; \<open>None\<close> for the state, which goes to the hash.\<close>

fun entry_of :: "int \<Rightarrow> int \<Rightarrow> event \<Rightarrow> (string \<times> wire_fields) option" where
  "entry_of node ms (Sensor_event metric x) = Some (SENSOR_STREAM, sensor_fields node ms metric x)"
| "entry_of node ms (Control_event a diff eff duty act_s win_s why) =
     Some (CONTROL_STREAM, control_fields ms a diff eff duty act_s win_s why)"
| "entry_of node ms (State_event amb int_c sg a eff) = None"

definition sent_as :: "int \<Rightarrow> event \<Rightarrow> string \<times> wire_fields \<Rightarrow> bool" where
  "sent_as node e x \<longleftrightarrow> (\<exists>ms. entry_of node ms e = Some x)"

lemma send_event_entries:
  "s_entries (send_event em srv ns e st) = s_entries st \<or>
   (\<exists>x. s_entries (send_event em srv ns e st) = s_entries st @ [x] \<and> sent_as (e_node em) e x)"
  by (cases e) (auto simp: xadd_def now_ms_def sent_as_def)

lemma send_event_lossless:
  assumes "e_client em" "\<And>n. srv n \<noteq> Raised_before"
  shows "if entry_of 0 0 e = None then s_entries (send_event em srv ns e st) = s_entries st
    else (\<exists>x. s_entries (send_event em srv ns e st) = s_entries st @ [x] \<and> sent_as (e_node em) e x)"
  using assms by (cases e) (auto simp: xadd_def now_ms_def sent_as_def)

text \<open>What arrives in the streams is a subsequence of what was emitted, in its order and with its
  content.\<close>

lemma sent_in_order:
  "\<exists>sub new. subseq sub es \<and> list_all2 (sent_as (e_node em)) sub new \<and>
     s_entries (send_events em srv ns es st) = s_entries st @ new"
proof (induction es arbitrary: st)
  case Nil
  then show ?case by (auto simp: send_events_def)
next
  case (Cons e es)
  obtain sub new where rest: "subseq sub es" "list_all2 (sent_as (e_node em)) sub new"
    "s_entries (send_events em srv ns (e # es) st) = s_entries (send_event em srv ns e st) @ new"
    using Cons.IH [of "send_event em srv ns e st"] by (auto simp: send_events_def)
  show ?case
  proof (cases "s_entries (send_event em srv ns e st) = s_entries st")
    case True
    with rest show ?thesis by (intro exI [of _ sub] exI [of _ new]) auto
  next
    case False
    then obtain x where "s_entries (send_event em srv ns e st) = s_entries st @ [x]" "sent_as (e_node em) e x"
      using send_event_entries by blast
    with rest show ?thesis by (intro exI [of _ "e # sub"] exI [of _ "x # new"]) auto
  qed
qed

text \<open>With a server that takes every call, all of it arrives.\<close>

lemma sent_complete:
  assumes "e_client em" "\<And>n. srv n \<noteq> Raised_before"
  shows "\<exists>new. list_all2 (sent_as (e_node em)) (filter (\<lambda>e. entry_of 0 0 e \<noteq> None) es) new \<and>
     s_entries (send_events em srv ns es st) = s_entries st @ new"
proof (induction es arbitrary: st)
  case Nil
  then show ?case by (simp add: send_events_def)
next
  case (Cons e es)
  obtain new where rest: "list_all2 (sent_as (e_node em)) (filter (\<lambda>e. entry_of 0 0 e \<noteq> None) es) new"
    "s_entries (send_events em srv ns (e # es) st) = s_entries (send_event em srv ns e st) @ new"
    using Cons.IH [of "send_event em srv ns e st"] by (auto simp: send_events_def)
  with send_event_lossless [OF assms, where e = e and ns = ns and st = st] show ?case
    by (cases "entry_of 0 0 e = None") fastforce+
qed

lemma sent_as_simps [simp]:
  "sent_as node (Sensor_event m v) x \<longleftrightarrow> (\<exists>ms. x = (SENSOR_STREAM, sensor_fields node ms m v))"
  "sent_as node (Control_event a diff eff duty act_s win_s why) x \<longleftrightarrow>
     (\<exists>ms. x = (CONTROL_STREAM, control_fields ms a diff eff duty act_s win_s why))"
  by (auto simp: sent_as_def)

text \<open>The action the last control entry names.\<close>

definition stream_action :: "(string \<times> wire_fields) list \<Rightarrow> string option" where
  "stream_action es =
     fold (\<lambda>(s, fs) a. case (s = CONTROL_STREAM, map_of fs ''action'') of
              (True, Some (Wstr x)) \<Rightarrow> Some x | _ \<Rightarrow> a) es None"

lemma streams_apart [simp]: "SENSOR_STREAM \<noteq> CONTROL_STREAM"
  by (simp add: SENSOR_STREAM_def CONTROL_STREAM_def)

lemma fold_stream_action:
  "list_all2 (sent_as node) (filter (\<lambda>e. entry_of 0 0 e \<noteq> None) es) new \<Longrightarrow>
   fold (\<lambda>(s, fs) a. case (s = CONTROL_STREAM, map_of fs ''action'') of
           (True, Some (Wstr x)) \<Rightarrow> Some x | _ \<Rightarrow> a) new (map_option act_name b) =
   map_option act_name (fold (\<lambda>e a. case e of Control_event b _ _ _ _ _ _ \<Rightarrow> Some b | _ \<Rightarrow> a) es b)"
proof (induction es arbitrary: new b)
  case Nil
  then show ?case by simp
next
  case (Cons e es)
  show ?case
  proof (cases e)
    case (Control_event a diff eff duty act_s win_s why)
    with Cons.prems obtain ms new' where new: "new = (CONTROL_STREAM, control_fields ms a diff eff duty act_s win_s why) # new'"
      "list_all2 (sent_as node) (filter (\<lambda>e. entry_of 0 0 e \<noteq> None) es) new'"
      by (auto simp: list_all2_Cons1 simp del: not_None_eq)
    from Cons.IH [OF new(2), of "Some a"] show ?thesis by (simp add: new(1) Control_event control_fields_def)
  next
    case (Sensor_event m x)
    with Cons.prems obtain ms new' where new: "new = (SENSOR_STREAM, sensor_fields node ms m x) # new'"
      "list_all2 (sent_as node) (filter (\<lambda>e. entry_of 0 0 e \<noteq> None) es) new'"
      by (auto simp: list_all2_Cons1 simp del: not_None_eq)
    from Cons.IH [OF new(2), of b] show ?thesis by (simp add: new(1) Sensor_event)
  next
    case (State_event x y g a v)
    with Cons.prems Cons.IH [of new b] show ?thesis by simp
  qed
qed

lemma stream_action_told:
  assumes "e_client em" "\<And>n. srv n \<noteq> Raised_before"
  shows "stream_action (s_entries (send_events em srv ns (telemetry l) store_init)) = map_option act_name (told l)"
proof -
  obtain new where "list_all2 (sent_as (e_node em)) (filter (\<lambda>e. entry_of 0 0 e \<noteq> None) (telemetry l)) new"
    "s_entries (send_events em srv ns (telemetry l) store_init) = new"
    using sent_complete [where srv = srv, OF assms, where es = "telemetry l" and ns = ns and st = store_init] by (auto simp: store_init_def)
  with fold_stream_action [of "e_node em" "telemetry l" new None] show ?thesis
    by (simp add: stream_action_def told_def)
qed

section \<open>What the archiver makes of an entry\<close>

text \<open>What the client library does with the fields: integers as decimal text, texts as they are.\<close>

definition redis_encoding :: "(wire \<Rightarrow> string) \<Rightarrow> bool" where
  "redis_encoding enc \<longleftrightarrow> (\<forall>k. enc (Wint k) = show_int k) \<and> (\<forall>s. enc (Wstr s) = s)"

definition delivered :: "(wire \<Rightarrow> string) \<Rightarrow> wire_fields \<Rightarrow> fields" where
  "delivered enc fs = map_of (map (\<lambda>(k, v). (k, enc v)) fs)"

text \<open>What the parser of floats does with the texts the emitter makes: decimals in range go to the
  nearest double, and the names of the values that are not finite are known.\<close>

definition float_law :: "(string \<Rightarrow> pyfloat option) \<Rightarrow> bool" where
  "float_law pf \<longleftrightarrow>
     (\<forall>s v a. decimal_value s = Some v \<and> fl v = Fin a \<longrightarrow> pf s = Some (Fin a)) \<and>
     pf ''nan'' = Some NaN \<and> pf ''inf'' = Some PInf \<and> pf ''-inf'' = Some NInf"

text \<open>The value that is archived for an emitted one.\<close>

fun archived_value :: "pyfloat \<Rightarrow> pyfloat" where
  "archived_value (Fin a) = fl (rounded_to 4 a)"
| "archived_value x = x"

definition in_range :: "pyfloat \<Rightarrow> bool" where
  "in_range x \<longleftrightarrow> (\<forall>a. x = Fin a \<longrightarrow> \<bar>a\<bar> < 2 powi 1022)"

lemma parse_format:
  assumes "float_law pf" "in_range x"
  shows "pf (format_fixed 4 x) = Some (archived_value x)"
proof (cases x)
  case (Fin a)
  with assms(2) have "\<bar>a\<bar> < 2 powi 1022" by (simp add: in_range_def)
  moreover have "(2 :: rat) powi 1022 + 1 / (2 * 10 ^ 4) < 2 powi 1023" by simp
  ultimately have "\<bar>rounded_to 4 a\<bar> < 2 powi 1023" using rounded_to_close [of 4 a] by linarith
  from fl_Fin [OF this] assms(1) decimal_value_format [of 4 a] show ?thesis
    by (simp add: Fin float_law_def del: format_fixed.simps)
qed (use assms(1) in \<open>simp_all add: float_law_def\<close>)

lemma streams_eq: "SENSOR_STREAM = sensorStream" "CONTROL_STREAM = controlStream"
  by (simp_all add: SENSOR_STREAM_def sensorStream_def CONTROL_STREAM_def controlStream_def)

text \<open>The identifiers and times of the examples keep within 63 bits, as the wall clock does.\<close>

lemma ts_emitted:
  assumes "redis_encoding enc" "\<bar>ms\<bar> < 2 ^ 63"
  shows "ts svc i (delivered enc ((''ts_ms'', Wint ms) # fs)) w = (ms * 1000000, w)"
  using assms parse_int_show_int [OF assms(2)]
  by (simp add: ts_def delivered_def field_def redis_encoding_def unix_milli_def)

lemma insert_sensor:
  assumes "redis_encoding enc" "float_law (parse_float svc)" "\<bar>ms\<bar> < 2 ^ 63" "\<bar>node\<bar> < 2 ^ 63" "in_range x"
  shows "insert_entry svc sensorStream i (delivered enc (sensor_fields node ms metric x)) w =
    exec_insert svc (Sensor_data (ms * 1000000) node metric (archived_value x) i) w"
proof -
  let ?v = "delivered enc (sensor_fields node ms metric x)"
  have f: "field ?v ''value'' = format_fixed 4 x" "field ?v ''node'' = show_int node" "field ?v ''metric'' = metric"
    using assms(1) by (simp_all add: delivered_def sensor_fields_def field_def redis_encoding_def del: format_fixed.simps)
  have t: "ts svc i ?v w = (ms * 1000000, w)" unfolding sensor_fields_def by (rule ts_emitted [OF assms(1,3)])
  show ?thesis
    by (simp add: insert_entry_def f t parse_format [OF assms(2,5)] parse_int_show_int [OF assms(4)]
        del: format_fixed.simps)
qed

lemma act_name_nonempty [simp]: "act_name a \<noteq> []"
  by (cases a) simp_all

lemma insert_control:
  assumes "redis_encoding enc" "\<bar>ms\<bar> < 2 ^ 63" "\<bar>diff\<bar> < 2 ^ 63"
  shows "insert_entry svc controlStream i (delivered enc (control_fields ms a diff eff duty act_s win_s why)) w =
    exec_insert svc (Control_events (ms * 1000000) (act_name a) (Some diff)
      (delivered enc (control_fields ms a diff eff duty act_s win_s why)) i) w"
proof -
  let ?v = "delivered enc (control_fields ms a diff eff duty act_s win_s why)"
  have f: "field ?v ''action'' = act_name a" "field ?v ''diff_centi'' = show_int diff"
    using assms(1) by (simp_all add: delivered_def control_fields_def field_def redis_encoding_def del: format_fixed.simps)
  have t: "ts svc i ?v w = (ms * 1000000, w)" unfolding control_fields_def by (rule ts_emitted [OF assms(1,2)])
  show ?thesis
    by (simp add: insert_entry_def f t parse_int_show_int [OF assms(3)] del: format_fixed.simps)
qed

section \<open>Properties\<close>

text \<open>C25. The emitter and the archiver agree on the format of an entry. When the server takes the call,
  one entry arrives, and the archiver turns it into exactly one insert: for a reading the node, the
  metric and the time of the emitter and the value rounded to four decimals, at most 0.00005 away; for
  a control event the action and the difference. No entry that the emitter makes is dropped as
  malformed, also when a value is not a number.\<close>

theorem emitted_entries_inserted:
  assumes "redis_encoding enc" "float_law (parse_float svc)"
    and "e_client em" "srv (s_calls st) \<noteq> Raised_before"
    and "ms = ns (s_clock st) div 1000000" "\<bar>ms\<bar> < 2 ^ 63" "\<bar>e_node em\<bar> < 2 ^ 63" "in_range x" "\<bar>diff\<bar> < 2 ^ 63"
  shows "(\<exists>fs. s_entries (send_event em srv ns (Sensor_event metric x) st) = s_entries st @ [(sensorStream, fs)] \<and>
       insert_entry svc sensorStream i (delivered enc fs) w =
         exec_insert svc (Sensor_data (ms * 1000000) (e_node em) metric (archived_value x) i) w) \<and>
    (\<exists>fs. s_entries (send_event em srv ns (Control_event a diff eff duty act_s win_s why) st) =
         s_entries st @ [(controlStream, fs)] \<and>
       insert_entry svc controlStream i (delivered enc fs) w =
         exec_insert svc (Control_events (ms * 1000000) (act_name a) (Some diff) (delivered enc fs) i) w) \<and>
    (\<exists>q. \<bar>q - r\<bar> \<le> 1 / 20000 \<and> archived_value (Fin r) = fl q)"
proof (intro conjI)
  show "\<exists>fs. s_entries (send_event em srv ns (Sensor_event metric x) st) = s_entries st @ [(sensorStream, fs)] \<and>
      insert_entry svc sensorStream i (delivered enc fs) w =
        exec_insert svc (Sensor_data (ms * 1000000) (e_node em) metric (archived_value x) i) w"
    using assms(3,4,5) insert_sensor [OF assms(1,2,6-8)]
    by (intro exI [of _ "sensor_fields (e_node em) ms metric x"]) (simp add: xadd_def now_ms_def streams_eq)
  show "\<exists>fs. s_entries (send_event em srv ns (Control_event a diff eff duty act_s win_s why) st) =
        s_entries st @ [(controlStream, fs)] \<and>
      insert_entry svc controlStream i (delivered enc fs) w =
        exec_insert svc (Control_events (ms * 1000000) (act_name a) (Some diff) (delivered enc fs) i) w"
    using assms(3,4,5) insert_control [OF assms(1,6,9)]
    by (intro exI [of _ "control_fields ms a diff eff duty act_s win_s why"]) (simp add: xadd_def now_ms_def streams_eq)
  show "\<exists>q. \<bar>q - r\<bar> \<le> 1 / 20000 \<and> archived_value (Fin r) = fl q"
    using rounded_to_close [of 4 r] by auto
qed

text \<open>A parser and an encoding that keep the laws.\<close>

definition demo_parse_float :: "string \<Rightarrow> pyfloat option" where
  "demo_parse_float s =
     (if s = ''nan'' then Some NaN else if s = ''inf'' then Some PInf else if s = ''-inf'' then Some NInf
      else map_option fl (decimal_value s))"

fun demo_encoding :: "wire \<Rightarrow> string" where
  "demo_encoding (Wint k) = show_int k"
| "demo_encoding (Wstr s) = s"

definition demo_services :: "toy services" where
  "demo_services = (toy_services toy_content)\<lparr>parse_float := demo_parse_float\<rparr>"

lemma demo_encoding_ok: "redis_encoding demo_encoding"
  by (simp add: redis_encoding_def)

lemma demo_float_law: "float_law demo_parse_float"
proof -
  have "decimal_value ''nan'' = None" "decimal_value ''inf'' = None" "decimal_value ''-inf'' = None"
    by (simp_all add: decimal_value_def Let_def)
  then have "demo_parse_float s = Some (Fin a)" if "decimal_value s = Some v" "fl v = Fin a" for s v a
    using that by (auto simp: demo_parse_float_def)
  moreover have "demo_parse_float ''nan'' = Some NaN" "demo_parse_float ''inf'' = Some PInf"
    "demo_parse_float ''-inf'' = Some NInf" by (simp_all add: demo_parse_float_def)
  ultimately show ?thesis by (auto simp: float_law_def)
qed

theorem emitted_entries_inserted_witness:
  "\<exists>fs. s_entries (send_event \<lparr>e_node = 1, e_client = True\<rparr> (\<lambda>n. Raised_after) (\<lambda>n. 7000000)
        (Sensor_event ''ambient'' NaN) store_init) = [(sensorStream, fs)] \<and>
     snd (insert_entry demo_services sensorStream ''7-0'' (delivered demo_encoding fs) toy_start) =
       toy_start\<lparr>t_tabs := [(sensorStream, ''7-0'', 7000000) \<mapsto> Sensor_data 7000000 1 ''ambient'' NaN ''7-0'']\<rparr>"
proof -
  have pf: "float_law (parse_float demo_services)" using demo_float_law by (simp add: demo_services_def)
  let ?em = "\<lparr>e_node = 1, e_client = True\<rparr>" and ?srv = "\<lambda>n. Raised_after" and ?ns = "\<lambda>n. 7000000"
  have "in_range NaN" by (simp add: in_range_def)
  then have "\<exists>fs. s_entries (send_event ?em ?srv ?ns (Sensor_event ''ambient'' NaN) store_init) =
        s_entries store_init @ [(sensorStream, fs)] \<and>
      insert_entry demo_services sensorStream ''7-0'' (delivered demo_encoding fs) toy_start =
        exec_insert demo_services (Sensor_data (7 * 1000000) (e_node ?em) ''ambient'' (archived_value NaN) ''7-0'')
          toy_start"
    by (intro conjunct1 [OF emitted_entries_inserted [OF demo_encoding_ok pf, where diff = 0]]) simp_all
  then obtain fs where fs: "s_entries (send_event ?em ?srv ?ns (Sensor_event ''ambient'' NaN) store_init) =
        [(sensorStream, fs)]"
    "insert_entry demo_services sensorStream ''7-0'' (delivered demo_encoding fs) toy_start =
       exec_insert demo_services (Sensor_data 7000000 1 ''ambient'' NaN ''7-0'') toy_start"
    by (auto simp: store_init_def simp del: send_event.simps)
  then show ?thesis
    by (intro exI [of _ fs]) (simp add: demo_services_def toy_services_def toy_start_def insert_row_def int4_def
        del: send_event.simps)
qed

text \<open>C18. The stream never misreports the actuator: with a server that takes every call, after any
  number of turns, and after the shutdown too, the last control entry names the action the actuator
  is in.\<close>

theorem stream_tells_action:
  assumes "start cfg w c = (Inr now, l0)" "e_client em" "\<And>n. srv n \<noteq> Raised_before"
    and "l = snd (loop_turns cfg tc w k now l0) \<or> l = snd (run_loop cfg tc w k c)"
  shows "stream_action (s_entries (send_events em srv ns (telemetry l) store_init)) =
    Some (act_name (a_action (l_act l)))"
  using telemetry_tells_action [OF assms(1), of tc k] assms(4)
  by (auto simp: stream_action_told [where srv = srv, OF assms(2,3)])

theorem stream_tells_action_witness:
  "\<exists>l. l = snd (run_loop demo_config demo_tool (null_world (Fin 0)) 2 demo_chip) \<and>
     stream_action (s_entries (send_events \<lparr>e_node = 1, e_client = True\<rparr> (\<lambda>n. Answered) (\<lambda>n. 7) (telemetry l) store_init)) =
     Some (act_name (a_action (l_act l)))"
  using stream_tells_action [OF demo_start, of "\<lparr>e_node = 1, e_client = True\<rparr>" "\<lambda>n. Answered", OF _ _ disjI2 [OF refl]]
  by simp

end
