(* ===== verification/End_To_End.thy ===== *)
theory End_To_End
  imports App_Task Emitter
begin

text \<open>
  The path of a measurement through all programs: the attribute store that the firmware of \<open>App_Task\<close>
  writes, \<open>chip-tool\<close> printing an attribute, the reading of \<open>Control_Loop\<close>, the entry of \<open>Emitter\<close> and
  the insert of \<open>Archiver\<close>. What the tool does is a law on its runs (\<open>tool_reads\<close>). The lemmas show
  that nothing is lost on the way, although the value is scaled, rounded to binary64, printed with four
  decimals and rounded again, and that a null attribute ends the update with nothing emitted.
\<close>

section \<open>The tool reads the store\<close>

fun cluster_name :: "cluster \<Rightarrow> string" where
  "cluster_name TemperatureMeasurement = ''temperaturemeasurement''"
| "cluster_name RelativeHumidityMeasurement = ''relativehumiditymeasurement''"

text \<open>\<open>MeasuredValue\<close> is signed in the first cluster and unsigned in the second.\<close>

fun attr_int :: "cluster \<Rightarrow> 16 word \<Rightarrow> int" where
  "attr_int TemperatureMeasurement v = sint v"
| "attr_int RelativeHumidityMeasurement v = uint v"

definition read_command :: "tool_config \<Rightarrow> cluster \<Rightarrow> int \<Rightarrow> nat \<Rightarrow> string list" where
  "read_command tc cl node ep =
     chip_tool tc # [cluster_name cl, ''read'', ''measured-value'', show_int node, show_int (int ep)] @
       [''--storage-directory'', storage_dir tc]"

text \<open>A successful read prints the value behind its tag, and \<open>null\<close> for a null; no other value is
  printed after it, and none at all with a null.\<close>

definition prints_value :: "string \<Rightarrow> int \<Rightarrow> bool" where
  "prints_value out k \<longleftrightarrow>
     (\<exists>pre sp post. out = pre @ MEASURED_TAG @ sp @ show_int k @ post \<and> (\<forall>c \<in> set sp. is_space c) \<and>
        (case post of [] \<Rightarrow> True | c # _ \<Rightarrow> \<not> is_digit c) \<and> measured_findall post = [])"

definition prints_null :: "string \<Rightarrow> bool" where
  "prints_null out \<longleftrightarrow>
     (\<exists>pre post. out = pre @ MEASURED_TAG @ '' null'' @ post \<and> measured_findall pre = [] \<and>
        measured_findall post = [])"

definition tool_reads ::
  "tool_config \<Rightarrow> (string list \<Rightarrow> int \<Rightarrow> proc) \<Rightarrow> int \<Rightarrow> attr_store \<Rightarrow> bool" where
  "tool_reads tc spawn node st \<longleftrightarrow>
     (\<forall>cl ep v. st (cl, ep) = Some v \<longrightarrow>
        (\<exists>out err. spawn (read_command tc cl node ep) (chip_timeout_s tc) = Completed 0 out err \<and>
           (case v of None \<Rightarrow> prints_null out | Some x \<Rightarrow> prints_value out (attr_int cl x))))"

lemma attr_int_range: "\<bar>attr_int cl v\<bar> < 100000"
  using sint_greater_eq [of v] sint_less [of v] uint_lt2p [of v] by (cases cl) (auto simp: abs_less_iff)

lemma read_stored:
  assumes "tool_reads tc spawn node st" "st (cl, ep) = Some (Some v)"
  shows "chip_read tc spawn (cluster_name cl) node (int ep) = Inr (attr_int cl v)"
proof -
  from assms obtain out err where o: "spawn (read_command tc cl node ep) (chip_timeout_s tc) = Completed 0 out err"
    "prints_value out (attr_int cl v)" unfolding tool_reads_def by fastforce
  from o(2) have "measured_findall out \<noteq> [] \<and> last (measured_findall out) = show_int (attr_int cl v)"
    by (auto simp: prints_value_def measured_findall_value)
  then show ?thesis
    using int_of_match_show [OF show_nat_short [OF attr_int_range]]
    by (simp add: chip_read_output [where spawn = spawn, OF o(1) [unfolded read_command_def]])
qed

lemma read_null:
  assumes "tool_reads tc spawn node st" "st (cl, ep) = Some None"
  shows "\<exists>m. chip_read tc spawn (cluster_name cl) node (int ep) = Inl (RuntimeError m)"
proof -
  from assms obtain out err where o: "spawn (read_command tc cl node ep) (chip_timeout_s tc) = Completed 0 out err"
    "prints_null out" unfolding tool_reads_def by fastforce
  from o(2) have "measured_findall out = []" unfolding prints_null_def by (elim exE conjE) (simp only: chip_reading_null)
  then show ?thesis by (simp add: chip_read_output [where spawn = spawn, OF o(1) [unfolded read_command_def]])
qed

section \<open>The reading\<close>

text \<open>The reading of an integer \<open>k\<close> in a scale: the double nearest to \<open>k / scale\<close>.\<close>

definition scaled :: "rat \<Rightarrow> int \<Rightarrow> pyfloat" where
  "scaled scale k = fl (of_int k / scale)"

lemma scaled_small:
  assumes "\<bar>k\<bar> < 100000" "100 \<le> scale"
  shows "\<bar>of_int k / scale\<bar> < (2 powi 10 :: rat)"
proof -
  have "\<bar>of_int k\<bar> < (100000 :: rat)" using assms(1) by (simp add: of_int_abs [symmetric] del: of_int_abs)
  also have "\<dots> \<le> 2 powi 10 * scale" using assms(2) by simp
  finally show ?thesis using assms(2) by (simp add: abs_divide pos_divide_less_eq)
qed

lemma scaled_Fin:
  assumes "\<bar>k\<bar> < 100000" "100 \<le> scale"
  shows "scaled scale k = Fin (fl_val (of_int k / scale))"
proof -
  have "(2 :: rat) powi 10 \<le> 2 powi 1023" by simp
  with scaled_small [OF assms] show ?thesis unfolding scaled_def by (intro fl_Fin) linarith
qed

lemma calibrated_exact:
  assumes "\<bar>k\<bar> < 100000" "100 \<le> scale"
  shows "calibrated scale (Fin 0) (Inr k) = Inr (scaled scale k)"
proof -
  have "fl (of_int k) = Fin (of_int k)" using assms(1) by (intro fl_of_int) simp
  then have f: "float_of_int k = Inr (Fin (of_int k))" by (simp add: float_of_int_def)
  have "fl (fl_val (of_int k / scale)) = scaled scale k"
    using scaled_Fin [OF assms] by (simp add: scaled_def fl_fl)
  then show ?thesis
    using assms(2) scaled_Fin [OF assms] by (simp add: calibrated_def f) (simp add: scaled_def)
qed

text \<open>The reading of an attribute: its value, or the exception for a null.\<close>

lemma stored_reading:
  assumes "tool_reads tc spawn node st" "st (cl, ep) = Some v" "100 \<le> scale"
  shows "case v of
      Some x \<Rightarrow> calibrated scale (Fin 0) (chip_read tc spawn (cluster_name cl) node (int ep)) =
                 Inr (scaled scale (attr_int cl x))
    | None \<Rightarrow> \<exists>m. calibrated scale (Fin 0) (chip_read tc spawn (cluster_name cl) node (int ep)) =
                 Inl (RuntimeError m)"
proof (cases v)
  case None
  from read_null [OF assms(1) assms(2) [unfolded None]] show ?thesis by (auto simp: None calibrated_def)
next
  case (Some x)
  from read_stored [OF assms(1) assms(2) [unfolded Some]] show ?thesis
    by (simp add: Some calibrated_exact [OF attr_int_range assms(3)])
qed

text \<open>Four decimals are enough: the archived value is the reading.\<close>

lemma archived_scaled:
  assumes "\<bar>k\<bar> < 100000" "scale \<in> {100, 1000}"
  shows "archived_value (scaled scale k) = scaled scale k" "in_range (scaled scale k)"
proof -
  have s: "100 \<le> scale" using assms(2) by auto
  note small = scaled_small [OF assms(1) s] and fin = scaled_Fin [OF assms(1) s]
  have "of_int k / scale * 10 ^ 4 = of_int (k * (if scale = 100 then 100 else 10))" using assms(2) by auto
  from rounded_to_fl_val [OF this small] have "rounded_to 4 (fl_val (of_int k / scale)) = of_int k / scale"
    by simp
  then show "archived_value (scaled scale k) = scaled scale k" using fin by (simp add: scaled_def)
  have "\<bar>fl_val (of_int k / scale) - of_int k / scale\<bar> \<le> 2 powi (10 - 53) / 2"
    by (rule fl_val_close [OF small]) simp
  moreover have "(2 :: rat) powi 10 + 2 powi (10 - 53) / 2 < 2 powi 1022" by simp
  ultimately have "\<bar>fl_val (of_int k / scale)\<bar> < 2 powi 1022"
    using small by (simp only: abs_less_iff abs_le_iff) linarith
  then show "in_range (scaled scale k)" by (simp only: fin in_range_def pyfloat.inject) blast
qed

section \<open>Readings of a report\<close>

lemma published_readings:
  assumes "\<And>n. tool_reads tc (w_spawn w n) (node_sensor cfg) (apply_writes (snd (ReportWork now a s)) st)"
    and "ep_ambient cfg = 1" "ep_internal cfg = 2" "ep_gravity cfg = 3"
    and "ambient_offset_c cfg = Fin 0" "internal_offset_c cfg = Fin 0" "sg_offset cfg = Fin 0"
  shows "if ambient_ok a (app_ambient s)
      then fst (sensor_ambient cfg tc w m) = Inr (scaled 100 (sint (ambient_centi (channel_value a))))
      else \<exists>e. fst (sensor_ambient cfg tc w m) = Inl (RuntimeError e)"
    and "case tilt_reading now (app_obs s) of
       Some (temp, grav) \<Rightarrow> fst (sensor_internal cfg tc w m) = Inr (scaled 100 (sint temp))
     | None \<Rightarrow> \<exists>e. fst (sensor_internal cfg tc w m) = Inl (RuntimeError e)"
    and "tilt_reading now (app_obs s) = Some (temp, g) \<Longrightarrow>
      fst (read_gravity cfg tc w m) = Inr (Some (scaled 1000 (uint g)))"
proof -
  let ?st = "apply_writes (snd (ReportWork now a s)) st"
  note eps = kAmbientEndpoint_def kInternalEndpoint_def kGravityEndpoint_def
  note stored = stored_reading [OF assms(1), simplified]
  note defs = next_spawn_def read_temp_centi_def read_gravity_milli_def assms(2-7) eps
  have "?st EP1 = Some (if ambient_ok a (app_ambient s) then Some (ambient_centi (channel_value a)) else None)"
    by (simp add: apply_ReportWork)
  note ea = stored [where scale = 100, OF this]
  show "if ambient_ok a (app_ambient s)
     then fst (sensor_ambient cfg tc w m) = Inr (scaled 100 (sint (ambient_centi (channel_value a))))
     else \<exists>e. fst (sensor_ambient cfg tc w m) = Inl (RuntimeError e)"
    using ea [of "l_reads m"] by (simp add: sensor_ambient_def defs split: if_split_asm)
  have "?st EP2 = Some (map_option fst (tilt_reading now (app_obs s)))" by (simp add: apply_ReportWork)
  note ei = stored [where scale = 100, OF this]
  show "case tilt_reading now (app_obs s) of
       Some (temp, grav) \<Rightarrow> fst (sensor_internal cfg tc w m) = Inr (scaled 100 (sint temp))
     | None \<Rightarrow> \<exists>e. fst (sensor_internal cfg tc w m) = Inl (RuntimeError e)"
    using ei [of "l_reads m"] by (auto simp: sensor_internal_def defs split: option.splits)
  have "?st EP3 = Some (map_option snd (tilt_reading now (app_obs s)))" by (simp add: apply_ReportWork)
  note eg = stored [where scale = 1000, OF this]
  show "tilt_reading now (app_obs s) = Some (temp, g) \<Longrightarrow>
      fst (read_gravity cfg tc w m) = Inr (Some (scaled 1000 (uint g)))"
    using eg [of "l_reads m"] by (auto simp: read_gravity_def defs)
qed

section \<open>What an update emits\<close>

fun is_control :: "event \<Rightarrow> bool" where
  "is_control (Control_event a diff eff duty act_s win_s why) = True"
| "is_control _ = False"

text \<open>Only control events are new in the telemetry.\<close>

definition control_only :: "loop_state \<Rightarrow> loop_state \<Rightarrow> bool" where
  "control_only l l' \<longleftrightarrow> (\<exists>new. telemetry l' = telemetry l @ new \<and> (\<forall>e \<in> set new. is_control e))"

lemma control_only_same: "telemetry l' = telemetry l \<Longrightarrow> control_only l l'"
  by (simp add: control_only_def)

lemma control_only_trans: "control_only l m \<Longrightarrow> control_only m n \<Longrightarrow> control_only l n"
  by (auto simp: control_only_def)

lemma tick_emit_control_only:
  assumes "tick_emit cfg w now l = (x, l')"
  shows "control_only l l'"
proof -
  obtain r s c where t: "tick cfg (w_plugs w) now (l_act l) (l_chip l) = (r, s, c)"
    by (cases "tick cfg (w_plugs w) now (l_act l) (l_chip l)") auto
  with assms show ?thesis
    by (auto simp: tick_emit_def after_actuator_def emit_transition_def emit_def control_only_def Let_def
        split: sum.splits option.splits prod.splits)
qed

text \<open>The last events of an update that ran through: the readings and the state.\<close>

definition reported_values :: "pyfloat \<Rightarrow> pyfloat \<Rightarrow> pyfloat option \<Rightarrow> event list" where
  "reported_values xa xi sg =
     [Sensor_event ''ambient'' xa, Sensor_event ''internal'' xi] @
       (case sg of None \<Rightarrow> [] | Some g \<Rightarrow> [Sensor_event ''gravity'' g])"

definition reports :: "pyfloat \<Rightarrow> pyfloat \<Rightarrow> pyfloat option \<Rightarrow> loop_state \<Rightarrow> loop_state \<Rightarrow> bool" where
  "reports xa xi sg l l' \<longleftrightarrow>
     (\<exists>m a e. control_only l m \<and> telemetry l' = telemetry m @ reported_values xa xi sg @ [State_event xa xi sg a e])"

lemma reports_after: "control_only l m \<Longrightarrow> reports xa xi sg m l' \<Longrightarrow> reports xa xi sg l l'"
  unfolding reports_def using control_only_trans by blast

lemma report_update_reports:
  assumes "report_update cfg w xa xi sg d l = (Inr (), l')"
  shows "reports xa xi sg l l'"
proof -
  obtain now l1 where m: "monotonic w l = (now, l1)" by fastforce
  then have c1: "control_only l l1" by (intro control_only_same) (auto simp: monotonic_def)
  obtain y l2 where t: "tick_emit cfg w now l1 = (y, l2)" by fastforce
  have c2: "control_only l l2" by (rule control_only_trans [OF c1 tick_emit_control_only [OF t]])
  from assms m t obtain u where y: "y = Inr u" by (cases y) (auto simp: report_update_def and_then_def)
  from assms m t y obtain s p where pl: "plan cfg now (l_act l2) = Inr (s, p)"
    by (auto simp: report_update_def and_then_def split: sum.splits)
  let ?l3 = "emit_control_heartbeat p (l2\<lparr>l_act := s\<rparr>)"
  have "control_only l2 ?l3" by (simp add: control_only_def emit_control_heartbeat_def emit_def)
  then have c3: "control_only l ?l3" by (rule control_only_trans [OF c2])
  have "telemetry l' = telemetry ?l3 @ reported_values xa xi sg @ [State_event xa xi sg (a_action (l_act ?l3)) (effort d)]"
    using assms m t y pl by (auto simp: report_update_def and_then_def reported_values_def emit_def Let_def)
  with c3 show ?thesis unfolding reports_def by blast
qed

text \<open>The gravity is read once, by some call of the tool.\<close>

lemma apply_readings_reports:
  assumes "apply_readings cfg tc w xa xi l = (Inr (), l')"
    and gravity: "\<And>m. fst (read_gravity cfg tc w m) = Inr sg"
  shows "reports xa xi sg l l'"
proof -
  obtain now l1 where m: "monotonic w l = (now, l1)" by fastforce
  define af where "af = ema (ambient_filtered l1) xa (ambient_filter_alpha (control cfg))"
  define f where "f = ema (internal_filtered l1) xi (internal_filter_alpha (control cfg))"
  obtain ps d where pid: "pi_update cfg f af now (l_pi l1) = (ps, d)" by fastforce
  note unf = apply_readings_def m af_def [symmetric] f_def [symmetric] pid Let_def
  from assms(1) obtain k where k: "py_round (fmul (fsub xi (setpoint_c cfg)) (Fin 100)) = Inr k"
    by (cases "py_round (fmul (fsub xi (setpoint_c cfg)) (Fin 100))") (auto simp: unf)
  define l3 where "l3 = l1\<lparr>ambient_filtered := Some af, internal_filtered := Some f, l_pi := ps,
    last_diff_centi := k, l_act := set_effort cfg (effort d) now (l_act l1)\<rparr>"
  have c3: "control_only l l3" using m by (intro control_only_same) (auto simp: monotonic_def l3_def)
  obtain y l4 where t: "tick_emit cfg w now l3 = (y, l4)" by fastforce
  have c4: "control_only l l4" by (rule control_only_trans [OF c3 tick_emit_control_only [OF t]])
  obtain l5 where g: "read_gravity cfg tc w l4 = (Inr sg, l5)" using gravity [of l4] by (metis prod.collapse)
  then have "telemetry l5 = telemetry l4" by (auto simp: read_gravity_def next_spawn_def)
  then have c5: "control_only l l5" by (rule control_only_trans [OF c4 control_only_same])
  have "apply_readings cfg tc w xa xi l = and_then (y, l4) (\<lambda>l4.
      case read_gravity cfg tc w l4 of (Inl e, l5) \<Rightarrow> (Inl e, l5)
      | (Inr sg, l5) \<Rightarrow> report_update cfg w xa xi sg d l5)"
    by (simp add: unf k l3_def [symmetric] t)
  with assms(1) g have "report_update cfg w xa xi sg d l5 = (Inr (), l')"
    by (cases y) (auto simp: and_then_def)
  from reports_after [OF c5 report_update_reports [OF this]] show ?thesis .
qed

text \<open>An update whose temperatures are read, and one where a temperature is null.\<close>

lemma update_reports:
  assumes "\<And>m. fst (sensor_ambient cfg tc w m) = Inr xa" "\<And>m. fst (sensor_internal cfg tc w m) = Inr xi"
    and "\<And>m. fst (read_gravity cfg tc w m) = Inr sg" "loop_control_update cfg tc w l = (Inr (), l')"
  shows "reports xa xi sg l l'"
proof -
  obtain l1 where a: "sensor_ambient cfg tc w l = (Inr xa, l1)" using assms(1) by (metis prod.collapse)
  obtain l2 where i: "sensor_internal cfg tc w l1 = (Inr xi, l2)" using assms(2) by (metis prod.collapse)
  have c: "control_only l l2"
    using a i by (intro control_only_same) (auto simp: sensor_ambient_def sensor_internal_def next_spawn_def)
  have "apply_readings cfg tc w xa xi l2 = (Inr (), l')" using assms(4) by (simp add: loop_control_update_def a i)
  from reports_after [OF c apply_readings_reports [OF this assms(3)]] show ?thesis .
qed

lemma update_null_reading:
  assumes "(\<forall>m. \<exists>e. fst (sensor_ambient cfg tc w m) = Inl (RuntimeError e)) \<or>
      (\<forall>m. \<exists>x. fst (sensor_ambient cfg tc w m) = Inr x) \<and>
      (\<forall>m. \<exists>e. fst (sensor_internal cfg tc w m) = Inl (RuntimeError e))"
    and "loop_control_update cfg tc w l = (r, l')"
  shows "r = Inr () \<and> l' = l\<lparr>l_reads := l_reads l'\<rparr>"
proof -
  obtain ra l1 where a: "sensor_ambient cfg tc w l = (ra, l1)" by fastforce
  obtain ri l2 where i: "sensor_internal cfg tc w l1 = (ri, l2)" by fastforce
  have l: "l1 = l\<lparr>l_reads := l_reads l1\<rparr>" "l2 = l\<lparr>l_reads := l_reads l2\<rparr>"
    using a i by (auto simp: sensor_ambient_def sensor_internal_def next_spawn_def)
  have "(\<exists>e. ra = Inl (RuntimeError e)) \<or> (\<exists>x e. ra = Inr x \<and> ri = Inl (RuntimeError e))"
    using assms(1) a i by (metis fst_conv)
  with assms(2) a i l show ?thesis by (auto simp: loop_control_update_def reading_failed_def)
qed

section \<open>What arrives\<close>

text \<open>The last entries of the streams are three readings that the archiver turns into rows with these
  values: one insert each, whatever identifier the server gives the entry.\<close>

definition row_of :: "'w services \<Rightarrow> (wire \<Rightarrow> string) \<Rightarrow> int \<Rightarrow> string \<Rightarrow> pyfloat \<Rightarrow> string \<times> wire_fields \<Rightarrow> bool" where
  "row_of svc enc node metric x entry \<longleftrightarrow>
     fst entry = sensorStream \<and>
     (\<exists>t. \<forall>i w. insert_entry svc sensorStream i (delivered enc (snd entry)) w =
        exec_insert svc (Sensor_data t node metric x i) w)"

definition arrive :: "'w services \<Rightarrow> (wire \<Rightarrow> string) \<Rightarrow> int \<Rightarrow> (string \<times> pyfloat) list \<Rightarrow> store \<Rightarrow> bool" where
  "arrive svc enc node xs st \<longleftrightarrow>
     (\<exists>before new. s_entries st = before @ new \<and>
        list_all2 (\<lambda>(metric, x) entry. row_of svc enc node metric x entry) xs new)"

lemma send_sensor_arrives:
  assumes "redis_encoding enc" "float_law (parse_float svc)" "e_client em" "\<bar>e_node em\<bar> < 2 ^ 63"
    and "\<And>n. srv n \<noteq> Raised_before" "\<And>n. \<bar>ns n div 1000000\<bar> < 2 ^ 63"
    and "in_range x" "archived_value x = x"
  shows "\<exists>entry. s_entries (send_event em srv ns (Sensor_event metric x) st) = s_entries st @ [entry] \<and>
    row_of svc enc (e_node em) metric x entry"
proof (intro exI conjI)
  let ?ms = "ns (s_clock st) div 1000000"
  let ?entry = "(SENSOR_STREAM, sensor_fields (e_node em) ?ms metric x)"
  show "s_entries (send_event em srv ns (Sensor_event metric x) st) = s_entries st @ [?entry]"
    using assms(3,5) by (simp add: xadd_def now_ms_def)
  show "row_of svc enc (e_node em) metric x ?entry"
    unfolding row_of_def fst_conv snd_conv
    using insert_sensor [OF assms(1,2,6,4,7)] assms(8)
    by (intro conjI exI [of _ "?ms * 1000000"]) (simp_all add: streams_eq)
qed

lemma send_events_arrive:
  assumes "redis_encoding enc" "float_law (parse_float svc)" "e_client em" "\<bar>e_node em\<bar> < 2 ^ 63"
    and "\<And>n. srv n \<noteq> Raised_before" "\<And>n. \<bar>ns n div 1000000\<bar> < 2 ^ 63"
    and "\<forall>(metric, x) \<in> set xs. in_range x \<and> archived_value x = x"
  shows "\<exists>new. s_entries (send_events em srv ns (map (\<lambda>(metric, x). Sensor_event metric x) xs) st) = s_entries st @ new \<and>
    list_all2 (\<lambda>(metric, x) entry. row_of svc enc (e_node em) metric x entry) xs new"
  using assms(7)
proof (induction xs arbitrary: st)
  case Nil
  then show ?case by (simp add: send_events_def)
next
  case (Cons y xs)
  obtain metric x where y: "y = (metric, x)" by fastforce
  obtain entry where e: "s_entries (send_event em srv ns (Sensor_event metric x) st) = s_entries st @ [entry]"
    "row_of svc enc (e_node em) metric x entry"
    using send_sensor_arrives [where srv = srv and ns = ns and x = x and metric = metric and st = st, OF assms(1-6)] Cons.prems
    by (auto simp: y)
  obtain new where "s_entries (send_events em srv ns (map (\<lambda>(metric, x). Sensor_event metric x) xs)
        (send_event em srv ns (Sensor_event metric x) st)) =
      s_entries (send_event em srv ns (Sensor_event metric x) st) @ new"
    "list_all2 (\<lambda>(metric, x) entry. row_of svc enc (e_node em) metric x entry) xs new"
    using Cons.IH [of "send_event em srv ns (Sensor_event metric x) st"] Cons.prems by auto
  with e show ?case
    by (intro exI [of _ "entry # new"]) (simp add: y send_events_def del: send_event.simps)
qed

lemma reports_arrive:
  assumes "redis_encoding enc" "float_law (parse_float svc)" "e_client em" "\<bar>e_node em\<bar> < 2 ^ 63"
    and "\<And>n. srv n \<noteq> Raised_before" "\<And>n. \<bar>ns n div 1000000\<bar> < 2 ^ 63"
    and "\<forall>x \<in> {xa, xi, xg}. in_range x \<and> archived_value x = x"
    and "reports xa xi (Some xg) l l'"
  shows "arrive svc enc (e_node em) [(''ambient'', xa), (''internal'', xi), (''gravity'', xg)]
    (send_events em srv ns (telemetry l') st)"
proof -
  let ?xs = "[(''ambient'', xa), (''internal'', xi), (''gravity'', xg)]"
  obtain pre a e where tel: "telemetry l' = pre @ map (\<lambda>(metric, x). Sensor_event metric x) ?xs @
      [State_event xa xi (Some xg) a e]"
    using assms(8) by (auto simp: reports_def reported_values_def)
  let ?st = "send_events em srv ns pre st"
  obtain new where n: "s_entries (send_events em srv ns (map (\<lambda>(metric, x). Sensor_event metric x) ?xs) ?st) =
      s_entries ?st @ new"
    "list_all2 (\<lambda>(metric, x) entry. row_of svc enc (e_node em) metric x entry) ?xs new"
    using send_events_arrive [where srv = srv and ns = ns and xs = ?xs and st = ?st, OF assms(1-6)] assms(7) by auto
  have "s_entries (send_events em srv ns (telemetry l') st) = s_entries ?st @ new"
    using n(1) by (simp add: tel send_events_def Let_def del: send_event.simps(1,2)) (simp add: now_ms_def)
  with n(2) show ?thesis unfolding arrive_def by blast
qed

text \<open>A tool that reads a store.\<close>

definition store_tool :: "attr_store \<Rightarrow> string list \<Rightarrow> int \<Rightarrow> proc" where
  "store_tool st args tmo =
     (let cl = (if args ! 1 = ''temperaturemeasurement'' then TemperatureMeasurement
                else RelativeHumidityMeasurement)
      in case st (cl, dec_val (args ! 5)) of
           None \<Rightarrow> Timed_out
         | Some None \<Rightarrow> Completed 0 ([] @ MEASURED_TAG @ '' null'' @ []) []
         | Some (Some v) \<Rightarrow> Completed 0 ([] @ MEASURED_TAG @ '' '' @ show_int (attr_int cl v) @ []) [])"

lemma store_tool_reads: "tool_reads tc (store_tool st) node st"
  unfolding tool_reads_def
proof (intro allI impI)
  fix cl ep v assume st: "st (cl, ep) = Some v"
  have run: "store_tool st (read_command tc cl node ep) tmo =
      Completed 0 (case v of None \<Rightarrow> [] @ MEASURED_TAG @ '' null'' @ []
                   | Some x \<Rightarrow> [] @ MEASURED_TAG @ '' '' @ show_int (attr_int cl x) @ []) []" for tmo
    using st by (cases cl; cases v) (simp_all add: store_tool_def read_command_def show_int_def Let_def)
  have "prints_value ([] @ MEASURED_TAG @ '' '' @ show_int k @ []) k" for k
    unfolding prints_value_def
    by (rule exI [of _ "[]"], rule exI [of _ "'' ''"], rule exI [of _ "[]"]) (simp add: is_space_def)
  moreover have "prints_null ([] @ MEASURED_TAG @ '' null'' @ [])"
    unfolding prints_null_def by (rule exI [of _ "[]"], rule exI [of _ "[]"]) simp
  ultimately show "\<exists>out err. store_tool st (read_command tc cl node ep) (chip_timeout_s tc) = Completed 0 out err \<and>
      (case v of None \<Rightarrow> prints_null out | Some x \<Rightarrow> prints_value out (attr_int cl x))"
    unfolding run by (cases v) simp_all
qed

text \<open>Reports with a sample of one second ago: with no ambient sensor, and with one that reads 21.5
  degrees.\<close>

definition demo_app :: app where
  "demo_app = \<lparr>app_obs = store_sample 1000 (1900, 1048) observer_boot, app_ambient = ambient_boot\<rparr>"

definition demo_ready :: app where
  "demo_ready = demo_app\<lparr>app_ambient := \<lparr>s_ready = True\<rparr>\<rparr>"

definition demo_answer :: sensor_answer where
  "demo_answer = \<lparr>fetch_rc = 0, channel_rc = 0, channel_value = \<lparr>val1 = 21, val2 = 500000\<rparr>\<rparr>"

definition demo_store :: "app \<Rightarrow> attr_store" where
  "demo_store s = apply_writes (snd (ReportWork 2000 demo_answer s)) Map.empty"

definition demo_world :: "app \<Rightarrow> world" where
  "demo_world s = \<lparr>w_clock = (\<lambda>n. Fin 0), w_spawn = (\<lambda>n. store_tool (demo_store s)), w_plugs = all_done\<rparr>"

text \<open>With answered commands and a clock that stands at the start of the window an update runs through.\<close>

lemma switch_all_done: "fst (switch demo_config all_done a c) = Switched True"
  by (cases a) (simp_all add: act_run_simps all_done_def)

lemma tick_runs:
  assumes "w_plugs w = all_done" "window_start (l_act l) = Some (Fin 0)"
  shows "\<exists>l'. tick_emit demo_config w (Fin 0) l = (Inr (), l') \<and> window_start (l_act l') = Some (Fin 0)"
proof -
  let ?s = "l_act l"
  have pl: "plan demo_config (Fin 0) ?s = Inr (?s, plan_body demo_config (Fin 0) ?s)"
    using assms(2) by (simp add: plan_def advance_window_def act_run_simps Let_def)
  obtain r s c where t: "tick demo_config all_done (Fin 0) ?s (l_chip l) = (r, s, c)"
    by (cases "tick demo_config all_done (Fin 0) ?s (l_chip l)") auto
  then have "(\<exists>tr. r = Inr tr) \<and> window_start s = Some (Fin 0)"
  proof (cases rule: tick_cases)
    case (raised e)
    with t pl switch_all_done [of "requested_action (plan_body demo_config (Fin 0) ?s)" "l_chip l"] show ?thesis
      by (auto simp: tick_def Let_def split: if_splits prod.splits switched.splits bool.splits)
  next
    case (failed s1 p q)
    with switch_all_done [of "requested_action p" "l_chip l"] show ?thesis by simp
  qed (use pl assms(2) in \<open>auto simp: record_switch_def Let_def\<close>)
  then show ?thesis
    using assms(1) by (auto simp: tick_emit_def t after_actuator_def Let_def split: option.split)
qed

lemma update_runs:
  assumes "w_plugs w = all_done" "\<And>n. w_clock w n = Fin 0" "window_start (l_act l) = Some (Fin 0)"
    and "\<And>m. fst (sensor_ambient demo_config tc w m) = Inr xa" "\<And>m. fst (sensor_internal demo_config tc w m) = Inr (Fin 19)"
    and "\<And>m. fst (read_gravity demo_config tc w m) = Inr sg"
  shows "fst (loop_control_update demo_config tc w l) = Inr ()"
proof -
  obtain l1 where a: "sensor_ambient demo_config tc w l = (Inr xa, l1)" using assms(4) by (metis prod.collapse)
  obtain l2 where i: "sensor_internal demo_config tc w l1 = (Inr (Fin 19), l2)" using assms(5) by (metis prod.collapse)
  have w2: "window_start (l_act l2) = Some (Fin 0)"
    using a i assms(3) by (auto simp: sensor_ambient_def sensor_internal_def next_spawn_def)
  have k: "py_round (fmul (fsub (Fin 19) (setpoint_c demo_config)) (Fin 100)) = Inr (- 100)"
    using rne_of_int [of "- 100"] by (simp add: demo_config_def fsub_def)
  define af where "af = ema (ambient_filtered l2) xa (ambient_filter_alpha (control demo_config))"
  define f where "f = ema (internal_filtered l2) (Fin 19) (internal_filter_alpha (control demo_config))"
  obtain ps d where pid: "pi_update demo_config f af (Fin 0) (l_pi l2) = (ps, d)" by fastforce
  define l3 where "l3 = l2\<lparr>l_clock := Suc (l_clock l2), ambient_filtered := Some af, internal_filtered := Some f,
    l_pi := ps, last_diff_centi := - 100, l_act := set_effort demo_config (effort d) (Fin 0) (l_act l2)\<rparr>"
  have "window_start (l_act l3) = Some (Fin 0)" using w2 by (simp add: l3_def set_effort_def Let_def)
  then obtain l4 where t: "tick_emit demo_config w (Fin 0) l3 = (Inr (), l4)" "window_start (l_act l4) = Some (Fin 0)"
    using tick_runs [OF assms(1)] by blast
  obtain l5 where g: "read_gravity demo_config tc w l4 = (Inr sg, l5)" using assms(6) by (metis prod.collapse)
  then have w5: "window_start (l_act l5) = Some (Fin 0)" using t(2) by (auto simp: read_gravity_def next_spawn_def)
  let ?l6 = "l5\<lparr>l_clock := Suc (l_clock l5)\<rparr>"
  from w5 obtain l7 where t7: "tick_emit demo_config w (Fin 0) ?l6 = (Inr (), l7)" "window_start (l_act l7) = Some (Fin 0)"
    using tick_runs [OF assms(1), of ?l6] by auto
  have pl: "plan demo_config (Fin 0) (l_act l7) = Inr (l_act l7, plan_body demo_config (Fin 0) (l_act l7))"
    using t7(2) by (simp add: plan_def advance_window_def act_run_simps Let_def)
  have "fst (report_update demo_config w xa (Fin 19) sg d l5) = Inr ()"
    by (simp add: report_update_def monotonic_def assms(2) t7(1) and_then_def pl Let_def)
  then have "fst (apply_readings demo_config tc w xa (Fin 19) l2) = Inr ()"
    by (simp add: apply_readings_def monotonic_def assms(2) af_def [symmetric] f_def [symmetric] pid k
        l3_def [symmetric] t(1) and_then_def g)
  then show ?thesis by (simp add: loop_control_update_def a i)
qed

section \<open>Properties\<close>

text \<open>C5. A measurement survives the whole way. Let the firmware have reported, the tool read the
  attributes it wrote, the endpoints be the default ones, the calibration offsets zero, and the server
  take every call. When the ambient sensor and a fresh enough sample were reported, an update of the
  control loop that runs through emits, after control events only, the temperatures as the doubles
  nearest to their hundredths of a degree and the gravity as the double nearest to its thousandths; the
  last entries of the stream are these three, and the archiver inserts a row with exactly this double
  for each of them. When any of them was reported null, the update ends quietly with nothing emitted:
  the values that were not null are not archived either.\<close>

theorem measurement_survives:
  assumes "redis_encoding enc" "float_law (parse_float svc)"
    and "e_client em" "e_node em = node_sensor cfg" "\<bar>node_sensor cfg\<bar> < 2 ^ 63"
    and "\<And>n. srv n \<noteq> Raised_before" "\<And>n. \<bar>ns n div 1000000\<bar> < 2 ^ 63"
    and "ep_ambient cfg = 1" "ep_internal cfg = 2" "ep_gravity cfg = 3"
    and "ambient_offset_c cfg = Fin 0" "internal_offset_c cfg = Fin 0" "sg_offset cfg = Fin 0"
    and "\<And>n. tool_reads tc (w_spawn w n) (node_sensor cfg) (apply_writes (snd (ReportWork now a s)) st)"
    and "loop_control_update cfg tc w l = (r, l')"
  shows "case (ambient_ok a (app_ambient s), tilt_reading now (app_obs s)) of
      (True, Some (temp, grav)) \<Rightarrow>
        r = Inr () \<longrightarrow>
        (let xa = scaled 100 (sint (ambient_centi (channel_value a))); xi = scaled 100 (sint temp);
             xg = scaled 1000 (uint grav)
         in reports xa xi (Some xg) l l' \<and>
            arrive svc enc (node_sensor cfg) [(''ambient'', xa), (''internal'', xi), (''gravity'', xg)]
              (send_events em srv ns (telemetry l') redis))
    | _ \<Rightarrow> r = Inr () \<and> l' = l\<lparr>l_reads := l_reads l'\<rparr>"
proof -
  note readings = published_readings [OF assms(14) assms(8-13)]
  have amb: "if ambient_ok a (app_ambient s)
     then fst (sensor_ambient cfg tc w m) = Inr (scaled 100 (sint (ambient_centi (channel_value a))))
     else \<exists>e. fst (sensor_ambient cfg tc w m) = Inl (RuntimeError e)" for m by (rule readings(1))
  have int: "case tilt_reading now (app_obs s) of
       Some (temp, grav) \<Rightarrow> fst (sensor_internal cfg tc w m) = Inr (scaled 100 (sint temp))
     | None \<Rightarrow> \<exists>e. fst (sensor_internal cfg tc w m) = Inl (RuntimeError e)" for m by (rule readings(2))
  show ?thesis
  proof (cases "ambient_ok a (app_ambient s) \<and> tilt_reading now (app_obs s) \<noteq> None")
    case True
    then obtain temp g where tg: "tilt_reading now (app_obs s) = Some (temp, g)" by auto
    let ?xa = "scaled 100 (sint (ambient_centi (channel_value a)))" and ?xi = "scaled 100 (sint temp)"
    let ?xg = "scaled 1000 (uint g)"
    have rep: "reports ?xa ?xi (Some ?xg) l l'" if "r = Inr ()"
      using update_reports [OF _ _ readings(3) [OF tg]] amb int True tg assms(15) that by simp
    have "\<forall>x \<in> {?xa, ?xi, ?xg}. in_range x \<and> archived_value x = x"
      using archived_scaled [OF attr_int_range [of TemperatureMeasurement]]
        archived_scaled [OF attr_int_range [of RelativeHumidityMeasurement]] by simp
    from reports_arrive [where srv = srv and ns = ns and st = redis, OF assms(1-3) _ assms(6,7) this rep]
    have "arrive svc enc (node_sensor cfg) [(''ambient'', ?xa), (''internal'', ?xi), (''gravity'', ?xg)]
        (send_events em srv ns (telemetry l') redis)" if "r = Inr ()" using that assms(4,5) by simp
    with rep True show ?thesis by (simp add: tg Let_def)
  next
    case False
    have "r = Inr () \<and> l' = l\<lparr>l_reads := l_reads l'\<rparr>"
    proof (rule update_null_reading [OF _ assms(15)], cases "ambient_ok a (app_ambient s)")
      case True
      with False have "tilt_reading now (app_obs s) = None" by blast
      with True amb int show "(\<forall>m. \<exists>e. fst (sensor_ambient cfg tc w m) = Inl (RuntimeError e)) \<or>
          (\<forall>m. \<exists>x. fst (sensor_ambient cfg tc w m) = Inr x) \<and>
          (\<forall>m. \<exists>e. fst (sensor_internal cfg tc w m) = Inl (RuntimeError e))" by simp
    next
      case False
      with amb show "(\<forall>m. \<exists>e. fst (sensor_ambient cfg tc w m) = Inl (RuntimeError e)) \<or>
          (\<forall>m. \<exists>x. fst (sensor_ambient cfg tc w m) = Inr x) \<and>
          (\<forall>m. \<exists>e. fst (sensor_internal cfg tc w m) = Inl (RuntimeError e))" by simp
    qed
    with False show ?thesis by (auto split: bool.splits option.splits)
  qed
qed

theorem measurement_survives_witness:
  "(\<exists>l'. loop_control_update demo_config demo_tool (demo_world demo_ready) started_state = (Inr (), l') \<and>
      arrive demo_services demo_encoding 1
        [(''ambient'', fl (2150 / 100)), (''internal'', fl (1900 / 100)), (''gravity'', fl (1048 / 1000))]
        (send_events \<lparr>e_node = 1, e_client = True\<rparr> (\<lambda>n. Answered) (\<lambda>n. 7000000) (telemetry l') store_init)) \<and>
   (\<exists>l'. loop_control_update demo_config demo_tool (demo_world demo_app) started_state = (Inr (), l') \<and>
      telemetry l' = telemetry started_state)"
proof
  have pf: "float_law (parse_float demo_services)" using demo_float_law by (simp add: demo_services_def)
  have rd: "tool_reads demo_tool (w_spawn (demo_world s) n) (node_sensor demo_config)
      (apply_writes (snd (ReportWork 2000 demo_answer s)) Map.empty)" for s n
    using store_tool_reads by (simp add: demo_world_def demo_store_def)
  have cfg: "\<bar>node_sensor demo_config\<bar> < 2 ^ 63" "ep_ambient demo_config = 1" "ep_internal demo_config = 2"
    "ep_gravity demo_config = 3" "ambient_offset_c demo_config = Fin 0" "internal_offset_c demo_config = Fin 0"
    "sg_offset demo_config = Fin 0" "node_sensor demo_config = 1"
    by (simp_all add: demo_config_def)
  note survives = measurement_survives [where em = "\<lparr>e_node = 1, e_client = True\<rparr>" and srv = "\<lambda>n. Answered" and
      ns = "\<lambda>n. 7000000", OF demo_encoding_ok pf _ _ cfg(1) _ _ cfg(2-7) rd]
  have tilt: "tilt_reading 2000 (app_obs demo_ready) = Some (1900, 1048)"
    "tilt_reading 2000 (app_obs demo_app) = Some (1900, 1048)"
    by (simp_all add: demo_ready_def demo_app_def tilt_reading_eq store_sample_def SAMPLE_MAX_AGE_MS_def)
  have amb: "ambient_ok demo_answer (app_ambient demo_ready)" "\<not> ambient_ok demo_answer (app_ambient demo_app)"
    by (simp_all add: ambient_ok_def demo_ready_def demo_app_def ambient_boot_def demo_answer_def)
  have c: "ambient_centi (channel_value demo_answer) = 2150"
    by (simp add: demo_answer_def ambient_centi_def i32_div_def)
  note readings = published_readings [OF rd cfg(2-7), of demo_ready, unfolded tilt, simplified amb c]
  have x: "scaled 100 1900 = Fin 19" by (simp add: scaled_def)
  have "fst (loop_control_update demo_config demo_tool (demo_world demo_ready) started_state) = Inr ()"
    by (rule update_runs) (use readings in \<open>simp_all add: x demo_world_def started_state_def
      emit_transition_def emit_def loop_init_def demo_started_def\<close>)
  then obtain l' where u: "loop_control_update demo_config demo_tool (demo_world demo_ready) started_state = (Inr (), l')"
    by (metis prod.collapse)
  from survives [OF _ _ _ _ u] show "\<exists>l'. loop_control_update demo_config demo_tool (demo_world demo_ready)
        started_state = (Inr (), l') \<and>
      arrive demo_services demo_encoding 1
        [(''ambient'', fl (2150 / 100)), (''internal'', fl (1900 / 100)), (''gravity'', fl (1048 / 1000))]
        (send_events \<lparr>e_node = 1, e_client = True\<rparr> (\<lambda>n. Answered) (\<lambda>n. 7000000) (telemetry l') store_init)"
    by (intro exI [of _ l']) (simp add: u tilt amb c cfg(8) scaled_def Let_def)
  obtain r l'' where v: "loop_control_update demo_config demo_tool (demo_world demo_app) started_state = (r, l'')"
    by fastforce
  from survives [OF _ _ _ _ v] have "r = Inr () \<and> l'' = started_state\<lparr>l_reads := l_reads l''\<rparr>"
    by (simp add: cfg(8) amb)
  with v show "\<exists>l'. loop_control_update demo_config demo_tool (demo_world demo_app) started_state = (Inr (), l') \<and>
      telemetry l' = telemetry started_state"
    by (metis loop_state.select_convs(7) loop_state.surjective loop_state.update_convs(9))
qed

end
