(* ===== verification/Spec2Isabelle.thy ===== *)
theory Spec2Isabelle
  imports Firmware Matter_Features Host_Env End_To_End
begin

text \<open>
  \<^bold>\<open>BuranBrew: the sensor firmware and the host's temperature control.\<close>

  The firmware under \<^verbatim>\<open>applications/amnin_sensors/src\<close> runs on an nRF54 board. It reads a BME680
  for the ambient temperature and listens in short Bluetooth scan bursts to a Tilt hydrometer
  floating in the beer; once a minute it writes three Matter attributes: ambient temperature on
  endpoint 1, brew temperature on endpoint 2 and specific gravity (times 1000, in a humidity
  cluster) on endpoint 3. The host under \<^verbatim>\<open>host/models\<close> reads them over Thread with \<open>chip-tool\<close>,
  switches two plugs, a heater and a cooler, and emits telemetry to Redis streams, which the Go program
  under \<^verbatim>\<open>host/telemetry/consumer\<close> archives in a database.

  \<^bold>\<open>Parts and theories.\<close>

  \<^item> \<open>Prelude\<close>: the fixed-width integers of the C code as words, the C division, byte reads that
    may fault, and the interface of a step relation with an invariant (\<open>step_invariant\<close>).
  \<^item> \<open>Tilt\<close> (\<^verbatim>\<open>ble_observer/tilt.h\<close>): \<open>tilt_black_decode\<close> on the bytes of a manufacturer data
    element, with the 32-bit conversion from Fahrenheit to centi-Celsius and its clamp.
  \<^item> \<open>Observer\<close> (\<^verbatim>\<open>ble_observer/observer.c\<close>): the static variables are the record \<open>observer\<close>, each
    C function one definition that takes the results of its kernel calls and returns the new state
    and the calls it made. Interfaces: \<open>sample_cache\<close> (what a reading returns after stores) and
    \<open>burst_gate\<close> (the last setting holds), both interpreted on the definitions.
  \<^item> \<open>Observer_Concurrency\<close>: the workqueue, the Bluetooth receive thread and the Matter thread as
    the step relation \<open>obs_step\<close>, one rule per access to shared state or kernel call, its
    executable form \<open>exec_action\<close>, six invariants, and the handlers of \<open>Observer\<close> as runs of it. The
    field \<open>adverts\<close> is a history of the elements that were stored, read by the properties only.
  \<^item> \<open>Ambient\<close> (\<^verbatim>\<open>sensors/ambient.c\<close>): initialisation and reading, with the error codes.
  \<^item> \<open>App_Task\<close> (\<^verbatim>\<open>app_task.cpp\<close>, \<^verbatim>\<open>main.cpp\<close>): reports, gate policy, initialisation, dispatch
    loop. The interface \<open>event_gate\<close> extends \<open>burst_gate\<close> by events that decide the gate.
  \<^item> \<open>Firmware\<close>: all threads, the job queue of the Matter thread, the timer and the attribute store
    as one step relation \<open>fw_step\<close>; its projection to \<open>core\<close> is a run of \<open>obs_step\<close>, and the jobs of
    \<open>App_Task\<close> are runs of it, each by the schedule that is written out for it.
  \<^item> \<open>Matter_Config\<close>, \<open>Matter_Access\<close>, \<open>Matter_Callbacks\<close>, \<open>Matter_Features\<close>
    (\<^verbatim>\<open>default_zap/zap-generated\<close>): the data model tables, the access tables, the cluster
    dispatchers and the feature macros of \<^verbatim>\<open>gen_config.h\<close>, compared with each other and with the
    attributes the application writes.
  \<^item> \<open>Pyfloat\<close>: Python's floats as binary64 with round to nearest even, infinities and NaN.
  \<^item> \<open>Control\<close> (\<^verbatim>\<open>host/models/utils.py\<close>, \<^verbatim>\<open>control.py\<close>): the configuration checks of
    \<open>Config.load\<close> and \<open>ControlTuning.validate\<close>, and \<open>PIController\<close> as \<open>pi_update\<close>.
  \<^item> \<open>Actuator\<close> (\<^verbatim>\<open>control.py\<close>): \<open>TimeProportionalActuator\<close>, one definition per method; the plugs
    are physical state and every command may succeed, fail with or without effect, or raise. The
    step relation \<open>act_step\<close> covers all methods in any order.
  \<^item> \<open>Pystring\<close>, \<open>Decimal\<close>: decimal numerals and the string operations of Python the host uses; floats
    as text with a fixed number of decimals, and the error of the rounding to binary64.
  \<^item> \<open>Chip_Tool\<close> (class \<open>ChipTool\<close> of \<^verbatim>\<open>utils.py\<close>): the command lines, return codes and timeouts, and the
    search for measured values in the output; what a command means for the plug of \<open>Actuator\<close>.
  \<^item> \<open>Host_Env\<close> (\<^verbatim>\<open>utils.py\<close>): the reader of \<^verbatim>\<open>host.env\<close>.
  \<^item> \<open>Control_Loop\<close> (class \<open>ControlLoop\<close> of \<^verbatim>\<open>control.py\<close>, \<^verbatim>\<open>run.py\<close>): readings, filters, controller,
    actuator and telemetry composed the way the code does, the loop, the shutdown and the exit status.
    The clock, the tool and the plugs are the record \<open>world\<close>.
  \<^item> \<open>Emitter\<close> (class \<open>Emitter\<close> of \<^verbatim>\<open>utils.py\<close>): the fields of an event and their delivery.
  \<^item> \<open>Archiver\<close> (\<^verbatim>\<open>consumer/main.go\<close>, \<^verbatim>\<open>schema.sql\<close>): every function of the consumer over a record of
    services. Interface: \<open>keyed_table\<close>, a table with a unique key whose insert leaves rows alone.
  \<^item> \<open>End_To_End\<close>: a measurement from the firmware's attribute store to the row of the database.

  \<^bold>\<open>How they interact.\<close> The report timer schedules \<open>ReportWork\<close> on the Matter thread, which reads
  the ambient sensor, publishes the cached Tilt sample and calls \<open>observer_trigger\<close>. The trigger
  submits the start work; its handler starts the scanner and the five second timeout. The receive
  thread decodes adverts, stores a sample under the lock and submits the stop work; the stop or the
  timeout ends the burst and, if a sample was captured, calls \<open>TiltSampleReady\<close>, which schedules
  \<open>ReportTiltWork\<close>. Device events open and close the gate through \<open>observer_enable\<close>. On the host,
  a control update turns the readings into an effort, which the actuator turns into a heating or
  cooling pulse of each window, one tick a second; failed readings leave the effort as it is until the
  actuator finds it stale. Each transition, each update and each reading is emitted as an event. The
  emitter makes it an entry of a stream, the archiver reads the entries of its group, inserts them and
  acknowledges them, and after an error reads what is pending again.

  \<^bold>\<open>What the lemmas show.\<close> For the decoder: acceptance, exact memory footprint, round trip, accuracy
  and absence of overflow in every step. For the observer: freshness of readings, ownership of state,
  and over all interleavings no overlapping bursts, a timeout for every burst, callbacks only for
  captured samples, samples from one advert each, termination and effect of disabling, and that a
  failed stop is not retried; three behaviours that the comments of the code exclude are exhibited as
  runs. For the application: the reports on every branch, the gate after any events, the error paths of
  initialisation. For the firmware: the published values are the two values of one stored advert and at
  most ten minutes old when read; the publication of a captured sample stays due until it is done, and
  can be completed within five seconds at any time, given that the workqueue serves its items. For the
  tables: index ranges, storage sizes, access entries and dispatchers agree. For the controller: bounds
  of effort and integral, anti-windup, and where a NaN leads. For the actuator: the interlock of the two
  plugs under all failures, reversal through idle for the configured time since going idle, switching
  off when the effort is stale, what justifies a pulse, and the state after an ON command that was lost.
  For the control loop: a whole run is a run of the actuator, so its safety carries over, or ends at its
  start; lost sensors and the shutdown switch everything off, unless an ON command was lost that took
  effect (\<open>clean\<close> excludes it where the action is idle); the telemetry stream names the action the
  actuator is in; an update stores the effort for its readings. For the archiver: every delivered entry
  is pending for some consumer or settled, the replay covers the consumer's own entries and those only,
  rows are what their entries say, a replay changes nothing, and a row that the database refuses stops
  the archive. Across the programs: an emitted entry becomes exactly one insert, and an update whose
  three values were all published reaches the database as exactly the doubles nearest to them, while one
  null keeps all three out.

  \<^bold>\<open>Bounds.\<close> No definition uses fuel. \<open>loop_turns\<close> and \<open>archiver_loop\<close> take the number of turns until
  the interrupt, and every property holds for each number. The interrupt arrives while the loop sleeps;
  inside a command it is an exception of that command, and between two statements it is not modelled. Uptimes are below \<open>2 ^ 63\<close> ms, which the clock
  of the model keeps; the ambient conversion is exact for readings between -326 and 326 degrees, a range
  the sensor never leaves. The workqueue comes to rest within \<open>wq_measure\<close> actions, at most four for
  each queued item and the rest of the handler that is running. Characters of host texts have code
  points below 256; numerals of up to 4300 digits are read, as Python does. Identifiers and times of
  telemetry are below \<open>2 ^ 63\<close>, and emitted values below \<open>2 ^ 1022\<close>. There is one floating point zero.

  \<^bold>\<open>Parameters.\<close> Code outside the repository is a parameter: the return codes of the Bluetooth,
  sensor and Matter calls, \<open>bt_data_parse\<close>, the order in which the workqueue runs its items, the
  fabric count and the device events, the values of the YAML file, the clocks, the runs of
  \<open>chip-tool\<close>, Redis, its client libraries, PostgreSQL and Go's \<open>strconv.ParseFloat\<close>. Pending entries are kept for each consumer of the Redis
  group. What the code relies on is stated as laws (\<open>service_laws\<close>, \<open>redis_encoding\<close>, \<open>float_law\<close>, \<open>tool_reads\<close>), each with
  an instance that keeps it.

  \<^bold>\<open>Not modelled.\<close> Log lines without effect on the state; interrupts between two
  statements of the control loop; reasons of the database to refuse a row other than its two 32-bit
  columns (in the example services only, the properties take any refusal); the one SDK setting of
  \<^verbatim>\<open>chip_project_config.h\<close>; reading YAML; waiting times of the archiver; the deployment scripts, the
  simulator, the dashboards and the alert rules, which are data of other programs. The comments and
  include lines of the C files are most of what the map leaves uncovered. Still to do: the alert rules
  as queries over the archived rows, and the telemetry of a whole run as the content of the tables.
\<close>

end
